(* ===== verification/Prelude.thy ===== *)
theory Prelude
  imports Main "HOL-Library.Char_ord" "HOL-Library.List_Lexorder" "HOL-Library.Sublist"
    "HOL-Library.Multiset"
begin

text \<open>
  The shared vocabulary of the development: Go's error values, Go's possibly-nil string maps,
  the signed machine integers of widths 32 and 64 with their wrap-around, the instants and
  durations of package \<^verbatim>\<open>time\<close>, and the generic list, sorting and map lemmas that the
  component theories use. Strings are byte lists; \<^theory_text>\<open>Char_ord\<close> and
  \<^theory_text>\<open>List_Lexorder\<close> make \<open>\<le>\<close> on them Go's bytewise string order.
\<close>

named_theorems go_simps \<open>characteristic equations of the Go primitives\<close>
named_theorems cond_simps \<open>reading a condition list after writing it\<close>
named_theorems job_simps \<open>the fields of a generated Job\<close>

subsection \<open>Errors\<close>

text \<open>
  A Go \<open>error\<close> value. \<open>NewError\<close> is one built by the program with \<^verbatim>\<open>errors.New\<close> or
  \<^verbatim>\<open>fmt.Errorf\<close>; \<open>ExtError\<close> is one handed out by code outside the repository, with an
  opaque identity and the text its \<^verbatim>\<open>Error()\<close> method returns. A nil error is \<^const>\<open>None\<close>.
\<close>

datatype go_error = NewError (error_msg: string) | ExtError nat (error_msg: string)

type_synonym 'a result = "go_error + 'a"

text \<open>Sequencing of fallible calls: the first error is returned.\<close>

definition attempt :: "'a result \<Rightarrow> ('a \<Rightarrow> 'b result) \<Rightarrow> 'b result" where
  "attempt r f = (case r of Inl err \<Rightarrow> Inl err | Inr x \<Rightarrow> f x)"

lemma attempt_Inr: "attempt r f = Inr y \<longleftrightarrow> (\<exists>x. r = Inr x \<and> f x = Inr y)"
  by (cases r) (simp_all add: attempt_def)

subsection \<open>Maps that may be nil\<close>

text \<open>
  A Go \<^verbatim>\<open>map[string]string\<close>: \<^const>\<open>None\<close> is the nil map, which can be read (every lookup
  misses) but not written (a write panics).
\<close>

type_synonym gomap = "(string \<rightharpoonup> string) option"

definition mget :: "gomap \<Rightarrow> string \<Rightarrow> string option" where
  "mget m k = (case m of None \<Rightarrow> None | Some f \<Rightarrow> f k)"

text \<open>\<^verbatim>\<open>m[k]\<close> in a single-value context gives the empty string on a miss.\<close>

definition mindex :: "gomap \<Rightarrow> string \<Rightarrow> string" where
  "mindex m k = (case mget m k of None \<Rightarrow> [] | Some v \<Rightarrow> v)"

text \<open>\<^verbatim>\<open>m[k] = v\<close>; \<^const>\<open>None\<close> is the panic on a nil map.\<close>

definition mput :: "gomap \<Rightarrow> string \<Rightarrow> string \<Rightarrow> gomap option" where
  "mput m k v = (case m of None \<Rightarrow> None | Some f \<Rightarrow> Some (Some (f(k \<mapsto> v))))"

text \<open>
  \<^verbatim>\<open>for k, v := range src { if keep(k) { dst[k] = g(v) } }\<close>: the keys of a Go map are
  distinct, so the unspecified iteration order does not matter and the loop is a map update.
\<close>

definition mrange_into :: "(string \<Rightarrow> bool) \<Rightarrow> (string \<Rightarrow> string) \<Rightarrow> gomap \<Rightarrow>
    (string \<rightharpoonup> string) \<Rightarrow> (string \<rightharpoonup> string)" where
  "mrange_into keep g src dst =
     (\<lambda>k. if keep k then (case mget src k of Some v \<Rightarrow> Some (g v) | None \<Rightarrow> dst k) else dst k)"

lemma mget_simps [simp, go_simps]:
  "mget None k = None" "mget (Some f) k = f k"
  by (simp_all add: mget_def)

lemma mindex_simps [simp, go_simps]:
  "mindex None k = []" "f k = None \<Longrightarrow> mindex (Some f) k = []"
  "f k = Some v \<Longrightarrow> mindex (Some f) k = v"
  by (simp_all add: mindex_def)

lemma mindex_eq_iff: "v \<noteq> [] \<Longrightarrow> mindex m k = v \<longleftrightarrow> mget m k = Some v"
  by (auto simp: mindex_def split: option.splits)

lemma mput_simps [simp, go_simps]:
  "mput None k v = None" "mput (Some f) k v = Some (Some (f(k \<mapsto> v)))"
  by (simp_all add: mput_def)

lemma mrange_into_miss [go_simps]: "\<not> keep k \<Longrightarrow> mrange_into keep g src dst k = dst k"
  by (simp add: mrange_into_def)

lemma mrange_into_hit [go_simps]:
  "keep k \<Longrightarrow> mget src k = Some v \<Longrightarrow> mrange_into keep g src dst k = Some (g v)"
  by (simp add: mrange_into_def)

lemma mrange_into_nokey [go_simps]: "mget src k = None \<Longrightarrow> mrange_into keep g src dst k = dst k"
  by (simp add: mrange_into_def)

subsection \<open>Machine integers\<close>

text \<open>
  \<open>int32\<close> and \<open>int64\<close> values are integers in range; an operation that may leave the range
  is followed by the wrap-around of two's complement.
\<close>

definition wrap_signed :: "nat \<Rightarrow> int \<Rightarrow> int" where
  "wrap_signed w i = (i + 2 ^ (w - 1)) mod 2 ^ w - 2 ^ (w - 1)"

definition in_signed :: "nat \<Rightarrow> int \<Rightarrow> bool" where
  "in_signed w i \<longleftrightarrow> - (2 ^ (w - 1)) \<le> i \<and> i < 2 ^ (w - 1)"

abbreviation wrap32 :: "int \<Rightarrow> int" where "wrap32 \<equiv> wrap_signed 32"
abbreviation wrap64 :: "int \<Rightarrow> int" where "wrap64 \<equiv> wrap_signed 64"
abbreviation int32 :: "int \<Rightarrow> bool" where "int32 \<equiv> in_signed 32"
abbreviation int64 :: "int \<Rightarrow> bool" where "int64 \<equiv> in_signed 64"

lemma power_pred_double: "0 < w \<Longrightarrow> (2::int) ^ w = 2 * 2 ^ (w - 1)"
  by (cases w) auto

lemma wrap_signed_id: "0 < w \<Longrightarrow> in_signed w i \<Longrightarrow> wrap_signed w i = i"
  by (simp add: wrap_signed_def in_signed_def power_pred_double)

lemma in_signed_wrap: "0 < w \<Longrightarrow> in_signed w (wrap_signed w i)"
  using pos_mod_bound [of "2 ^ w" "i + 2 ^ (w - 1)"] pos_mod_sign [of "2 ^ w" "i + 2 ^ (w - 1)"]
  by (auto simp: wrap_signed_def in_signed_def power_pred_double [of w])

lemma int32_iff: "int32 i \<longleftrightarrow> - 2147483648 \<le> i \<and> i \<le> 2147483647"
  by (auto simp: in_signed_def)

lemma int64_iff: "int64 i \<longleftrightarrow> - 9223372036854775808 \<le> i \<and> i \<le> 9223372036854775807"
  by (auto simp: in_signed_def)

lemma wrap64_id: "int64 i \<Longrightarrow> wrap64 i = i"
  by (rule wrap_signed_id) simp

lemma wrap32_id: "int32 i \<Longrightarrow> wrap32 i = i"
  by (rule wrap_signed_id) simp

text \<open>Go's integer division truncates towards zero.\<close>

definition go_div :: "int \<Rightarrow> int \<Rightarrow> int" where
  "go_div a b = sgn a * sgn b * (\<bar>a\<bar> div \<bar>b\<bar>)"

definition go_mod :: "int \<Rightarrow> int \<Rightarrow> int" where
  "go_mod a b = a - b * go_div a b"

lemma go_div_nonneg [go_simps]: "0 \<le> a \<Longrightarrow> 0 < b \<Longrightarrow> go_div a b = a div b"
  by (cases "a = 0") (simp_all add: go_div_def)

lemma go_mod_nonneg [go_simps]: "0 \<le> a \<Longrightarrow> 0 < b \<Longrightarrow> go_mod a b = a mod b"
  by (simp add: go_mod_def go_div_nonneg minus_mult_div_eq_mod)

subsection \<open>Instants and durations\<close>

text \<open>
  A \<^verbatim>\<open>time.Time\<close> is the number of nanoseconds since Go's zero time, which is the instant
  \<open>0\<close>; a \<^verbatim>\<open>time.Duration\<close> is an \<open>int64\<close> count of nanoseconds. \<^verbatim>\<open>Time.Sub\<close> saturates.
\<close>

type_synonym instant = int
type_synonym duration = int

abbreviation Second :: duration where "Second \<equiv> 1000000000"
abbreviation Minute :: duration where "Minute \<equiv> 60000000000"

definition IsZero :: "instant \<Rightarrow> bool" where
  "IsZero t \<longleftrightarrow> t = 0"

definition time_Sub :: "instant \<Rightarrow> instant \<Rightarrow> duration" where
  "time_Sub t u = max (- (2 ^ 63)) (min (2 ^ 63 - 1) (t - u))"

lemma time_Sub_int64: "int64 (time_Sub t u)"
  by (auto simp: time_Sub_def int64_iff)

lemma time_Sub_mono: "t \<le> t' \<Longrightarrow> time_Sub t u \<le> time_Sub t' u"
  by (auto simp: time_Sub_def)

lemma time_Sub_less_iff: "int64 d \<Longrightarrow> time_Sub t u < d \<longleftrightarrow> t - u < d \<and> - (2 ^ 63) < d"
  by (auto simp: time_Sub_def int64_iff)

subsection \<open>Lists and sorting\<close>

lemma sorted_map_unique:
  assumes "mset xs = mset ys" "sorted (map f xs)" "sorted (map f ys)" "inj_on f (set xs)"
  shows "xs = ys"
proof -
  have "map f xs = map f ys"
    using assms(1-3) by (metis mset_map properties_for_sort)
  moreover have "set xs = set ys"
    using assms(1) by (metis set_mset_mset)
  ultimately show ?thesis
    using assms(4) by (metis inj_on_Un map_inj_on sup.idem)
qed

text \<open>
  With injective keys the result of sorting is determined by the multiset of elements alone,
  so an unstable sort such as \<^verbatim>\<open>sort.Slice\<close> returns what \<^const>\<open>sort_key\<close> returns.
\<close>

lemma sort_key_unique:
  assumes "mset ys = mset xs" "sorted (map f ys)" "inj_on f (set xs)"
  shows "ys = sort_key f xs"
  using assms by (intro sorted_map_unique [of _ _ f]) (auto dest: mset_eq_setD)

lemma sort_key_mset_cong:
  assumes "mset xs = mset ys" "inj_on f (set xs)"
  shows "sort_key f xs = sort_key f ys"
  using assms by (intro sorted_map_unique [of _ _ f]) auto

lemma inj_on_take: "inj_on f (set xs) \<Longrightarrow> inj_on f (set (take n xs))"
  by (meson inj_on_subset set_take_subset)

lemma mset_filter_cong: "mset xs = mset ys \<Longrightarrow> mset (filter P xs) = mset (filter P ys)"
  by (metis mset_filter)

lemma foldr_append_acc: "foldl (\<lambda>acc x. acc @ [f x]) acc xs = acc @ map f xs"
  by (induction xs arbitrary: acc) auto

end
