(* ===== verification/KubeApi.thy ===== *)
theory KubeApi
  imports Prelude
begin

text \<open>
  The Kubernetes API objects the program reads and builds, as records: nodes, secrets, jobs and
  the pod template of a job. A pointer field is an \<^typ>\<open>'a option\<close>; a field the program never
  looks into and only hands on is carried as an opaque string. The shapes follow the
  program's own composite literals and the schema in
  \<^verbatim>\<open>pkg/crds/yaml/generated/upgrade.cattle.io_plans.yaml\<close>.
\<close>

subsection \<open>Metadata and selectors\<close>

record ObjectMeta =
  om_Namespace :: string
  om_Name :: string
  om_UID :: string
  om_ResourceVersion :: string
  om_Labels :: gomap
  om_Annotations :: gomap
  om_DeletionTimestamp :: "instant option"

record LabelSelectorRequirement =
  lsr_Key :: string
  lsr_Operator :: string
  lsr_Values :: "string list"

record LabelSelector =
  ls_MatchLabels :: gomap
  ls_MatchExpressions :: "LabelSelectorRequirement list"

subsection \<open>Nodes and secrets\<close>

record Node =
  n_meta :: ObjectMeta
  n_Unschedulable :: bool

abbreviation n_Name :: "Node \<Rightarrow> string" where "n_Name n \<equiv> om_Name (n_meta n)"
abbreviation n_UID :: "Node \<Rightarrow> string" where "n_UID n \<equiv> om_UID (n_meta n)"
abbreviation n_Labels :: "Node \<Rightarrow> gomap" where "n_Labels n \<equiv> om_Labels (n_meta n)"

record Secret =
  sec_meta :: ObjectMeta
  sec_Type :: string
  sec_Data :: "(string \<times> string) list"

subsection \<open>Containers\<close>

datatype EnvVarSource =
    FieldRef (fr_FieldPath: string) (fr_APIVersion: string)
  | OtherEnvSource string

record EnvVar =
  ev_Name :: string
  ev_Value :: string
  ev_ValueFrom :: "EnvVarSource option"

record EnvFromSource =
  ef_Prefix :: string
  ef_ConfigMapRef :: "(string \<times> bool option) option"
  ef_SecretRef :: "(string \<times> bool option) option"

record VolumeMount =
  vm_Name :: string
  vm_MountPath :: string
  vm_ReadOnly :: bool

record Capabilities =
  cap_Add :: "string list"
  cap_Drop :: "string list"

record WindowsSecurityContextOptions =
  win_GMSACredentialSpecName :: "string option"
  win_GMSACredentialSpec :: "string option"
  win_RunAsUserName :: "string option"
  win_HostProcess :: "bool option"

record SecurityContext =
  sc_Privileged :: "bool option"
  sc_Capabilities :: "Capabilities option"
  sc_WindowsOptions :: "WindowsSecurityContextOptions option"
  sc_Other :: string

record Container =
  c_Name :: string
  c_Image :: string
  c_Command :: "string list"
  c_Args :: "string list"
  c_VolumeMounts :: "VolumeMount list"
  c_Env :: "EnvVar list"
  c_EnvFrom :: "EnvFromSource list"
  c_SecurityContext :: "SecurityContext option"
  c_ImagePullPolicy :: string

subsection \<open>Pods and jobs\<close>

datatype VolumeSource =
    HostPath (hp_Path: string) (hp_Type: "string option")
  | DownwardAPI (da_DefaultMode: "int option") (da_Items: "(string \<times> EnvVarSource) list")
  | SecretVolume (sv_SecretName: string) (sv_DefaultMode: "int option") (sv_Optional: "bool option")

record Volume =
  v_Name :: string
  v_Source :: VolumeSource

record Toleration =
  tol_Key :: string
  tol_Operator :: string
  tol_Value :: string
  tol_Effect :: string
  tol_TolerationSeconds :: "int option"

record NodeSelectorRequirement =
  nsr_Key :: string
  nsr_Operator :: string
  nsr_Values :: "string list"

record PodAffinityTerm =
  pat_LabelSelector :: LabelSelector
  pat_TopologyKey :: string

record PodSpec =
  ps_HostIPC :: bool
  ps_HostPID :: bool
  ps_HostNetwork :: bool
  ps_DNSPolicy :: string
  ps_PriorityClassName :: string
  ps_ServiceAccountName :: string
  ps_NodeAffinity :: "NodeSelectorRequirement list list"
  ps_PodAntiAffinity :: "PodAffinityTerm list"
  ps_Tolerations :: "Toleration list"
  ps_RestartPolicy :: string
  ps_Volumes :: "Volume list"
  ps_ImagePullSecrets :: "string list"
  ps_InitContainers :: "Container list"
  ps_Containers :: "Container list"

record PodTemplateSpec =
  pt_meta :: ObjectMeta
  pt_Spec :: PodSpec

record JobSpec =
  js_PodReplacementPolicy :: "string option"
  js_BackoffLimit :: "int option"
  js_TTLSecondsAfterFinished :: "int option"
  js_ActiveDeadlineSeconds :: "int option"
  js_Completions :: "int option"
  js_Parallelism :: "int option"
  js_Template :: PodTemplateSpec

text \<open>
  A condition of any kind has these four fields; the conditions of a Plan and of a Job extend
  it with their own timestamps.
\<close>

record condition_base =
  cond_Type :: string
  cond_Status :: string
  cond_Reason :: string
  cond_Message :: string

record GenericCondition = condition_base +
  gc_LastUpdateTime :: string
  gc_LastTransitionTime :: string

record JobCondition = condition_base +
  jc_LastProbeTime :: instant
  jc_LastTransitionTime :: instant

record Job =
  job_meta :: ObjectMeta
  job_Spec :: JobSpec
  job_Conditions :: "JobCondition list"

abbreviation job_Name :: "Job \<Rightarrow> string" where "job_Name j \<equiv> om_Name (job_meta j)"
abbreviation job_Namespace :: "Job \<Rightarrow> string" where "job_Namespace j \<equiv> om_Namespace (job_meta j)"
abbreviation job_Labels :: "Job \<Rightarrow> gomap" where "job_Labels j \<equiv> om_Labels (job_meta j)"
abbreviation job_Annotations :: "Job \<Rightarrow> gomap" where "job_Annotations j \<equiv> om_Annotations (job_meta j)"

subsection \<open>Well-known names\<close>

text \<open>Constants of \<^verbatim>\<open>k8s.io/api\<close> that the program mentions, with their documented values.\<close>

definition LabelHostname :: string where "LabelHostname = ''kubernetes.io/hostname''"
definition TaintNodeUnschedulable :: string where
  "TaintNodeUnschedulable = ''node.kubernetes.io/unschedulable''"

definition empty_meta :: ObjectMeta where
  "empty_meta = \<lparr>om_Namespace = [], om_Name = [], om_UID = [], om_ResourceVersion = [],
     om_Labels = None, om_Annotations = None, om_DeletionTimestamp = None\<rparr>"

subsection \<open>src: pkg/upgrade/node\<close>

text \<open>\<^verbatim>\<open>func Hostname(node)\<close>: the hostname label when it is present, else the node's name.\<close>

definition Hostname :: "Node \<Rightarrow> string" where
  "Hostname node =
     (case n_Labels node of
        None \<Rightarrow> n_Name node
      | Some labels \<Rightarrow>
          (case labels LabelHostname of Some hostname \<Rightarrow> hostname | None \<Rightarrow> n_Name node))"

lemma Hostname_label: "mget (n_Labels n) LabelHostname = Some h \<Longrightarrow> Hostname n = h"
  by (auto simp: Hostname_def mget_def split: option.splits)

lemma Hostname_no_label: "mget (n_Labels n) LabelHostname = None \<Longrightarrow> Hostname n = n_Name n"
  by (auto simp: Hostname_def mget_def split: option.splits)

end
