(* ===== verification/Conditions.thy ===== *)
theory Conditions
  imports KubeApi
begin

text \<open>
  \<^verbatim>\<open>pkg/apis/condition/condition.go\<close>: named conditions kept in the slice
  \<^verbatim>\<open>Status.Conditions\<close> of an object. The Go code reaches the slice and the fields of an element
  by reflection, so it works on any condition type with the field names it uses; here the
  readers are polymorphic in the record extension, and the writers work on
  \<^typ>\<open>GenericCondition\<close>, the only type that has the \<^verbatim>\<open>LastUpdateTime\<close> they stamp. A function
  on the object is a function on its slice; the theory \<open>Reflection\<close> models the code on objects and proves that on a
  plan it does what the functions here do. The stamp \<open>now\<close> is the RFC 3339 text of the time
  of the call.
\<close>

type_synonym Cond = string
type_synonym conds = "GenericCondition list"

subsection \<open>Finding a condition\<close>

text \<open>\<^verbatim>\<open>findCond\<close>: the first element whose type is the name; here its index.\<close>

fun findCond :: "'a condition_base_scheme list \<Rightarrow> string \<Rightarrow> nat option" where
  "findCond [] name = None"
| "findCond (c # cs) name =
     (if cond_Type c = name then Some 0 else map_option Suc (findCond cs name))"

text \<open>The element \<^verbatim>\<open>findOrNotCreateCond\<close> points to.\<close>

definition findOrNotCreateCond :: "'a condition_base_scheme list \<Rightarrow> string \<Rightarrow> 'a condition_base_scheme option" where
  "findOrNotCreateCond cs name = map_option (\<lambda>i. cs ! i) (findCond cs name)"

text \<open>
  \<^verbatim>\<open>findOrCreateCond\<close>: a missing condition is appended with status \<open>Unknown\<close>; gives the slice and
  the index of the element.
\<close>

definition new_cond :: "string \<Rightarrow> GenericCondition" where
  "new_cond name = \<lparr>cond_Type = name, cond_Status = ''Unknown'', cond_Reason = [], cond_Message = [],
     gc_LastUpdateTime = [], gc_LastTransitionTime = []\<rparr>"

definition findOrCreateCond :: "conds \<Rightarrow> string \<Rightarrow> conds \<times> nat" where
  "findOrCreateCond cs name =
     (case findCond cs name of
        Some i \<Rightarrow> (cs, i)
      | None \<Rightarrow> (cs @ [new_cond name], length cs))"

text \<open>A write through the pointer that \<^verbatim>\<open>findOrCreateCond\<close> returns.\<close>

definition with_cond :: "conds \<Rightarrow> string \<Rightarrow> (GenericCondition \<Rightarrow> GenericCondition) \<Rightarrow> conds" where
  "with_cond cs name f = (let (cs', i) = findOrCreateCond cs name in cs'[i := f (cs' ! i)])"

subsection \<open>Field writers\<close>

definition touchTS :: "string \<Rightarrow> GenericCondition \<Rightarrow> GenericCondition" where
  "touchTS now c = c\<lparr>gc_LastUpdateTime := now\<rparr>"

text \<open>\<^verbatim>\<open>setValue\<close> for the two fields it is used on: a changed value also moves the stamp.\<close>

definition setValue_Status :: "string \<Rightarrow> string \<Rightarrow> GenericCondition \<Rightarrow> GenericCondition" where
  "setValue_Status now v c =
     (if cond_Status c \<noteq> v then touchTS now (c\<lparr>cond_Status := v\<rparr>) else c)"

definition setValue_Message :: "string \<Rightarrow> string \<Rightarrow> GenericCondition \<Rightarrow> GenericCondition" where
  "setValue_Message now v c =
     (if cond_Message c \<noteq> v then touchTS now (c\<lparr>cond_Message := v\<rparr>) else c)"

definition setStatus :: "string \<Rightarrow> conds \<Rightarrow> string \<Rightarrow> string \<Rightarrow> conds" where
  "setStatus now cs name status = with_cond cs name (setValue_Status now status)"

definition setTS :: "conds \<Rightarrow> string \<Rightarrow> string \<Rightarrow> conds" where
  "setTS cs name ts = with_cond cs name (touchTS ts)"

subsection \<open>Readers\<close>

definition getStatus :: "'a condition_base_scheme list \<Rightarrow> string \<Rightarrow> string" where
  "getStatus cs name = (case findOrNotCreateCond cs name of None \<Rightarrow> [] | Some c \<Rightarrow> cond_Status c)"

definition getTS :: "conds \<Rightarrow> string \<Rightarrow> string" where
  "getTS cs name = (case findOrNotCreateCond cs name of None \<Rightarrow> [] | Some c \<Rightarrow> gc_LastUpdateTime c)"

text \<open>Only a \<^typ>\<open>JobCondition\<close> has a \<^verbatim>\<open>LastTransitionTime\<close> that is a time.\<close>

definition getLastTransitionTime :: "JobCondition list \<Rightarrow> string \<Rightarrow> instant" where
  "getLastTransitionTime cs name =
     (case findOrNotCreateCond cs name of None \<Rightarrow> 0 | Some c \<Rightarrow> jc_LastTransitionTime c)"

definition GetReason :: "'a condition_base_scheme list \<Rightarrow> Cond \<Rightarrow> string" where
  "GetReason cs c = (case findOrNotCreateCond cs c of None \<Rightarrow> [] | Some x \<Rightarrow> cond_Reason x)"

definition GetMessage :: "'a condition_base_scheme list \<Rightarrow> Cond \<Rightarrow> string" where
  "GetMessage cs c = (case findOrNotCreateCond cs c of None \<Rightarrow> [] | Some x \<Rightarrow> cond_Message x)"

definition GetStatus :: "'a condition_base_scheme list \<Rightarrow> Cond \<Rightarrow> string" where
  "GetStatus cs c = getStatus cs c"

definition IsTrue :: "'a condition_base_scheme list \<Rightarrow> Cond \<Rightarrow> bool" where
  "IsTrue cs c \<longleftrightarrow> getStatus cs c = ''True''"

definition IsFalse :: "'a condition_base_scheme list \<Rightarrow> Cond \<Rightarrow> bool" where
  "IsFalse cs c \<longleftrightarrow> getStatus cs c = ''False''"

definition IsUnknown :: "'a condition_base_scheme list \<Rightarrow> Cond \<Rightarrow> bool" where
  "IsUnknown cs c \<longleftrightarrow> getStatus cs c = ''Unknown''"

definition GetLastUpdated :: "conds \<Rightarrow> Cond \<Rightarrow> string" where
  "GetLastUpdated cs c = getTS cs c"

definition GetLastTransitionTime :: "JobCondition list \<Rightarrow> Cond \<Rightarrow> instant" where
  "GetLastTransitionTime cs c = getLastTransitionTime cs c"

subsection \<open>Writers\<close>

definition SetTrue :: "string \<Rightarrow> Cond \<Rightarrow> conds \<Rightarrow> conds" where
  "SetTrue now c cs = setStatus now cs c ''True''"

definition SetFalse :: "string \<Rightarrow> Cond \<Rightarrow> conds \<Rightarrow> conds" where
  "SetFalse now c cs = setStatus now cs c ''False''"

definition SetUnknown :: "string \<Rightarrow> Cond \<Rightarrow> conds \<Rightarrow> conds" where
  "SetUnknown now c cs = setStatus now cs c ''Unknown''"

definition SetStatus :: "string \<Rightarrow> Cond \<Rightarrow> string \<Rightarrow> conds \<Rightarrow> conds" where
  "SetStatus now c status cs = setStatus now cs c status"

definition SetStatusBool :: "string \<Rightarrow> Cond \<Rightarrow> bool \<Rightarrow> conds \<Rightarrow> conds" where
  "SetStatusBool now c val cs =
     (if val then setStatus now cs c ''True'' else setStatus now cs c ''False'')"

definition LastUpdated :: "Cond \<Rightarrow> string \<Rightarrow> conds \<Rightarrow> conds" where
  "LastUpdated c ts cs = setTS cs c ts"

definition CreateUnknownIfNotExists :: "string \<Rightarrow> Cond \<Rightarrow> conds \<Rightarrow> conds" where
  "CreateUnknownIfNotExists now c cs =
     (case findCond cs c of None \<Rightarrow> SetUnknown now c cs | Some _ \<Rightarrow> cs)"

text \<open>\<^verbatim>\<open>Reason\<close> writes the field directly and leaves the stamp alone.\<close>

definition SetReason :: "Cond \<Rightarrow> string \<Rightarrow> conds \<Rightarrow> conds" where
  "SetReason c reason cs = with_cond cs c (\<lambda>x. x\<lparr>cond_Reason := reason\<rparr>)"

definition SetMessage :: "string \<Rightarrow> Cond \<Rightarrow> string \<Rightarrow> conds \<Rightarrow> conds" where
  "SetMessage now c message cs = with_cond cs c (setValue_Message now message)"

definition SetMessageIfBlank :: "string \<Rightarrow> Cond \<Rightarrow> string \<Rightarrow> conds \<Rightarrow> conds" where
  "SetMessageIfBlank now c message cs =
     (if GetMessage cs c = [] then SetMessage now c message cs else cs)"

definition SetError :: "string \<Rightarrow> Cond \<Rightarrow> string \<Rightarrow> go_error option \<Rightarrow> conds \<Rightarrow> conds" where
  "SetError now c reason err cs =
     (case err of
        None \<Rightarrow> SetReason c reason (SetMessage now c [] (SetTrue now c cs))
      | Some e \<Rightarrow>
          (let reason' = (if reason = [] then ''Error'' else reason)
           in SetReason c reason' (SetMessage now c (error_msg e) (SetFalse now c cs))))"

definition MatchesError :: "conds \<Rightarrow> Cond \<Rightarrow> string \<Rightarrow> go_error option \<Rightarrow> bool" where
  "MatchesError cs c reason err =
     (case err of
        None \<Rightarrow> IsTrue cs c \<and> GetMessage cs c = [] \<and> GetReason cs c = reason
      | Some e \<Rightarrow>
          (let reason' = (if reason = [] then ''Error'' else reason)
           in IsFalse cs c \<and> GetMessage cs c = error_msg e \<and> GetReason cs c = reason'))"

subsection \<open>The interface: a store of named conditions\<close>

text \<open>
  What the handlers rely on: a write to a named condition is seen by a read of that name (a
  missing condition is written from its initial value), and no other name changes.
\<close>

locale condition_store =
  fixes lookup :: "'s \<Rightarrow> string \<Rightarrow> 'c option"
    and modify :: "'s \<Rightarrow> string \<Rightarrow> ('c \<Rightarrow> 'c) \<Rightarrow> 's"
    and fresh :: "string \<Rightarrow> 'c"
    and admissible :: "string \<Rightarrow> ('c \<Rightarrow> 'c) \<Rightarrow> bool"
  assumes lookup_modify_same: "admissible n f \<Longrightarrow>
      lookup (modify s n f) n = Some (f (case lookup s n of None \<Rightarrow> fresh n | Some c \<Rightarrow> c))"
    and lookup_modify_other: "admissible n f \<Longrightarrow> m \<noteq> n \<Longrightarrow> lookup (modify s n f) m = lookup s m"
begin

definition present :: "'s \<Rightarrow> string \<Rightarrow> 'c" where
  "present s n = (case lookup s n of None \<Rightarrow> fresh n | Some c \<Rightarrow> c)"

lemma present_modify:
  "admissible n f \<Longrightarrow> present (modify s n f) m = (if m = n then f (present s n) else present s m)"
  by (simp add: present_def lookup_modify_same lookup_modify_other)

text \<open>A sequence of writes to one name composes.\<close>

lemma lookup_modify_twice:
  "admissible n f \<Longrightarrow> admissible n g \<Longrightarrow> lookup (modify (modify s n f) n g) n = Some (g (f (present s n)))"
  by (simp add: lookup_modify_same present_def)

lemma lookup_modify_thrice:
  "admissible n f \<Longrightarrow> admissible n g \<Longrightarrow> admissible n h \<Longrightarrow>
    lookup (modify (modify (modify s n f) n g) n h) n = Some (h (g (f (present s n))))"
  by (simp add: lookup_modify_same present_def)

text \<open>Writes to different names do not interfere.\<close>

lemma lookup_modify_commute:
  "admissible n f \<Longrightarrow> admissible m g \<Longrightarrow> n \<noteq> m \<Longrightarrow>
    lookup (modify (modify s n f) m g) k = lookup (modify (modify s m g) n f) k"
  by (cases "k = n"; cases "k = m") (simp_all add: lookup_modify_same lookup_modify_other)

end

subsection \<open>The slice is a condition store\<close>

lemma findCond_SomeD:
  "findCond cs n = Some i \<Longrightarrow> i < length cs \<and> cond_Type (cs ! i) = n \<and> (\<forall>j<i. cond_Type (cs ! j) \<noteq> n)"
proof (induction cs arbitrary: i)
  case (Cons c cs)
  then show ?case
    by (auto split: if_splits) (metis less_Suc_eq_0_disj nth_Cons_0 nth_Cons_Suc)
qed simp

lemma findCond_None: "findCond cs n = None \<longleftrightarrow> n \<notin> cond_Type ` set cs"
  by (induction cs) auto

lemma findCond_append:
  "findCond (cs @ ds) n =
     (case findCond cs n of Some i \<Rightarrow> Some i | None \<Rightarrow> map_option (\<lambda>i. length cs + i) (findCond ds n))"
  by (cases "findCond ds n"; induction cs) (auto split: option.splits)

lemma findCond_update_type:
  "i < length cs \<Longrightarrow> cond_Type x = cond_Type (cs ! i) \<Longrightarrow> findCond (cs[i := x]) n = findCond cs n"
  by (induction cs arbitrary: i) (auto split: nat.splits)

abbreviation keeps_type :: "string \<Rightarrow> (GenericCondition \<Rightarrow> GenericCondition) \<Rightarrow> bool" where
  "keeps_type n f \<equiv> (\<forall>c. cond_Type c = n \<longrightarrow> cond_Type (f c) = n)"

lemma with_cond_present:
  "findCond cs n = Some i \<Longrightarrow> with_cond cs n f = cs[i := f (cs ! i)]"
  by (simp add: with_cond_def findOrCreateCond_def)

lemma with_cond_absent:
  "findCond cs n = None \<Longrightarrow> with_cond cs n f = cs @ [f (new_cond n)]"
  by (simp add: with_cond_def findOrCreateCond_def)

lemma new_cond_type [simp]: "cond_Type (new_cond n) = n"
  by (simp add: new_cond_def)

interpretation conds: condition_store findOrNotCreateCond with_cond new_cond keeps_type
proof
  fix n f and s :: conds
  assume k: "keeps_type n f"
  show "findOrNotCreateCond (with_cond s n f) n =
      Some (f (case findOrNotCreateCond s n of None \<Rightarrow> new_cond n | Some c \<Rightarrow> c))"
  proof (cases "findCond s n")
    case None
    with k show ?thesis
      by (simp add: findOrNotCreateCond_def with_cond_absent findCond_append)
  next
    case (Some i)
    with findCond_SomeD [OF Some] k show ?thesis
      by (simp add: findOrNotCreateCond_def with_cond_present findCond_update_type)
  qed
next
  fix n f m and s :: conds
  assume k: "keeps_type n f" and m: "m \<noteq> n"
  show "findOrNotCreateCond (with_cond s n f) m = findOrNotCreateCond s m"
  proof (cases "findCond s n")
    case None
    with k m show ?thesis
      by (auto simp: findOrNotCreateCond_def with_cond_absent findCond_append nth_append
          split: option.splits dest: findCond_SomeD)
  next
    case (Some i)
    have "a \<noteq> i" if "findCond s m = Some a" for a
      using findCond_SomeD [OF that] findCond_SomeD [OF Some] m by metis
    with Some findCond_SomeD [OF Some] k show ?thesis
      by (cases "findCond s m") (simp_all add: findOrNotCreateCond_def with_cond_present findCond_update_type)
  qed
qed

lemma keeps_type_writers [simp]:
  "keeps_type n (setValue_Status now v)" "keeps_type n (setValue_Message now v)"
  "keeps_type n (\<lambda>x. x\<lparr>cond_Reason := r\<rparr>)" "keeps_type n (touchTS ts)"
  by (auto simp: setValue_Status_def setValue_Message_def touchTS_def)

lemmas writer_defs = SetTrue_def SetFalse_def SetUnknown_def SetStatus_def SetReason_def SetMessage_def
  setStatus_def setTS_def LastUpdated_def

text \<open>What \<open>SetError\<close> leaves in its condition, and that it touches no other.\<close>

definition errored :: "string \<Rightarrow> string \<Rightarrow> go_error option \<Rightarrow> GenericCondition \<Rightarrow> GenericCondition" where
  "errored now reason err c =
     (case err of
        None \<Rightarrow> (setValue_Message now [] (setValue_Status now ''True'' c))\<lparr>cond_Reason := reason\<rparr>
      | Some e \<Rightarrow> (setValue_Message now (error_msg e) (setValue_Status now ''False'' c))
          \<lparr>cond_Reason := (if reason = [] then ''Error'' else reason)\<rparr>)"

lemma lookup_SetError_same [cond_simps]:
  "findOrNotCreateCond (SetError now c reason err cs) c = Some (errored now reason err (conds.present cs c))"
  by (cases err)
    (auto simp: SetError_def writer_defs Let_def errored_def conds.lookup_modify_thrice)

lemma lookup_SetError_other [cond_simps]:
  "m \<noteq> c \<Longrightarrow> findOrNotCreateCond (SetError now c reason err cs) m = findOrNotCreateCond cs m"
  by (cases err) (auto simp: SetError_def writer_defs Let_def conds.lookup_modify_other)

lemma errored_fields [simp]:
  "cond_Type (errored now r e c) = cond_Type c"
  "cond_Status (errored now r e c) = (if e = None then ''True'' else ''False'')"
  "cond_Message (errored now r e c) = (case e of None \<Rightarrow> [] | Some x \<Rightarrow> error_msg x)"
  "cond_Reason (errored now r e c) = (if e \<noteq> None \<and> r = [] then ''Error'' else r)"
  by (auto simp: errored_def setValue_Status_def setValue_Message_def touchTS_def split: option.splits)

lemma SetError_reads [cond_simps]:
  "IsTrue (SetError now c reason err cs) c \<longleftrightarrow> err = None"
  "IsFalse (SetError now c reason err cs) c \<longleftrightarrow> err \<noteq> None"
  "GetReason (SetError now c reason err cs) c = (if err \<noteq> None \<and> reason = [] then ''Error'' else reason)"
  "GetMessage (SetError now c reason err cs) c = (case err of None \<Rightarrow> [] | Some e \<Rightarrow> error_msg e)"
  by (auto simp: IsTrue_def IsFalse_def getStatus_def GetReason_def GetMessage_def lookup_SetError_same)

lemma SetError_reads_other [cond_simps]:
  assumes "m \<noteq> c"
  shows "IsTrue (SetError now c reason err cs) m = IsTrue cs m"
    "IsFalse (SetError now c reason err cs) m = IsFalse cs m"
    "GetReason (SetError now c reason err cs) m = GetReason cs m"
    "GetMessage (SetError now c reason err cs) m = GetMessage cs m"
    "getTS (SetError now c reason err cs) m = getTS cs m"
  using assms by (simp_all add: IsTrue_def IsFalse_def getStatus_def GetReason_def GetMessage_def getTS_def
      lookup_SetError_other)

lemma IsTrue_not_IsFalse: "IsTrue cs c \<Longrightarrow> \<not> IsFalse cs c"
  by (simp add: IsTrue_def IsFalse_def)

text \<open>Writing keeps the condition types distinct, which the API server demands of the slice.\<close>

definition distinct_types :: "conds \<Rightarrow> bool" where
  "distinct_types cs \<longleftrightarrow> distinct (map cond_Type cs)"

lemma map_type_update: "i < length cs \<Longrightarrow> cond_Type x = cond_Type (cs ! i) \<Longrightarrow>
    map cond_Type (cs[i := x]) = map cond_Type cs"
  by (simp add: map_update list_update_same_conv)

lemma distinct_with_cond: "keeps_type n f \<Longrightarrow> distinct_types cs \<Longrightarrow> distinct_types (with_cond cs n f)"
  by (cases "findCond cs n")
    (auto simp: distinct_types_def with_cond_absent with_cond_present findCond_None map_type_update
      dest: findCond_SomeD)

lemma distinct_SetError: "distinct_types cs \<Longrightarrow> distinct_types (SetError now c reason err cs)"
  by (cases err) (auto simp: SetError_def writer_defs Let_def intro!: distinct_with_cond)

lemma length_with_cond: "findCond cs n \<noteq> None \<Longrightarrow> length (with_cond cs n f) = length cs"
  by (auto simp: with_cond_present)

text \<open>Repeating a write changes nothing, the stamp included.\<close>

lemma with_cond_idem:
  assumes "keeps_type n f" "keeps_type n g" "\<And>c. cond_Type c = n \<Longrightarrow> g (f c) = f c"
  shows "with_cond (with_cond cs n f) n g = with_cond cs n f"
proof (cases "findCond cs n")
  case None
  with assms show ?thesis by (simp add: with_cond_absent with_cond_present findCond_append)
next
  case (Some i)
  with findCond_SomeD [OF Some] assms show ?thesis
    by (simp add: with_cond_present findCond_update_type)
qed

lemma with_cond_fuse:
  assumes "keeps_type n f"
  shows "with_cond (with_cond cs n f) n g = with_cond cs n (g \<circ> f)"
proof (cases "findCond cs n")
  case None
  with assms show ?thesis by (simp add: with_cond_absent with_cond_present findCond_append)
next
  case (Some i)
  with findCond_SomeD [OF Some] assms show ?thesis
    by (simp add: with_cond_present findCond_update_type)
qed

lemma keeps_type_errored [simp]: "keeps_type n (errored now r e)"
  by simp

lemma keeps_type_comp: "keeps_type n f \<Longrightarrow> keeps_type n g \<Longrightarrow> keeps_type n (g \<circ> f)"
  by simp

lemma SetError_as_with_cond: "SetError now c reason err cs = with_cond cs c (errored now reason err)"
proof -
  have "errored now reason err = (\<lambda>x. x\<lparr>cond_Reason := cond_Reason (errored now reason err x)\<rparr>) \<circ>
      (setValue_Message now (case err of None \<Rightarrow> [] | Some e \<Rightarrow> error_msg e) \<circ>
       setValue_Status now (if err = None then ''True'' else ''False''))"
    by (cases err) (auto simp: fun_eq_iff errored_def setValue_Status_def setValue_Message_def touchTS_def)
  then show ?thesis
    by (cases err) (simp_all add: SetError_def writer_defs with_cond_fuse keeps_type_comp Let_def)
qed

lemma errored_idem: "errored now' r e (errored now r e c) = errored now r e c"
  by (cases e) (auto simp: errored_def setValue_Status_def setValue_Message_def touchTS_def)

subsection \<open>Writes that change nothing, and reads after writes\<close>

lemma with_cond_noop: "findCond cs n = Some i \<Longrightarrow> f (cs ! i) = cs ! i \<Longrightarrow> with_cond cs n f = cs"
  by (simp add: with_cond_present)

lemma SetError_noop:
  assumes "findCond cs c \<noteq> None" "MatchesError cs c reason err"
  shows "SetError now c reason err cs = cs"
proof -
  obtain i where i: "findCond cs c = Some i" using assms(1) by auto
  have "errored now reason err (cs ! i) = cs ! i"
    using assms(2) i
    by (cases err) (auto simp: MatchesError_def IsTrue_def IsFalse_def getStatus_def GetMessage_def GetReason_def
        findOrNotCreateCond_def errored_def setValue_Status_def setValue_Message_def Let_def)
  with i show ?thesis by (simp add: SetError_as_with_cond with_cond_noop)
qed

lemma findCond_with_cond: "keeps_type n f \<Longrightarrow> findCond (with_cond cs n f) m \<noteq> None \<longleftrightarrow> m = n \<or> findCond cs m \<noteq> None"
proof (cases "findCond cs n")
  case None
  assume "keeps_type n f"
  with None show ?thesis by (simp add: with_cond_absent findCond_append split: option.splits)
next
  case (Some i)
  assume "keeps_type n f"
  with Some findCond_SomeD [OF Some] show ?thesis
    by (auto simp: with_cond_present findCond_update_type)
qed

lemma findCond_SetError: "findCond (SetError now c reason err cs) m \<noteq> None \<longleftrightarrow> m = c \<or> findCond cs m \<noteq> None"
  by (simp add: SetError_as_with_cond findCond_with_cond del: not_None_eq)

text \<open>Reads of other conditions after the single writers, and of the written one.\<close>

lemma writers_other [cond_simps]:
  assumes "m \<noteq> c"
  shows "findOrNotCreateCond (SetFalse now c cs) m = findOrNotCreateCond cs m"
    "findOrNotCreateCond (SetMessage now c v cs) m = findOrNotCreateCond cs m"
    "findOrNotCreateCond (SetReason c r cs) m = findOrNotCreateCond cs m"
    "findOrNotCreateCond (CreateUnknownIfNotExists now c cs) m = findOrNotCreateCond cs m"
  using assms by (auto simp: writer_defs CreateUnknownIfNotExists_def conds.lookup_modify_other split: option.splits)

lemma reads_cong:
  assumes "findOrNotCreateCond cs c = findOrNotCreateCond ds c"
  shows "IsTrue cs c = IsTrue ds c" "IsFalse cs c = IsFalse ds c" "GetReason cs c = GetReason ds c"
    "GetMessage cs c = GetMessage ds c"
  using assms by (simp_all add: IsTrue_def IsFalse_def getStatus_def GetReason_def GetMessage_def)

lemma CreateUnknown_present: "findCond cs c \<noteq> None \<Longrightarrow> CreateUnknownIfNotExists now c cs = cs"
  by (auto simp: CreateUnknownIfNotExists_def)

lemma CreateUnknown_exists: "findCond (CreateUnknownIfNotExists now c cs) m \<noteq> None \<longleftrightarrow> m = c \<or> findCond cs m \<noteq> None"
  by (cases "findCond cs c")
    (auto simp: CreateUnknownIfNotExists_def writer_defs findCond_with_cond simp del: not_None_eq)

subsection \<open>Properties\<close>

text \<open>
  C40: what \<open>SetError\<close> records, \<open>MatchesError\<close> recognises, for every condition list, reason and error.
\<close>

theorem SetError_MatchesError: "MatchesError (SetError now c reason err cs) c reason err"
  by (cases err) (simp_all add: MatchesError_def cond_simps Let_def)

text \<open>
  Recording the same outcome again changes nothing, not even the update time, whatever the clock
  says; so a handler that keeps reaching the same conclusion leaves the status alone.
\<close>

lemma SetError_idempotent:
  "SetError now' c reason err (SetError now c reason err cs) = SetError now c reason err cs"
  unfolding SetError_as_with_cond
  by (rule with_cond_idem) (simp_all add: errored_idem)

text \<open>
  \<open>SetError\<close> leaves every other condition as it was, keeps the condition types distinct, and never
  shortens the list or adds more than the condition it writes.
\<close>

lemma SetError_isolated:
  "(\<forall>m. m \<noteq> c \<longrightarrow> findOrNotCreateCond (SetError now c reason err cs) m = findOrNotCreateCond cs m) \<and>
   (distinct_types cs \<longrightarrow> distinct_types (SetError now c reason err cs)) \<and>
   length (SetError now c reason err cs) = (if c \<in> cond_Type ` set cs then length cs else Suc (length cs))"
proof (intro conjI)
  show "length (SetError now c reason err cs) = (if c \<in> cond_Type ` set cs then length cs else Suc (length cs))"
    using findCond_None [of cs c]
    by (cases "findCond cs c") (auto simp: SetError_as_with_cond with_cond_absent with_cond_present)
qed (auto simp: lookup_SetError_other distinct_SetError)

end
