(* ===== verification/GoStd.thy ===== *)
theory GoStd
  imports Prelude
begin

text \<open>
  The parts of Go's standard library the program calls: \<^verbatim>\<open>strings\<close>, \<^verbatim>\<open>path\<close> and
  \<^verbatim>\<open>path/filepath\<close> (Linux), \<^verbatim>\<open>strconv\<close>, \<^verbatim>\<open>sort.SearchStrings\<close>, \<^verbatim>\<open>slices\<close> and
  \<^verbatim>\<open>Duration.String\<close>. Each is an executable function on byte strings.
\<close>

subsection \<open>strings\<close>

text \<open>\<^verbatim>\<open>strings.ReplaceAll(s, old, new)\<close> for a non-empty \<open>old\<close> (the program's only use).\<close>

function ReplaceAll :: "string \<Rightarrow> string \<Rightarrow> string \<Rightarrow> string" where
  "ReplaceAll [] old new = []"
| "ReplaceAll (c # cs) old new =
     (if old \<noteq> [] \<and> prefix old (c # cs)
      then new @ ReplaceAll (drop (length old) (c # cs)) old new
      else c # ReplaceAll cs old new)"
  by pat_completeness auto
termination
  by (relation "measure (\<lambda>(s, old, new). length s)") auto

lemma ReplaceAll_char: "ReplaceAll s [a] [b] = map (\<lambda>c. if c = a then b else c) s"
  by (induction s) auto

text \<open>\<^verbatim>\<open>strings.Split(s, sep)\<close> for a one-byte separator; never empty.\<close>

fun Split :: "string \<Rightarrow> char \<Rightarrow> string list" where
  "Split [] sep = [[]]"
| "Split (c # cs) sep =
     (if c = sep then [] # Split cs sep
      else (case Split cs sep of [] \<Rightarrow> [[c]] | p # ps \<Rightarrow> (c # p) # ps))"

text \<open>\<^verbatim>\<open>strings.SplitN(s, sep, 2)\<close> for a one-byte separator.\<close>

definition SplitN2 :: "string \<Rightarrow> char \<Rightarrow> string list" where
  "SplitN2 s sep =
     (if sep \<in> set s then [takeWhile (\<lambda>c. c \<noteq> sep) s, tl (dropWhile (\<lambda>c. c \<noteq> sep) s)] else [s])"

text \<open>\<^verbatim>\<open>strings.Join(parts, sep)\<close>.\<close>

fun Join :: "string list \<Rightarrow> string \<Rightarrow> string" where
  "Join [] sep = []"
| "Join [p] sep = p"
| "Join (p # q # ps) sep = p @ sep @ Join (q # ps) sep"

text \<open>\<^verbatim>\<open>strings.Contains(s, sub)\<close>.\<close>

fun Contains :: "string \<Rightarrow> string \<Rightarrow> bool" where
  "Contains [] sub = (sub = [])"
| "Contains (c # cs) sub = (prefix sub (c # cs) \<or> Contains cs sub)"

lemma Split_ne [simp]: "Split s sep \<noteq> []"
  by (induction s) (auto split: list.splits)

lemma Split_no_sep: "sep \<notin> set s \<Longrightarrow> Split s sep = [s]"
  by (induction s) auto

lemma Split_parts: "p \<in> set (Split s sep) \<Longrightarrow> sep \<notin> set p"
  by (induction s arbitrary: p) (auto split: if_splits list.splits)

lemma Split_append_sep:
  "sep \<notin> set a \<Longrightarrow> Split (a @ sep # b) sep = a # Split b sep"
  by (induction a) auto

lemma Join_Split: "Join (Split s sep) [sep] = s"
proof (induction s)
  case (Cons c cs)
  then show ?case by (cases "Split cs sep"; cases "tl (Split cs sep)") auto
qed simp

lemma hd_SplitN2: "hd (SplitN2 s sep) = takeWhile (\<lambda>c. c \<noteq> sep) s"
  by (auto simp: SplitN2_def takeWhile_eq_all_conv[symmetric] intro: takeWhile_eq_all_conv[THEN iffD2, symmetric])

lemma Contains_iff: "Contains s sub \<longleftrightarrow> (\<exists>a b. s = a @ sub @ b)"
proof (induction s)
  case (Cons c cs)
  show ?case
  proof
    assume "Contains (c # cs) sub"
    then consider "prefix sub (c # cs)" | "Contains cs sub" by auto
    then show "\<exists>a b. c # cs = a @ sub @ b"
    proof cases
      case 1
      then show ?thesis by (metis append_Nil prefix_def)
    next
      case 2
      then show ?thesis using Cons.IH by (metis append_Cons)
    qed
  next
    assume "\<exists>a b. c # cs = a @ sub @ b"
    then obtain a b where ab: "c # cs = a @ sub @ b" by blast
    show "Contains (c # cs) sub"
    proof (cases a)
      case Nil
      with ab have "prefix sub (c # cs)" by (simp add: prefix_def)
      then show ?thesis by simp
    next
      case (Cons d a')
      with ab \<open>Contains cs sub = _\<close> show ?thesis by auto
    qed
  qed
qed auto

lemma Contains_append: "Contains (a @ sub @ b) sub"
  by (auto simp: Contains_iff)

subsection \<open>path and path/filepath\<close>

text \<open>
  \<^verbatim>\<open>path.Clean\<close>: empty and \<open>.\<close> elements are dropped, \<open>..\<close> removes the element before it,
  is dropped at the root and kept at the start of a relative path. The stack holds the
  elements already emitted, last first.
\<close>

fun clean_elems :: "bool \<Rightarrow> string list \<Rightarrow> string list \<Rightarrow> string list" where
  "clean_elems rooted out [] = rev out"
| "clean_elems rooted out (e # es) =
     (if e = [] \<or> e = ''.'' then clean_elems rooted out es
      else if e = ''..'' then
        (case out of
           [] \<Rightarrow> if rooted then clean_elems rooted [] es else clean_elems rooted [''..''] es
         | e' # rest \<Rightarrow>
             if e' = ''..'' then clean_elems rooted (''..'' # out) es
             else clean_elems rooted rest es)
      else clean_elems rooted (e # out) es)"

definition path_Clean :: "string \<Rightarrow> string" where
  "path_Clean p =
     (if p = [] then ''.''
      else (let rooted = (hd p = CHR ''/'');
                body = Join (clean_elems rooted [] (Split p (CHR ''/''))) ''/'';
                out = (if rooted then CHR ''/'' # body else body)
            in if out = [] then ''.'' else out))"

text \<open>\<^verbatim>\<open>path.Join\<close> and \<^verbatim>\<open>filepath.Join\<close> of two elements.\<close>

definition path_Join :: "string \<Rightarrow> string \<Rightarrow> string" where
  "path_Join a b =
     (let elems = filter (\<lambda>e. e \<noteq> []) [a, b]
      in if elems = [] then [] else path_Clean (Join elems ''/''))"

text \<open>\<^verbatim>\<open>filepath.Base\<close>: the last element, trailing slashes removed.\<close>

definition path_Base :: "string \<Rightarrow> string" where
  "path_Base p =
     (if p = [] then ''.''
      else (let q = rev (dropWhile (\<lambda>c. c = CHR ''/'') (rev p));
                b = rev (takeWhile (\<lambda>c. c \<noteq> CHR ''/'') (rev q))
            in if b = [] then ''/'' else b))"

definition plain_elem :: "string \<Rightarrow> bool" where
  "plain_elem e \<longleftrightarrow> e \<noteq> [] \<and> e \<noteq> ''.'' \<and> e \<noteq> ''..'' \<and> CHR ''/'' \<notin> set e"

lemma path_Join_plain:
  assumes "plain_elem a" "plain_elem b"
  shows "path_Join a b = a @ ''/'' @ b"
proof -
  have "hd (a @ CHR ''/'' # b) \<noteq> CHR ''/''"
    using assms(1) by (cases a) (auto simp: plain_elem_def)
  then show ?thesis
    using assms by (simp add: path_Join_def path_Clean_def plain_elem_def Split_append_sep Split_no_sep Let_def)
qed

lemma path_Base_no_slash: "CHR ''/'' \<notin> set (path_Base p) \<or> path_Base p = ''/''"
  by (auto simp: path_Base_def Let_def dest: set_takeWhileD)

lemma path_Base_ne: "path_Base p \<noteq> []"
  by (auto simp: path_Base_def Let_def)

lemma path_Base_last:
  assumes "b \<noteq> []" "CHR ''/'' \<notin> set b"
  shows "path_Base (a @ CHR ''/'' # b) = b"
proof -
  obtain c cs where c: "rev b = c # cs" "c \<noteq> CHR ''/''"
    using assms by (metis list.set_intros(1) neq_Nil_conv rev_is_Nil_conv set_rev)
  have "takeWhile (\<lambda>c. c \<noteq> CHR ''/'') (rev b @ CHR ''/'' # rev a) = rev b"
    using assms by (subst takeWhile_append2) auto
  with c assms(1) show ?thesis
    by (simp add: path_Base_def Let_def)
qed

subsection \<open>strconv\<close>

definition digit_val :: "char \<Rightarrow> int option" where
  "digit_val c = (let n = of_char c in if 48 \<le> n \<and> n \<le> 57 then Some (n - 48) else None)"

fun parse_digits :: "int \<Rightarrow> string \<Rightarrow> int option" where
  "parse_digits acc [] = Some acc"
| "parse_digits acc (c # cs) =
     (case digit_val c of None \<Rightarrow> None | Some d \<Rightarrow> parse_digits (10 * acc + d) cs)"

text \<open>
  \<^verbatim>\<open>strconv.ParseInt(s, 10, bits)\<close>: an optional sign and at least one digit; \<^const>\<open>None\<close> on a
  syntax error and on a value outside the range of the width.
\<close>

definition ParseInt :: "string \<Rightarrow> nat \<Rightarrow> int option" where
  "ParseInt s bits =
     (let (neg, ds) = (case s of
          [] \<Rightarrow> (False, [])
        | c # cs \<Rightarrow> if c = CHR ''-'' then (True, cs)
                   else if c = CHR ''+'' then (False, cs) else (False, s))
      in if ds = [] then None
         else (case parse_digits 0 ds of
             None \<Rightarrow> None
           | Some n \<Rightarrow> let i = (if neg then - n else n)
                      in if in_signed bits i then Some i else None))"

fun nat_digits :: "nat \<Rightarrow> string" where
  "nat_digits n = (if n < 10 then [char_of (48 + n)] else nat_digits (n div 10) @ [char_of (48 + n mod 10)])"

declare nat_digits.simps [simp del]

text \<open>\<^verbatim>\<open>strconv.FormatInt(i, 10)\<close>.\<close>

definition FormatInt :: "int \<Rightarrow> string" where
  "FormatInt i = (if i < 0 then CHR ''-'' # nat_digits (nat (- i)) else nat_digits (nat i))"

text \<open>\<^verbatim>\<open>strconv.ParseBool\<close> and \<^verbatim>\<open>strconv.FormatBool\<close>.\<close>

definition ParseBool :: "string \<Rightarrow> bool option" where
  "ParseBool s =
     (if s \<in> set [''1'', ''t'', ''T'', ''TRUE'', ''true'', ''True''] then Some True
      else if s \<in> set [''0'', ''f'', ''F'', ''FALSE'', ''false'', ''False''] then Some False
      else None)"

definition FormatBool :: "bool \<Rightarrow> string" where
  "FormatBool b = (if b then ''true'' else ''false'')"

lemma ParseBool_FormatBool: "ParseBool (FormatBool b) = Some b"
  by (simp add: ParseBool_def FormatBool_def)

lemma of_char_digit: "n < 10 \<Longrightarrow> of_char (char_of (48 + n :: nat)) = (48 + n :: nat)"
  by (simp only: of_char_of) simp

lemma digit_val_char_of:
  assumes "n < 10"
  shows "digit_val (char_of (48 + n :: nat)) = Some (int n)"
proof -
  have "of_char (char_of (48 + n :: nat)) = 48 + int n"
    using arg_cong [OF of_char_digit [OF assms], of int] by (simp only: of_nat_of_char of_nat_add of_nat_numeral)
  with assms show ?thesis by (simp only: digit_val_def Let_def) simp
qed

lemma char_of_digit:
  assumes "n < 10"
  shows "char_of (48 + n :: nat) \<noteq> CHR ''-''" "char_of (48 + n :: nat) \<noteq> CHR ''+''"
proof -
  have "of_char (CHR ''-'') = (45 :: nat)" "of_char (CHR ''+'') = (43 :: nat)" by simp_all
  moreover have "(48 + n :: nat) \<noteq> 45" "(48 + n :: nat) \<noteq> 43" by simp_all
  ultimately have "of_char (char_of (48 + n :: nat)) \<noteq> (of_char (CHR ''-'') :: nat)"
    "of_char (char_of (48 + n :: nat)) \<noteq> (of_char (CHR ''+'') :: nat)"
    using of_char_digit [OF assms] by (simp_all only:) simp_all
  then show "char_of (48 + n :: nat) \<noteq> CHR ''-''" "char_of (48 + n :: nat) \<noteq> CHR ''+''"
    by metis+
qed

lemma parse_digits_append:
  "parse_digits acc (a @ b) = (case parse_digits acc a of None \<Rightarrow> None | Some v \<Rightarrow> parse_digits v b)"
  by (induction a arbitrary: acc) (auto split: option.splits)

lemma parse_nat_digits: "parse_digits 0 (nat_digits n) = Some (int n)"
proof (induction n rule: nat_digits.induct)
  case (1 n)
  show ?case
  proof (cases "n < 10")
    case True
    then show ?thesis by (subst nat_digits.simps) (simp add: digit_val_char_of)
  next
    case False
    then show ?thesis
      using "1.IH" by (subst nat_digits.simps) (simp add: parse_digits_append digit_val_char_of zdiv_int zmod_int)
  qed
qed

lemma nat_digits_head: "\<exists>c cs. nat_digits n = c # cs \<and> c \<noteq> CHR ''-'' \<and> c \<noteq> CHR ''+''"
proof (induction n rule: nat_digits.induct)
  case (1 n)
  show ?case
  proof (cases "n < 10")
    case True
    then show ?thesis by (subst nat_digits.simps) (simp add: char_of_digit)
  next
    case False
    then show ?thesis using "1.IH" by (subst nat_digits.simps) auto
  qed
qed

text \<open>Reading back what \<^verbatim>\<open>FormatInt\<close> printed gives the value, when it fits the width.\<close>

lemma ParseInt_FormatInt: "in_signed bits i \<Longrightarrow> ParseInt (FormatInt i) bits = Some i"
proof -
  assume r: "in_signed bits i"
  show ?thesis
  proof (cases "i < 0")
    case True
    then show ?thesis
      using nat_digits_head [of "nat (- i)"] r
      by (auto simp: FormatInt_def ParseInt_def parse_nat_digits)
  next
    case False
    moreover obtain c cs where "nat_digits (nat i) = c # cs" "c \<noteq> CHR ''-''" "c \<noteq> CHR ''+''"
      using nat_digits_head by blast
    ultimately show ?thesis
      using parse_nat_digits [of "nat i"] r by (simp add: FormatInt_def ParseInt_def)
  qed
qed

lemma ParseInt_range: "ParseInt s bits = Some i \<Longrightarrow> in_signed bits i"
  by (auto simp: ParseInt_def Let_def split: prod.splits option.splits if_splits list.splits)

subsection \<open>sort and slices\<close>

text \<open>
  \<^verbatim>\<open>sort.SearchStrings(a, x)\<close>: the binary search of \<^verbatim>\<open>sort.Search\<close> for the first index whose
  element is at least \<open>x\<close>, which is only that when \<open>a\<close> is sorted.
\<close>

function search_loop :: "string list \<Rightarrow> string \<Rightarrow> nat \<Rightarrow> nat \<Rightarrow> nat" where
  "search_loop a x i j =
     (if i < j
      then (let h = (i + j) div 2 in if \<not> x \<le> a ! h then search_loop a x (h + 1) j else search_loop a x i h)
      else i)"
  by pat_completeness auto
termination
  by (relation "measure (\<lambda>(a, x, i, j). j - i)") (auto simp: Let_def)

declare search_loop.simps [simp del]

definition SearchStrings :: "string list \<Rightarrow> string \<Rightarrow> nat" where
  "SearchStrings a x = search_loop a x 0 (length a)"

lemma search_loop_bounds: "i \<le> j \<Longrightarrow> i \<le> search_loop a x i j \<and> search_loop a x i j \<le> j"
proof (induction a x i j rule: search_loop.induct)
  case (1 a x i j)
  show ?case
  proof (cases "i < j")
    case True
    define h where "h = (i + j) div 2"
    have "i \<le> h" "h < j" using True by (auto simp: h_def)
    then show ?thesis
      using "1.IH"(1) [OF True h_def] "1.IH"(2) [OF True h_def] True
      by (subst (1 2) search_loop.simps) (auto simp: Let_def h_def [symmetric])
  next
    case False
    with "1.prems" show ?thesis by (subst (1 2) search_loop.simps) auto
  qed
qed

lemma search_loop_correct:
  assumes "sorted a" "j \<le> length a" "i \<le> j"
    and lo: "\<And>k. k < i \<Longrightarrow> a ! k < x" and hi: "\<And>k. j \<le> k \<Longrightarrow> k < length a \<Longrightarrow> x \<le> a ! k"
  shows "(k < search_loop a x i j \<longrightarrow> a ! k < x) \<and>
         (search_loop a x i j \<le> k \<and> k < length a \<longrightarrow> x \<le> a ! k)"
  using assms
proof (induction a x i j rule: search_loop.induct)
  case (1 a x i j)
  show ?case
  proof (cases "i < j")
    case True
    define h where "h = (i + j) div 2"
    have h: "i \<le> h" "h < j" "h < length a" using True "1.prems"(2) by (auto simp: h_def)
    note unf = search_loop.simps [of a x i j]
    show ?thesis
    proof (cases "x \<le> a ! h")
      case False
      have "a ! m < x" if "m < h + 1" for m
        using sorted_nth_mono [OF "1.prems"(1), of m h] that h(3) False by simp
      then have "(k < search_loop a x (h + 1) j \<longrightarrow> a ! k < x) \<and>
         (search_loop a x (h + 1) j \<le> k \<and> k < length a \<longrightarrow> x \<le> a ! k)"
        using "1.IH"(1) [OF True h_def] "1.prems"(1,2,5) h False by simp
      with True False show ?thesis by (simp add: unf Let_def h_def [symmetric])
    next
      case ge: True
      have "x \<le> a ! m" if "h \<le> m" "m < length a" for m
        using sorted_nth_mono [OF "1.prems"(1), of h m] that ge by simp
      then have "(k < search_loop a x i h \<longrightarrow> a ! k < x) \<and>
         (search_loop a x i h \<le> k \<and> k < length a \<longrightarrow> x \<le> a ! k)"
        using "1.IH"(2) [OF True h_def] "1.prems"(1,4) h ge by simp
      with True ge show ?thesis by (simp add: unf Let_def h_def [symmetric])
    qed
  next
    case False
    with "1.prems"(3-5) show ?thesis by (simp add: search_loop.simps [of a x j j])
  qed
qed

text \<open>On a sorted slice the search finds an element exactly when it is there.\<close>

lemma SearchStrings_le: "SearchStrings a x \<le> length a"
  using search_loop_bounds [of 0 "length a" a x] by (simp add: SearchStrings_def)

lemma SearchStrings_found:
  assumes "sorted a"
  shows "SearchStrings a x < length a \<and> a ! SearchStrings a x = x \<longleftrightarrow> x \<in> set a"
proof
  assume "x \<in> set a"
  then obtain k where k: "k < length a" "a ! k = x" by (auto simp: in_set_conv_nth)
  let ?i = "SearchStrings a x"
  have lt: "\<forall>m < ?i. a ! m < x" and ge: "\<forall>m. ?i \<le> m \<and> m < length a \<longrightarrow> x \<le> a ! m"
    using search_loop_correct [of a "length a" 0 x] assms unfolding SearchStrings_def by simp_all
  have "?i \<le> k" using lt k by (metis less_irrefl not_le)
  with k(1) have i: "?i < length a" by simp
  moreover have "a ! ?i \<le> x" using assms \<open>?i \<le> k\<close> k by (metis sorted_nth_mono)
  ultimately show "?i < length a \<and> a ! ?i = x" using ge by (meson antisym order_refl)
qed (auto simp: in_set_conv_nth)

subsection \<open>Durations as text\<close>

text \<open>The fraction of \<^verbatim>\<open>Duration.String\<close>: \<open>v / 10^prec\<close> without trailing zeros.\<close>

fun frac_digits :: "nat \<Rightarrow> nat \<Rightarrow> string" where
  "frac_digits 0 v = []"
| "frac_digits (Suc p) v = frac_digits p (v div 10) @ [char_of (48 + v mod 10)]"

definition fmtFrac :: "nat \<Rightarrow> nat \<Rightarrow> string" where
  "fmtFrac v prec =
     (let ds = rev (dropWhile (\<lambda>c. c = CHR ''0'') (rev (frac_digits prec v)))
      in if ds = [] then [] else CHR ''.'' # ds)"

text \<open>\<^verbatim>\<open>Duration.String\<close>; the unit of microseconds is the two bytes of U+00B5 followed by \<open>s\<close>.\<close>

definition Duration_String :: "duration \<Rightarrow> string" where
  "Duration_String d =
     (let u = nat \<bar>d\<bar>;
          sign = (if d < 0 then ''-'' else []);
          body =
            (if u < 1000000000 then
               (if u = 0 then ''0s''
                else if u < 1000 then nat_digits u @ ''ns''
                else if u < 1000000 then nat_digits (u div 1000) @ fmtFrac u 3 @ [char_of (194::nat), char_of (181::nat), CHR ''s'']
                else nat_digits (u div 1000000) @ fmtFrac u 6 @ ''ms'')
             else
               (let s = u div 1000000000; m = s div 60; h = m div 60;
                    secs = nat_digits (s mod 60) @ fmtFrac u 9 @ ''s''
                in if m = 0 then secs
                   else if h = 0 then nat_digits (m mod 60) @ ''m'' @ secs
                   else nat_digits h @ ''h'' @ nat_digits (m mod 60) @ ''m'' @ secs))
      in sign @ body)"

end
