(* ===== verification/GoFloat.thy ===== *)
theory GoFloat
  imports Complex_Main Prelude "HOL-Library.Log_Nat"
begin

text \<open>
  The \<open>float64\<close> arithmetic behind \<^verbatim>\<open>Duration.Seconds\<close>: a float64 is the rational it
  denotes, and each operation is the exact one followed by rounding to 53 significant bits,
  ties to even. The values met here lie between \<open>10^-9\<close> and \<open>10^10\<close>, so there is no
  overflow and no subnormal number.
\<close>

definition round_half_even :: "rat \<Rightarrow> int" where
  "round_half_even q =
     (let f = \<lfloor>q\<rfloor>; d = q - of_int f
      in if d < 1 / 2 then f else if 1 / 2 < d then f + 1 else if even f then f else f + 1)"

text \<open>The exponent of the leading bit of a positive rational.\<close>

definition float64_exp :: "rat \<Rightarrow> int" where
  "float64_exp x =
     (let (p, q) = quotient_of x; e = bitlen p - bitlen q
      in if 2 powi e \<le> x then e else e - 1)"

definition float64_round :: "rat \<Rightarrow> rat" where
  "float64_round x =
     (if x = 0 then 0
      else let u = 2 powi (float64_exp \<bar>x\<bar> - 52) in of_int (round_half_even (x / u)) * u)"

text \<open>
  \<^verbatim>\<open>func (d Duration) Seconds() float64\<close>:
  \<^verbatim>\<open>float64(d / Second) + float64(d % Second)/1e9\<close>.
\<close>

definition Duration_Seconds :: "duration \<Rightarrow> rat" where
  "Duration_Seconds d =
     float64_round (float64_round (of_int (go_div d Second))
       + float64_round (float64_round (of_int (go_mod d Second)) / 1000000000))"

text \<open>
  The conversion \<^verbatim>\<open>int32(f)\<close> truncates; a value outside the range of \<open>int32\<close> gives an
  implementation-dependent result, which is the parameter \<open>oor\<close>.
\<close>

definition trunc_rat :: "rat \<Rightarrow> int" where
  "trunc_rat f = (if 0 \<le> f then \<lfloor>f\<rfloor> else \<lceil>f\<rceil>)"

definition float64_to_int32 :: "(rat \<Rightarrow> int) \<Rightarrow> rat \<Rightarrow> int" where
  "float64_to_int32 oor f = (if int32 (trunc_rat f) then trunc_rat f else oor f)"

lemma round_half_even_ge: "of_int m \<le> q \<Longrightarrow> m \<le> round_half_even q"
proof -
  assume "of_int m \<le> q"
  then have "m \<le> \<lfloor>q\<rfloor>" by (simp add: le_floor_iff)
  then show ?thesis by (simp add: round_half_even_def Let_def)
qed

lemma round_half_even_le:
  assumes "q \<le> of_int m"
  shows "round_half_even q \<le> m"
proof (cases "q = of_int m")
  case True
  then show ?thesis by (simp add: round_half_even_def)
next
  case False
  with assms have "q < of_int m" by simp
  then have "\<lfloor>q\<rfloor> < m" by (simp only: floor_less_iff)
  then show ?thesis by (auto simp: round_half_even_def Let_def)
qed

lemma quotient_of_bounds:
  assumes "0 < x" "quotient_of x = (p, q)"
  shows "0 < p" "0 < q" "x = of_int p / of_int q"
proof -
  show q: "0 < q" using assms(2) by (rule quotient_of_denom_pos)
  show x: "x = of_int p / of_int q" using assms(2) by (rule quotient_of_div)
  show "0 < p" using assms(1) q unfolding x by (simp add: zero_less_divide_iff)
qed

lemma bitlen_lower_rat: "0 < p \<Longrightarrow> (2::rat) powi (bitlen p - 1) \<le> of_int p"
proof -
  assume "0 < p"
  then have "2 ^ nat (bitlen p - 1) \<le> p" "0 \<le> bitlen p - 1"
    using bitlen_bounds [of p] bitlen_eq_zero_iff [of p] bitlen_nonneg [of p] by auto
  then show ?thesis
    by (metis int_nat_eq of_int_le_iff of_int_numeral of_int_power power_int_def power_int_of_nat)
qed

text \<open>A positive rational below \<open>2^53\<close> has an exponent of at most 52.\<close>

lemma float64_exp_le:
  assumes "0 < x" "x < 2 ^ 53"
  shows "float64_exp x \<le> 52"
proof -
  obtain p q where pq: "quotient_of x = (p, q)" by (cases "quotient_of x")
  let ?e = "bitlen p - bitlen q"
  have lim: "k \<le> 52" if "(2::rat) powi k \<le> x" for k
  proof (rule ccontr)
    assume "\<not> k \<le> 52"
    then have "(2::rat) powi 53 \<le> 2 powi k" by (intro power_int_increasing) auto
    with that assms(2) show False by simp
  qed
  show ?thesis
  proof (cases "2 powi ?e \<le> x")
    case True
    with lim [OF True] show ?thesis by (simp add: float64_exp_def pq Let_def)
  next
    case False
    have "(2::rat) powi (bitlen p - 1) / 2 powi bitlen q \<le> of_int p / of_int q"
    proof (intro frac_le)
      show "(2::rat) powi (bitlen p - 1) \<le> of_int p"
        using quotient_of_bounds(1) [OF assms(1) pq] by (rule bitlen_lower_rat)
      show "(0::rat) < of_int q" using quotient_of_bounds(2) [OF assms(1) pq] by simp
      have "q < 2 ^ nat (bitlen q)" using bitlen_bounds quotient_of_bounds(2) [OF assms(1) pq] by blast
      then have "(of_int q :: rat) < of_int (2 ^ nat (bitlen q))" by (rule of_int_less_iff [THEN iffD2])
      also have "\<dots> = 2 powi bitlen q" by (simp add: power_int_def bitlen_nonneg)
      finally show "(of_int q :: rat) \<le> 2 powi bitlen q" by simp
    qed (use quotient_of_bounds(1) [OF assms(1) pq] in simp)
    also have "\<dots> = x" using quotient_of_bounds(3) [OF assms(1) pq] by simp
    finally have "2 powi (bitlen p - 1 - bitlen q) \<le> x" by (simp add: power_int_diff)
    then have "2 powi (?e - 1) \<le> x" by (simp add: algebra_simps)
    with lim [OF this] False show ?thesis by (simp add: float64_exp_def pq Let_def)
  qed
qed

text \<open>Rounding never crosses an integer: integers below \<open>2^53\<close> are float64 values.\<close>

lemma scaled_int:
  assumes "k \<le> 0"
  shows "(of_int m :: rat) / 2 powi k = of_int (m * 2 ^ nat (- k))"
proof -
  have "(2::rat) powi k = inverse (2 ^ nat (- k))"
    using assms by (auto simp: power_int_def power_one_over inverse_eq_divide)
  then show ?thesis by (simp only: divide_inverse inverse_inverse_eq) simp
qed

lemma float64_round_int_bounds:
  assumes "0 < x" "x < 2 ^ 53"
  shows "of_int m \<le> x \<Longrightarrow> of_int m \<le> float64_round x"
    and "x \<le> of_int m \<Longrightarrow> float64_round x \<le> of_int m"
proof -
  define k where "k = float64_exp x - 52"
  define u :: rat where "u = 2 powi k"
  have u: "0 < u" by (simp add: u_def)
  have k: "k \<le> 0" using float64_exp_le [OF assms] by (simp add: k_def)
  have r: "float64_round x = of_int (round_half_even (x / u)) * u"
    using assms(1) by (simp add: float64_round_def u_def k_def Let_def)
  have m: "of_int m / u = of_int (m * 2 ^ nat (- k))"
    unfolding u_def by (rule scaled_int [OF k])
  { assume "of_int m \<le> x"
    then have "of_int m / u \<le> x / u" using u by (simp add: divide_right_mono)
    then have "m * 2 ^ nat (- k) \<le> round_half_even (x / u)" unfolding m by (rule round_half_even_ge)
    then have "of_int m / u \<le> of_int (round_half_even (x / u))" unfolding m by (rule of_int_le_iff [THEN iffD2])
    then show "of_int m \<le> float64_round x" using u r by (simp add: field_simps) }
  { assume "x \<le> of_int m"
    then have "x / u \<le> of_int m / u" using u by (simp add: divide_right_mono)
    then have "round_half_even (x / u) \<le> m * 2 ^ nat (- k)" unfolding m by (rule round_half_even_le)
    then have "of_int (round_half_even (x / u)) \<le> of_int m / u" unfolding m by (rule of_int_le_iff [THEN iffD2])
    then show "float64_round x \<le> of_int m" using u r by (simp add: field_simps) }
qed

lemma float64_round_of_int:
  assumes "0 \<le> i" "i < 2 ^ 53"
  shows "float64_round (of_int i) = of_int i"
proof (cases "i = 0")
  case False
  with assms have "(0::rat) < of_int i" "(of_int i :: rat) < 2 ^ 53"
    using of_int_less_iff [of i "2 ^ 53", where 'a = rat] by auto
  then show ?thesis
    using float64_round_int_bounds [of "of_int i" i] by simp
qed (simp add: float64_round_def)

text \<open>
  For a non-negative duration the truncated number of seconds is the whole number of seconds,
  or one more when the rounding of the fraction reaches the next second.
\<close>

lemma Duration_Seconds_bounds:
  assumes "0 \<le> d" "int64 d"
  shows "of_int (d div Second) \<le> Duration_Seconds d \<and> Duration_Seconds d \<le> of_int (d div Second) + 1"
proof -
  define s where "s = d div Second"
  define n where "n = d mod Second"
  define f :: rat where "f = float64_round (of_int n / 1000000000)"
  have n: "0 \<le> n" "n < 1000000000" by (simp_all add: n_def)
  have s: "0 \<le> s" "s < 2 ^ 34" using assms by (auto simp: s_def int64_iff)
  have eq: "Duration_Seconds d = float64_round (of_int s + f)"
    using assms n s by (simp add: Duration_Seconds_def go_div_nonneg go_mod_nonneg s_def [symmetric]
        n_def [symmetric] f_def float64_round_of_int)
  have f: "0 \<le> f \<and> f \<le> 1"
  proof (cases "n = 0")
    case True
    then show ?thesis by (simp add: f_def float64_round_def)
  next
    case False
    let ?x = "(of_int n :: rat) / 1000000000"
    have "0 < ?x" "?x < 2 ^ 53" "of_int 0 \<le> ?x" "?x \<le> of_int 1" using False n by auto
    then show ?thesis unfolding f_def using float64_round_int_bounds [of ?x] by (metis of_int_0 of_int_1)
  qed
  have "(of_int s :: rat) < of_int (2 ^ 34)" using s(2) by (rule of_int_less_iff [THEN iffD2])
  then have lt: "of_int s + f < 2 ^ 53" using f by simp
  show ?thesis
  proof (cases "of_int s + f = 0")
    case True
    then have "s = 0" using f s(1) by (simp add: add_nonneg_eq_0_iff)
    with True eq show ?thesis by (simp add: s_def float64_round_def)
  next
    case False
    then have pos: "0 < of_int s + f" using f s(1) by (simp add: order_less_le add_nonneg_nonneg)
    then show ?thesis
      using float64_round_int_bounds [OF pos lt, of s] float64_round_int_bounds [OF pos lt, of "s + 1"] f eq
      by (simp add: s_def [symmetric])
  qed
qed

lemma trunc_Duration_Seconds:
  assumes "0 \<le> d" "int64 d"
  shows "d div Second \<le> trunc_rat (Duration_Seconds d)" "trunc_rat (Duration_Seconds d) \<le> d div Second + 1"
proof -
  have "0 \<le> Duration_Seconds d"
    using Duration_Seconds_bounds [OF assms] assms(1)
    by (meson of_int_0_le_iff order_trans pos_imp_zdiv_nonneg_iff zero_less_numeral)
  then show "d div Second \<le> trunc_rat (Duration_Seconds d)"
    "trunc_rat (Duration_Seconds d) \<le> d div Second + 1"
    using Duration_Seconds_bounds [OF assms]
    by (auto simp: trunc_rat_def le_floor_iff floor_le_iff)
qed

end
