(* ===== verification/PlanTypes.thy ===== *)
theory PlanTypes
  imports Conditions GoStd GoFloat
begin

text \<open>
  \<^verbatim>\<open>pkg/apis/upgrade.cattle.io\<close>: the Plan resource (\<^verbatim>\<open>v1/types.go\<close>, \<^verbatim>\<open>v1/errors.go\<close>), the label
  and annotation names (\<^verbatim>\<open>constants.go\<close>), and the record \<open>extern\<close> of the third-party functions
  that the program calls. Every definition that uses such a function takes the record as its
  argument \<open>X\<close>; what a theorem relies on is a named hypothesis about \<open>X\<close>.
\<close>

subsection \<open>v1/types.go\<close>

record VolumeSpec =
  vs_Name :: string
  vs_Source :: string
  vs_Destination :: string

record ContainerSpec =
  cs_Image :: string
  cs_Command :: "string list"
  cs_Args :: "string list"
  cs_Env :: "EnvVar list"
  cs_EnvFrom :: "EnvFromSource list"
  cs_Volumes :: "VolumeSpec list"
  cs_SecurityContext :: "SecurityContext option"

datatype IntOrString = IntVal int | StrVal string

record DrainSpec =
  dr_Timeout :: "IntOrString option"
  dr_GracePeriod :: "int option"
  dr_DeleteLocalData :: "bool option"
  dr_DeleteEmptydirData :: "bool option"
  dr_IgnoreDaemonSets :: "bool option"
  dr_Force :: bool
  dr_DisableEviction :: bool
  dr_SkipWaitForDeleteTimeout :: int
  dr_PodSelector :: "LabelSelector option"

record SecretSpec =
  ss_Name :: string
  ss_Path :: string
  ss_IgnoreUpdates :: bool
  ss_DefaultMode :: "int option"

record TimeWindowSpec =
  tw_Days :: "string list"
  tw_StartTime :: string
  tw_EndTime :: string
  tw_TimeZone :: string

record PlanSpec =
  sp_Concurrency :: int
  sp_JobActiveDeadlineSecs :: "int option"
  sp_NodeSelector :: "LabelSelector option"
  sp_ServiceAccountName :: string
  sp_Channel :: string
  sp_Version :: string
  sp_Secrets :: "SecretSpec list"
  sp_Tolerations :: "Toleration list"
  sp_Exclusive :: bool
  sp_Window :: "TimeWindowSpec option"
  sp_Prepare :: "ContainerSpec option"
  sp_Upgrade :: "ContainerSpec option"
  sp_Cordon :: bool
  sp_Drain :: "DrainSpec option"
  sp_ImagePullSecrets :: "string list"
  sp_PostCompleteDelay :: "duration option"
  sp_PriorityClassName :: string
  sp_PostCompleteLabels :: gomap

record PlanStatus =
  st_Conditions :: "GenericCondition list"
  st_LatestVersion :: string
  st_LatestHash :: string
  st_Applying :: "string list"

record Plan =
  p_meta :: ObjectMeta
  p_Spec :: PlanSpec
  p_Status :: PlanStatus

abbreviation p_Name :: "Plan \<Rightarrow> string" where "p_Name p \<equiv> om_Name (p_meta p)"
abbreviation p_Namespace :: "Plan \<Rightarrow> string" where "p_Namespace p \<equiv> om_Namespace (p_meta p)"
abbreviation p_UID :: "Plan \<Rightarrow> string" where "p_UID p \<equiv> om_UID (p_meta p)"
abbreviation p_Labels :: "Plan \<Rightarrow> gomap" where "p_Labels p \<equiv> om_Labels (p_meta p)"
abbreviation p_Annotations :: "Plan \<Rightarrow> gomap" where "p_Annotations p \<equiv> om_Annotations (p_meta p)"
abbreviation p_Conditions :: "Plan \<Rightarrow> conds" where "p_Conditions p \<equiv> st_Conditions (p_Status p)"

definition PlanLatestResolved :: Cond where "PlanLatestResolved = ''LatestResolved''"
definition PlanSpecValidated :: Cond where "PlanSpecValidated = ''Validated''"
definition PlanComplete :: Cond where "PlanComplete = ''Complete''"

lemma plan_conditions_distinct [simp]:
  "PlanLatestResolved \<noteq> PlanSpecValidated" "PlanSpecValidated \<noteq> PlanLatestResolved"
  "PlanLatestResolved \<noteq> PlanComplete" "PlanComplete \<noteq> PlanLatestResolved"
  "PlanSpecValidated \<noteq> PlanComplete" "PlanComplete \<noteq> PlanSpecValidated"
  by (simp_all add: PlanLatestResolved_def PlanSpecValidated_def PlanComplete_def)

subsection \<open>v1/errors.go\<close>

definition ErrPlanUnresolvable :: go_error where
  "ErrPlanUnresolvable = NewError ''cannot resolve plan: missing channel and version''"

subsection \<open>constants.go\<close>

definition GroupName :: string where "GroupName = ''upgrade.cattle.io''"

definition AnnotationTTLSecondsAfterFinished :: string where
  "AnnotationTTLSecondsAfterFinished = GroupName @ ''/ttl-seconds-after-finished''"
definition AnnotationIncludeInDigest :: string where "AnnotationIncludeInDigest = GroupName @ ''/digest''"
definition LabelController :: string where "LabelController = GroupName @ ''/controller''"
definition LabelExclusive :: string where "LabelExclusive = GroupName @ ''/exclusive''"
definition LabelNode :: string where "LabelNode = GroupName @ ''/node''"
definition LabelPlan :: string where "LabelPlan = GroupName @ ''/plan''"
definition LabelVersion :: string where "LabelVersion = GroupName @ ''/version''"
definition LabelPlanSuffix :: string where "LabelPlanSuffix = ''plan.'' @ GroupName"

definition LabelPlanName :: "string \<Rightarrow> string" where
  "LabelPlanName name = path_Join LabelPlanSuffix name"

lemmas label_defs = GroupName_def AnnotationTTLSecondsAfterFinished_def AnnotationIncludeInDigest_def
  LabelController_def LabelExclusive_def LabelNode_def LabelPlan_def LabelVersion_def LabelPlanSuffix_def

lemma plain_LabelPlanSuffix: "plain_elem LabelPlanSuffix"
  by (simp add: plain_elem_def label_defs)

lemma LabelPlanName_plain: "plain_elem name \<Longrightarrow> LabelPlanName name = ''plan.upgrade.cattle.io/'' @ name"
  using path_Join_plain [OF plain_LabelPlanSuffix, of name] by (simp add: LabelPlanName_def label_defs)

lemma LabelPlanName_distinct:
  assumes "plain_elem name"
  shows "LabelPlanName name \<noteq> LabelController" "LabelPlanName name \<noteq> LabelExclusive"
    "LabelPlanName name \<noteq> LabelNode" "LabelPlanName name \<noteq> LabelPlan" "LabelPlanName name \<noteq> LabelVersion"
    "LabelPlanName name \<noteq> LabelHostname"
  using assms by (simp_all add: LabelPlanName_plain label_defs LabelHostname_def)

lemma labels_contain_cattle:
  "Contains LabelController ''cattle.io/''" "Contains LabelExclusive ''cattle.io/''"
  "Contains LabelNode ''cattle.io/''" "Contains LabelPlan ''cattle.io/''"
  "Contains LabelVersion ''cattle.io/''" "Contains AnnotationTTLSecondsAfterFinished ''cattle.io/''"
  by (simp_all add: label_defs)

lemma LabelPlanName_contains_cattle: "plain_elem name \<Longrightarrow> Contains (LabelPlanName name) ''cattle.io/''"
  by (simp add: LabelPlanName_plain)

subsection \<open>Third-party code\<close>

text \<open>
  The functions of other modules the program calls. Selectors and requirements of
  \<^verbatim>\<open>k8s.io/apimachinery/pkg/labels\<close> are the types \<open>'sel\<close> and \<open>'req\<close>; a parsed image reference is its
  normalised text; a time window is its \<^verbatim>\<open>Contains\<close> method; a converted object is its \<^verbatim>\<open>String\<close>
  method. \<open>req_Matches\<close> is \<^verbatim>\<open>Requirement.Matches\<close>, in whose terms the hypotheses are stated.
  The two RFC 3339 functions belong to the record because the local time zone is part of them,
  \<open>float_oor\<close> because Go leaves that conversion to the implementation, and \<open>ParseDuration\<close> because
  the program only compares its result.
\<close>

record ('sel, 'req) extern =
  LabelSelectorAsSelector :: "LabelSelector option \<Rightarrow> 'sel result"
  NewRequirement :: "string \<Rightarrow> string \<Rightarrow> string list \<Rightarrow> 'req result"
  NewSelector :: "'sel"
  SelectorFromSet :: "(string \<rightharpoonup> string) \<Rightarrow> 'sel"
  sel_Add :: "'sel \<Rightarrow> 'req list \<Rightarrow> 'sel"
  sel_Matches :: "'sel \<Rightarrow> gomap \<Rightarrow> bool"
  sel_Requirements :: "'sel \<Rightarrow> 'req list \<times> bool"
  sel_String :: "'sel \<Rightarrow> string"
  req_Matches :: "'req \<Rightarrow> gomap \<Rightarrow> bool"
  IsNotFound :: "go_error \<Rightarrow> bool"
  IsConflict :: "go_error \<Rightarrow> bool"
  SafeConcatName :: "string list \<Rightarrow> string"
  ParseNormalizedNamed :: "string \<Rightarrow> string result"
  IsNameOnly :: "string \<Rightarrow> bool"
  WithTag :: "string \<Rightarrow> string \<Rightarrow> string result"
  FamiliarString :: "string \<Rightarrow> string"
  timewindow_New :: "string list \<Rightarrow> string \<Rightarrow> string \<Rightarrow> string \<Rightarrow> (instant \<Rightarrow> bool) result"
  merr_NewErrors :: "go_error list \<Rightarrow> go_error option"
  SecretHash :: "Secret \<Rightarrow> string result"
  data_Convert :: "Plan \<Rightarrow> (string list \<Rightarrow> string) result"
  expansion_Expand :: "string \<Rightarrow> (string \<Rightarrow> string) \<Rightarrow> string"
  MappingFuncFor :: "(string \<rightharpoonup> string) \<Rightarrow> string \<Rightarrow> string"
  status_DeepEqual :: "PlanStatus \<Rightarrow> PlanStatus \<Rightarrow> bool"
  FormatRFC3339 :: "instant \<Rightarrow> string"
  ParseRFC3339 :: "string \<Rightarrow> instant option"
  ParseDuration :: "string \<Rightarrow> duration option"
  float_oor :: "rat \<Rightarrow> int"

text \<open>
  The documented meaning of the label selector operators, for the operators the program
  creates requirements with; an added requirement narrows a selector.
\<close>

definition requirement_matches :: "string \<Rightarrow> string \<Rightarrow> string list \<Rightarrow> gomap \<Rightarrow> bool" where
  "requirement_matches key op vals labels =
     (case mget labels key of
        None \<Rightarrow> op \<in> {''notin'', ''!''}
      | Some v \<Rightarrow> (op = ''in'' \<and> v \<in> set vals) \<or> (op = ''notin'' \<and> v \<notin> set vals) \<or> op = ''exists'')"

definition labels_ok :: "('sel, 'req) extern \<Rightarrow> bool" where
  "labels_ok X \<longleftrightarrow>
     (\<forall>s rs L. sel_Matches X (sel_Add X s rs) L \<longleftrightarrow> sel_Matches X s L \<and> (\<forall>r\<in>set rs. req_Matches X r L)) \<and>
     (\<forall>key op vals r L. op \<in> {''in'', ''notin'', ''exists'', ''!''} \<longrightarrow> NewRequirement X key op vals = Inr r \<longrightarrow>
        req_Matches X r L = requirement_matches key op vals L)"

lemma labels_ok_Add:
  "labels_ok X \<Longrightarrow> sel_Matches X (sel_Add X s rs) L \<longleftrightarrow> sel_Matches X s L \<and> (\<forall>r\<in>set rs. req_Matches X r L)"
  by (simp add: labels_ok_def)

lemma labels_ok_req:
  "labels_ok X \<Longrightarrow> op \<in> {''in'', ''notin'', ''exists'', ''!''} \<Longrightarrow> NewRequirement X key op vals = Inr r \<Longrightarrow>
    req_Matches X r L = requirement_matches key op vals L"
  unfolding labels_ok_def by blast

definition selection_In :: string where "selection_In = ''in''"
definition selection_NotIn :: string where "selection_NotIn = ''notin''"
definition selection_Exists :: string where "selection_Exists = ''exists''"
definition selection_DoesNotExist :: string where "selection_DoesNotExist = ''!''"

lemmas selection_defs = selection_In_def selection_NotIn_def selection_Exists_def selection_DoesNotExist_def

lemma labels_ok_reqs:
  assumes "labels_ok X"
  shows "NewRequirement X key selection_In vals = Inr r \<Longrightarrow>
      req_Matches X r L \<longleftrightarrow> (\<exists>v\<in>set vals. mget L key = Some v)"
    and "NewRequirement X key selection_NotIn vals = Inr r \<Longrightarrow>
      req_Matches X r L \<longleftrightarrow> (\<forall>v\<in>set vals. mget L key \<noteq> Some v)"
    and "NewRequirement X key selection_Exists vals = Inr r \<Longrightarrow> req_Matches X r L \<longleftrightarrow> mget L key \<noteq> None"
    and "NewRequirement X key selection_DoesNotExist vals = Inr r \<Longrightarrow> req_Matches X r L \<longleftrightarrow> mget L key = None"
  using labels_ok_req [OF assms, of selection_In key vals r L] labels_ok_req [OF assms, of selection_NotIn key vals r L]
    labels_ok_req [OF assms, of selection_Exists key vals r L]
    labels_ok_req [OF assms, of selection_DoesNotExist key vals r L]
  by (auto simp: selection_defs requirement_matches_def split: option.splits)

subsection \<open>TimeWindowSpec.Contains\<close>

text \<open>A window that cannot be built contains no time.\<close>

definition TimeWindowSpec_Contains :: "('sel, 'req) extern \<Rightarrow> TimeWindowSpec \<Rightarrow> instant \<Rightarrow> bool" where
  "TimeWindowSpec_Contains X tws t =
     (case timewindow_New X (tw_Days tws) (tw_StartTime tws) (tw_EndTime tws) (tw_TimeZone tws) of
        Inl _ \<Rightarrow> False
      | Inr contains \<Rightarrow> contains t)"

end
