(* ===== verification/SampleCluster.thy ===== *)
theory SampleCluster
  imports PlanTypes
begin

text \<open>
  A concrete instance of the third-party parameters and a few concrete objects, for the witnesses:
  label selectors are lists of requirements, names are joined with dashes, hashing and merging of
  errors are simple functions. It shows that the hypotheses the theorems make about the parameters
  can hold together.
\<close>

type_synonym sreq = "string \<times> string \<times> string list"

definition s_matches :: "sreq \<Rightarrow> gomap \<Rightarrow> bool" where
  "s_matches r L = (case r of (key, op, vals) \<Rightarrow> requirement_matches key op vals L)"

definition s_op :: "string \<Rightarrow> string" where
  "s_op o' = (if o' = ''In'' then ''in'' else if o' = ''NotIn'' then ''notin''
     else if o' = ''Exists'' then ''exists'' else ''!'')"

definition sample :: "(sreq list, sreq) extern" where
  "sample = \<lparr>
     LabelSelectorAsSelector = (\<lambda>ls. case ls of None \<Rightarrow> Inr [([], ''never'', [])]
        | Some s \<Rightarrow> Inr (map (\<lambda>e. (lsr_Key e, s_op (lsr_Operator e), lsr_Values e)) (ls_MatchExpressions s))),
     NewRequirement = (\<lambda>key op vals. Inr (key, op, vals)),
     NewSelector = [],
     SelectorFromSet = (\<lambda>m. case m LabelController of None \<Rightarrow> [] | Some v \<Rightarrow> [(LabelController, ''in'', [v])]),
     sel_Add = (\<lambda>s rs. s @ rs),
     sel_Matches = (\<lambda>s L. \<forall>r\<in>set s. s_matches r L),
     sel_Requirements = (\<lambda>s. (s, True)),
     sel_String = (\<lambda>s. Join (map (\<lambda>(key, op, vals). key @ op) s) '',''),
     req_Matches = s_matches,
     IsNotFound = (\<lambda>e. e = ExtError 404 (error_msg e)),
     IsConflict = (\<lambda>e. e = ExtError 409 (error_msg e)),
     SafeConcatName = (\<lambda>xs. Join xs ''-''),
     ParseNormalizedNamed = Inr,
     IsNameOnly = (\<lambda>r. CHR '':'' \<notin> set r),
     WithTag = (\<lambda>r t. Inr (r @ '':'' @ t)),
     FamiliarString = (\<lambda>r. r),
     timewindow_New = (\<lambda>days st en tz. if days = [] then Inl (ExtError 1 ''no days'') else Inr (\<lambda>t. 1000 \<le> t)),
     merr_NewErrors = (\<lambda>es. case es of [] \<Rightarrow> None | e # _ \<Rightarrow> Some e),
     SecretHash = (\<lambda>s. Inr (om_Name (sec_meta s))),
     data_Convert = (\<lambda>p. Inr (\<lambda>path. [])),
     expansion_Expand = (\<lambda>v f. v),
     MappingFuncFor = (\<lambda>m k. case m k of None \<Rightarrow> [] | Some v \<Rightarrow> v),
     status_DeepEqual = (\<lambda>a b. a = b),
     FormatRFC3339 = (\<lambda>t. FormatInt (t div Second)),
     ParseRFC3339 = (\<lambda>s. map_option (\<lambda>i. i * Second) (ParseInt s 64)),
     ParseDuration = (\<lambda>s. map_option (\<lambda>i. i * Second) (ParseInt s 32)),
     float_oor = (\<lambda>_. 0)\<rparr>"

lemma sample_labels_ok: "labels_ok sample"
  by (simp add: labels_ok_def sample_def s_matches_def ball_Un)

lemma sample_simps [simp]:
  "NewRequirement sample key op vals = Inr (key, op, vals)"
  "sel_Add sample s rs = s @ rs"
  "sel_Matches sample s L = (\<forall>r\<in>set s. s_matches r L)"
  "NewSelector sample = []" "merr_NewErrors sample [] = None" "merr_NewErrors sample (e # es) = Some e"
  "LabelSelectorAsSelector sample (Some ls) =
     Inr (map (\<lambda>e. (lsr_Key e, s_op (lsr_Operator e), lsr_Values e)) (ls_MatchExpressions ls))"
  "sel_Requirements sample s = (s, True)"
  "data_Convert sample p = Inr (\<lambda>path. [])"
  "SafeConcatName sample xs = Join xs ''-''"
  "status_DeepEqual sample a b = (a = b)"
  by (simp_all add: sample_def)

text \<open>A selector that matches every node, two nodes and a plan that upgrades them one at a time.\<close>

definition all_nodes :: LabelSelector where
  "all_nodes = \<lparr>ls_MatchLabels = None, ls_MatchExpressions = []\<rparr>"

definition sample_node :: "string \<Rightarrow> string \<Rightarrow> Node" where
  "sample_node name host =
     \<lparr>n_meta = empty_meta\<lparr>om_Name := name, om_UID := name, om_Labels := Some [LabelHostname \<mapsto> host]\<rparr>,
      n_Unschedulable = False\<rparr>"

definition sample_spec :: PlanSpec where
  "sample_spec = \<lparr>sp_Concurrency = 1, sp_JobActiveDeadlineSecs = None, sp_NodeSelector = Some all_nodes,
     sp_ServiceAccountName = ''system-upgrade'', sp_Channel = [], sp_Version = ''v1.2+k3s1'', sp_Secrets = [],
     sp_Tolerations = [], sp_Exclusive = False, sp_Window = None, sp_Prepare = None,
     sp_Upgrade = Some \<lparr>cs_Image = ''rancher/k3s-upgrade'', cs_Command = [], cs_Args = [], cs_Env = [], cs_EnvFrom = [],
        cs_Volumes = [], cs_SecurityContext = None\<rparr>,
     sp_Cordon = True, sp_Drain = None, sp_ImagePullSecrets = [], sp_PostCompleteDelay = None,
     sp_PriorityClassName = [], sp_PostCompleteLabels = None\<rparr>"

definition sample_plan :: Plan where
  "sample_plan = \<lparr>p_meta = empty_meta\<lparr>om_Name := ''k3s'', om_Namespace := ''system-upgrade'', om_UID := ''u1''\<rparr>,
     p_Spec = sample_spec,
     p_Status = \<lparr>st_Conditions = [], st_LatestVersion = ''v1.2-k3s1'', st_LatestHash = ''abc'', st_Applying = []\<rparr>\<rparr>"

lemmas sample_defs = sample_node_def sample_spec_def sample_plan_def all_nodes_def empty_meta_def

lemma plain_k3s: "plain_elem ''k3s''"
  by (simp add: plain_elem_def)

end
