(* ===== verification/Containers.thy ===== *)
theory Containers
  imports SampleCluster
begin

text \<open>
  \<^verbatim>\<open>pkg/upgrade/container/container.go\<close>: building a container from a spec and a list of options,
  each a change to the container, applied in order.
\<close>

type_synonym Option = "Container \<Rightarrow> Container"

definition secretsDir :: string where "secretsDir = ''/run/system-upgrade/secrets''"

text \<open>Where a secret is mounted: an absolute path as it is, anything else below the secrets directory.\<close>

definition secret_mount_path :: "SecretSpec \<Rightarrow> string" where
  "secret_mount_path secret =
     (let p = ss_Path secret
      in if p = [] then path_Join secretsDir (ss_Name secret)
         else if take 1 p \<noteq> ''/'' then path_Join secretsDir p
         else p)"

definition secret_mount :: "('sel, 'req) extern \<Rightarrow> SecretSpec \<Rightarrow> VolumeMount" where
  "secret_mount X secret =
     \<lparr>vm_Name = SafeConcatName X [''secret'', ss_Name secret],
      vm_MountPath = secret_mount_path secret, vm_ReadOnly = True\<rparr>"

definition WithSecrets :: "('sel, 'req) extern \<Rightarrow> SecretSpec list \<Rightarrow> Option" where
  "WithSecrets X secrets container =
     foldl (\<lambda>c secret. c\<lparr>c_VolumeMounts := c_VolumeMounts c @ [secret_mount X secret]\<rparr>) container secrets"

definition WithSecurityContext :: "SecurityContext option \<Rightarrow> Option" where
  "WithSecurityContext securityContext container = container\<lparr>c_SecurityContext := securityContext\<rparr>"

definition WithImagePullPolicy :: "string \<Rightarrow> Option" where
  "WithImagePullPolicy pullPolicy container = container\<lparr>c_ImagePullPolicy := pullPolicy\<rparr>"

text \<open>An image reference that does not parse, or a tag that cannot be added, leaves the image alone.\<close>

definition WithLatestTag :: "('sel, 'req) extern \<Rightarrow> string \<Rightarrow> Option" where
  "WithLatestTag X tag container =
     (case ParseNormalizedNamed X (c_Image container) of
        Inl _ \<Rightarrow> container
      | Inr ref \<Rightarrow>
          (if IsNameOnly X ref then
             (case WithTag X ref tag of
                Inl _ \<Rightarrow> container
              | Inr tagged \<Rightarrow> container\<lparr>c_Image := FamiliarString X tagged\<rparr>)
           else container))"

definition plain_env :: "string \<Rightarrow> string \<Rightarrow> EnvVar" where
  "plain_env name val = \<lparr>ev_Name = name, ev_Value = val, ev_ValueFrom = None\<rparr>"

definition field_env :: "string \<Rightarrow> string \<Rightarrow> EnvVar" where
  "field_env name path = \<lparr>ev_Name = name, ev_Value = [], ev_ValueFrom = Some (FieldRef path [])\<rparr>"

definition WithPlanEnvironment :: "string \<Rightarrow> PlanStatus \<Rightarrow> Option" where
  "WithPlanEnvironment planName planStatus container =
     container\<lparr>c_Env := c_Env container @
       [plain_env ''SYSTEM_UPGRADE_PLAN_NAME'' planName,
        plain_env ''SYSTEM_UPGRADE_PLAN_LATEST_HASH'' (st_LatestHash planStatus),
        plain_env ''SYSTEM_UPGRADE_PLAN_LATEST_VERSION'' (st_LatestVersion planStatus)]\<rparr>"

definition volume_mount :: "VolumeSpec \<Rightarrow> VolumeMount" where
  "volume_mount v = \<lparr>vm_Name = vs_Name v, vm_MountPath = vs_Destination v, vm_ReadOnly = False\<rparr>"

definition WithVolumes :: "VolumeSpec list \<Rightarrow> Option" where
  "WithVolumes volumes container =
     foldl (\<lambda>c v. c\<lparr>c_VolumeMounts := c_VolumeMounts c @ [volume_mount v]\<rparr>) container volumes"

definition base_mounts :: "VolumeMount list" where
  "base_mounts =
     [\<lparr>vm_Name = ''host-root'', vm_MountPath = ''/host'', vm_ReadOnly = False\<rparr>,
      \<lparr>vm_Name = ''pod-info'', vm_MountPath = ''/run/system-upgrade/pod'', vm_ReadOnly = True\<rparr>]"

definition base_env :: "EnvVar list" where
  "base_env =
     [field_env ''SYSTEM_UPGRADE_NODE_NAME'' ''spec.nodeName'',
      field_env ''SYSTEM_UPGRADE_POD_NAME'' ''metadata.name'',
      field_env ''SYSTEM_UPGRADE_POD_UID'' ''metadata.uid'']"

definition container_base :: "string \<Rightarrow> ContainerSpec \<Rightarrow> Container" where
  "container_base name spec =
     \<lparr>c_Name = name, c_Image = cs_Image spec, c_Command = cs_Command spec, c_Args = cs_Args spec,
      c_VolumeMounts = base_mounts, c_Env = base_env @ cs_Env spec, c_EnvFrom = cs_EnvFrom spec,
      c_SecurityContext = None, c_ImagePullPolicy = []\<rparr>"

definition container_New :: "string \<Rightarrow> ContainerSpec \<Rightarrow> Option list \<Rightarrow> Container" where
  "container_New name spec opts = foldl (\<lambda>c fn. fn c) (container_base name spec) opts"

subsection \<open>What the options do\<close>

lemma WithSecrets_eq [job_simps]:
  "WithSecrets X secrets c = c\<lparr>c_VolumeMounts := c_VolumeMounts c @ map (secret_mount X) secrets\<rparr>"
proof -
  have "foldl (\<lambda>c s. c\<lparr>c_VolumeMounts := c_VolumeMounts c @ [secret_mount X s]\<rparr>) c secrets =
      c\<lparr>c_VolumeMounts := c_VolumeMounts c @ map (secret_mount X) secrets\<rparr>"
    by (induction secrets arbitrary: c) simp_all
  then show ?thesis by (simp add: WithSecrets_def)
qed

lemma WithVolumes_eq [job_simps]:
  "WithVolumes vs c = c\<lparr>c_VolumeMounts := c_VolumeMounts c @ map volume_mount vs\<rparr>"
proof -
  have "foldl (\<lambda>c v. c\<lparr>c_VolumeMounts := c_VolumeMounts c @ [volume_mount v]\<rparr>) c vs =
      c\<lparr>c_VolumeMounts := c_VolumeMounts c @ map volume_mount vs\<rparr>"
    by (induction vs arbitrary: c) simp_all
  then show ?thesis by (simp add: WithVolumes_def)
qed

text \<open>The image \<open>WithLatestTag\<close> leaves in a container.\<close>

definition tagged_image :: "('sel, 'req) extern \<Rightarrow> string \<Rightarrow> string \<Rightarrow> string" where
  "tagged_image X tag img = c_Image (WithLatestTag X tag \<lparr>c_Name = [], c_Image = img, c_Command = [],
     c_Args = [], c_VolumeMounts = [], c_Env = [], c_EnvFrom = [], c_SecurityContext = None, c_ImagePullPolicy = []\<rparr>)"

lemma WithLatestTag_eq [job_simps]: "WithLatestTag X tag c = c\<lparr>c_Image := tagged_image X tag (c_Image c)\<rparr>"
  by (auto simp: WithLatestTag_def tagged_image_def split: sum.splits)

lemmas option_eqs = WithSecrets_eq WithVolumes_eq WithLatestTag_eq WithSecurityContext_def
  WithImagePullPolicy_def WithPlanEnvironment_def

text \<open>
  Each option is confined to its own fields, so the options that write different fields commute;
  the interface the job builder relies on.
\<close>

locale confined_option =
  fixes opt :: Option
  assumes keeps_name: "c_Name (opt c) = c_Name c"
    and keeps_command: "c_Command (opt c) = c_Command c" "c_Args (opt c) = c_Args c"
    and keeps_envfrom: "c_EnvFrom (opt c) = c_EnvFrom c"
    and env_prefix: "\<exists>ys. c_Env (opt c) = c_Env c @ ys"
    and mounts_prefix: "\<exists>ys. c_VolumeMounts (opt c) = c_VolumeMounts c @ ys"

text \<open>The laws of \<^const>\<open>confined_option\<close> carry over to any list of such options.\<close>

definition confined :: "Option list \<Rightarrow> bool" where
  "confined opts \<longleftrightarrow> (\<forall>opt\<in>set opts. confined_option opt)"

lemma confined_foldl:
  assumes "confined opts"
  shows "confined_option (\<lambda>c. foldl (\<lambda>c fn. fn c) c opts)"
  using assms
proof (induction opts)
  case Nil
  then show ?case by unfold_locales simp_all
next
  case (Cons opt opts)
  then have o: "confined_option opt" and os: "confined_option (\<lambda>c. foldl (\<lambda>c fn. fn c) c opts)"
    by (auto simp: confined_def)
  show ?case
  proof
    fix c
    show "\<exists>ys. c_Env (foldl (\<lambda>c fn. fn c) c (opt # opts)) = c_Env c @ ys"
      using confined_option.env_prefix [OF o, of c] confined_option.env_prefix [OF os, of "opt c"] by auto
    show "\<exists>ys. c_VolumeMounts (foldl (\<lambda>c fn. fn c) c (opt # opts)) = c_VolumeMounts c @ ys"
      using confined_option.mounts_prefix [OF o, of c] confined_option.mounts_prefix [OF os, of "opt c"] by auto
  qed (use confined_option.keeps_name [OF o] confined_option.keeps_name [OF os]
      confined_option.keeps_command [OF o] confined_option.keeps_command [OF os]
      confined_option.keeps_envfrom [OF o] confined_option.keeps_envfrom [OF os] in simp_all)
qed

interpretation secrets_opt: confined_option "WithSecrets X secrets" for X secrets
  by unfold_locales (simp_all add: option_eqs)

interpretation volumes_opt: confined_option "WithVolumes volumes" for volumes
  by unfold_locales (simp_all add: option_eqs)

interpretation tag_opt: confined_option "WithLatestTag X tag" for X tag
  by unfold_locales (simp_all add: option_eqs)

interpretation env_opt: confined_option "WithPlanEnvironment name st" for name st
  by unfold_locales (simp_all add: option_eqs)

interpretation sc_opt: confined_option "WithSecurityContext sc" for sc
  by unfold_locales (simp_all add: option_eqs)

interpretation pull_opt: confined_option "WithImagePullPolicy p" for p
  by unfold_locales (simp_all add: option_eqs)

lemma confined_known:
  "confined []" 
  "confined (WithSecrets X secrets # os) = confined os" "confined (WithVolumes vs # os) = confined os"
  "confined (WithLatestTag X tag # os) = confined os" "confined (WithPlanEnvironment nm st # os) = confined os"
  "confined (WithSecurityContext sc # os) = confined os" "confined (WithImagePullPolicy p # os) = confined os"
  by (simp_all add: confined_def secrets_opt.confined_option_axioms volumes_opt.confined_option_axioms
      tag_opt.confined_option_axioms env_opt.confined_option_axioms sc_opt.confined_option_axioms
      pull_opt.confined_option_axioms)

text \<open>
  Whatever known options it is built with, a container has the spec's name, command, arguments and
  sources, and starts with the host and pod mounts and the node, pod and spec variables.
\<close>

lemma container_New_base:
  assumes "confined opts"
  shows "c_Name (container_New name spec opts) = name"
    "c_Command (container_New name spec opts) = cs_Command spec"
    "c_Args (container_New name spec opts) = cs_Args spec"
    "c_EnvFrom (container_New name spec opts) = cs_EnvFrom spec"
    "\<exists>ys. c_Env (container_New name spec opts) = base_env @ cs_Env spec @ ys"
    "\<exists>ys. c_VolumeMounts (container_New name spec opts) = base_mounts @ ys"
proof -
  let ?b = "container_base name spec"
  note os = confined_foldl [OF assms]
  show "c_Name (container_New name spec opts) = name"
    using confined_option.keeps_name [OF os, of ?b] by (simp add: container_New_def container_base_def)
  show "c_Command (container_New name spec opts) = cs_Command spec"
    using confined_option.keeps_command(1) [OF os, of ?b] by (simp add: container_New_def container_base_def)
  show "c_Args (container_New name spec opts) = cs_Args spec"
    using confined_option.keeps_command(2) [OF os, of ?b] by (simp add: container_New_def container_base_def)
  show "c_EnvFrom (container_New name spec opts) = cs_EnvFrom spec"
    using confined_option.keeps_envfrom [OF os, of ?b] by (simp add: container_New_def container_base_def)
  show "\<exists>ys. c_Env (container_New name spec opts) = base_env @ cs_Env spec @ ys"
    using confined_option.env_prefix [OF os, of ?b] by (auto simp: container_New_def container_base_def)
  show "\<exists>ys. c_VolumeMounts (container_New name spec opts) = base_mounts @ ys"
    using confined_option.mounts_prefix [OF os, of ?b] by (auto simp: container_New_def container_base_def)
qed

end
