(* ===== verification/Sha2.thy ===== *)
theory Sha2
  imports Prelude "HOL-Library.Word"
begin

text \<open>
  \<^verbatim>\<open>crypto/sha256\<close> as the program uses it: SHA-256 (\<^verbatim>\<open>sha256.New\<close>) and SHA-224
  (\<^verbatim>\<open>sha256.New224\<close>) of a byte string, following FIPS 180-4, and the \<^verbatim>\<open>%x\<close> verb that prints
  the digest. A \<^verbatim>\<open>hash.Hash\<close> that has been written to is the concatenation of what was written;
  \<^verbatim>\<open>Sum\<close> hashes it.
\<close>

unbundle bit_operations_syntax

type_synonym w32 = "32 word"

text \<open>The round constants and the two initial states, in decimal.\<close>

definition sha_K :: "w32 list" where
  "sha_K = [
    1116352408, 1899447441, 3049323471, 3921009573,
    961987163, 1508970993, 2453635748, 2870763221,
    3624381080, 310598401, 607225278, 1426881987,
    1925078388, 2162078206, 2614888103, 3248222580,
    3835390401, 4022224774, 264347078, 604807628,
    770255983, 1249150122, 1555081692, 1996064986,
    2554220882, 2821834349, 2952996808, 3210313671,
    3336571891, 3584528711, 113926993, 338241895,
    666307205, 773529912, 1294757372, 1396182291,
    1695183700, 1986661051, 2177026350, 2456956037,
    2730485921, 2820302411, 3259730800, 3345764771,
    3516065817, 3600352804, 4094571909, 275423344,
    430227734, 506948616, 659060556, 883997877,
    958139571, 1322822218, 1537002063, 1747873779,
    1955562222, 2024104815, 2227730452, 2361852424,
    2428436474, 2756734187, 3204031479, 3329325298]"

definition sha256_H0 :: "w32 list" where
  "sha256_H0 = [
    1779033703, 3144134277, 1013904242, 2773480762,
    1359893119, 2600822924, 528734635, 1541459225]"

definition sha224_H0 :: "w32 list" where
  "sha224_H0 = [
    3238371032, 914150663, 812702999, 4144912697,
    4290775857, 1750603025, 1694076839, 3204075428]"

definition sha_Ch :: "w32 \<Rightarrow> w32 \<Rightarrow> w32 \<Rightarrow> w32" where
  "sha_Ch x y z = (x AND y) XOR (NOT x AND z)"

definition sha_Maj :: "w32 \<Rightarrow> w32 \<Rightarrow> w32 \<Rightarrow> w32" where
  "sha_Maj x y z = (x AND y) XOR (x AND z) XOR (y AND z)"

definition sha_S0 :: "w32 \<Rightarrow> w32" where
  "sha_S0 x = word_rotr 2 x XOR word_rotr 13 x XOR word_rotr 22 x"

definition sha_S1 :: "w32 \<Rightarrow> w32" where
  "sha_S1 x = word_rotr 6 x XOR word_rotr 11 x XOR word_rotr 25 x"

definition sha_s0 :: "w32 \<Rightarrow> w32" where
  "sha_s0 x = word_rotr 7 x XOR word_rotr 18 x XOR drop_bit 3 x"

definition sha_s1 :: "w32 \<Rightarrow> w32" where
  "sha_s1 x = word_rotr 17 x XOR word_rotr 19 x XOR drop_bit 10 x"

text \<open>Padding: a one bit, zeros up to 56 modulo 64 bytes, and the bit length in 8 bytes.\<close>

definition be_bytes :: "nat \<Rightarrow> int \<Rightarrow> int list" where
  "be_bytes n v = map (\<lambda>i. v div 256 ^ (n - 1 - i) mod 256) [0..<n]"

definition sha_pad :: "string \<Rightarrow> int list" where
  "sha_pad msg =
     (let bs = map of_char msg; n = length bs
      in bs @ [128] @ replicate ((119 - n mod 64) mod 64) 0 @ be_bytes 8 (8 * int n mod 2 ^ 64))"

fun be_words :: "int list \<Rightarrow> w32 list" where
  "be_words (a # b # c # d # rest) = of_int (((a * 256 + b) * 256 + c) * 256 + d) # be_words rest"
| "be_words _ = []"

fun blocks16 :: "w32 list \<Rightarrow> w32 list list" where
  "blocks16 [] = []"
| "blocks16 (w # ws) = take 16 (w # ws) # blocks16 (drop 15 ws)"

text \<open>The message schedule: 48 more words, each from the 16 before it.\<close>

fun sha_extend :: "nat \<Rightarrow> w32 list \<Rightarrow> w32 list" where
  "sha_extend 0 ws = ws"
| "sha_extend (Suc k) ws =
     (let t = length ws
      in sha_extend k (ws @ [sha_s1 (ws ! (t - 2)) + ws ! (t - 7) + sha_s0 (ws ! (t - 15)) + ws ! (t - 16)]))"

fun sha_round :: "w32 list \<Rightarrow> w32 \<times> w32 \<Rightarrow> w32 list" where
  "sha_round [a, b, c, d, e, f, g, h] (k, w) =
     (let t1 = h + sha_S1 e + sha_Ch e f g + k + w; t2 = sha_S0 a + sha_Maj a b c
      in [t1 + t2, a, b, c, d + t1, e, f, g])"
| "sha_round st _ = st"

definition sha_compress :: "w32 list \<Rightarrow> w32 list \<Rightarrow> w32 list" where
  "sha_compress H blk = map2 (+) H (foldl sha_round H (zip sha_K (sha_extend 48 blk)))"

definition sha_digest :: "w32 list \<Rightarrow> string \<Rightarrow> w32 list" where
  "sha_digest H0 msg = foldl sha_compress H0 (blocks16 (be_words (sha_pad msg)))"

definition hex_digit :: "int \<Rightarrow> char" where
  "hex_digit n = ''0123456789abcdef'' ! nat (n mod 16)"

definition hex_word :: "w32 \<Rightarrow> string" where
  "hex_word w = map (\<lambda>i. hex_digit (uint w div 16 ^ (7 - i))) [0..<8]"

text \<open>The \<^verbatim>\<open>%x\<close> rendering of \<^verbatim>\<open>h.Sum(nil)\<close> for the two hashes.\<close>

definition sha256_hex :: "string \<Rightarrow> string" where
  "sha256_hex msg = concat (map hex_word (sha_digest sha256_H0 msg))"

definition sha224_hex :: "string \<Rightarrow> string" where
  "sha224_hex msg = concat (map hex_word (take 7 (sha_digest sha224_H0 msg)))"

lemma length_sha_round [simp]: "length (sha_round st kw) = length st"
  by (induction st kw rule: sha_round.induct) (auto simp: Let_def)

lemma length_foldl_sha_round [simp]: "length (foldl sha_round st kws) = length st"
  by (induction kws arbitrary: st) auto

lemma length_foldl_sha_compress: "length (foldl sha_compress H bs) = length H"
  by (induction bs arbitrary: H) (auto simp: sha_compress_def)

lemma length_sha_digest: "length (sha_digest H0 msg) = length H0"
  by (simp add: sha_digest_def length_foldl_sha_compress)

lemma length_hex_words: "length (concat (map hex_word ws)) = 8 * length ws"
  by (induction ws) (auto simp: hex_word_def)

text \<open>A printed SHA-224 digest has 56 hexadecimal digits, a SHA-256 digest 64.\<close>

lemma length_sha224_hex: "length (sha224_hex msg) = 56"
  by (simp add: sha224_hex_def length_hex_words length_sha_digest sha224_H0_def)

lemma length_sha256_hex: "length (sha256_hex msg) = 64"
  by (simp add: sha256_hex_def length_hex_words length_sha_digest sha256_H0_def)

lemma hex_digit_in: "hex_digit n \<in> set ''0123456789abcdef''"
proof -
  have "nat (n mod 16) < length ''0123456789abcdef''" by simp
  then show ?thesis unfolding hex_digit_def by (rule nth_mem)
qed

lemma set_hex_word: "set (hex_word w) \<subseteq> set ''0123456789abcdef''"
  unfolding hex_word_def set_map using hex_digit_in by blast

lemma sha224_hex_chars: "set (sha224_hex msg) \<subseteq> set ''0123456789abcdef''"
  unfolding sha224_hex_def set_concat set_map using set_hex_word by blast

text \<open>A hexadecimal digest is never the reserved label value \<open>disabled\<close> and never empty.\<close>

lemma sha224_hex_not_disabled: "sha224_hex msg \<noteq> ''disabled''"
  using length_sha224_hex [of msg] by auto


text \<open>The published test vectors of the two hashes for the message \<open>abc\<close>.\<close>

lemma sha256_abc: "sha256_hex ''abc'' = ''ba7816bf8f01cfea414140de5dae2223b00361a396177a9cb410ff61f20015ad''"
  by code_simp

lemma sha224_abc: "sha224_hex ''abc'' = ''23097d223405d8228642a477bda255b32aadbce4bda0b3f7e36c9da7''"
  by code_simp

end
