(* ===== verification/PlanOps.thy ===== *)
theory PlanOps
  imports SampleCluster Sha2
begin

text \<open>
  \<^verbatim>\<open>pkg/upgrade/plan/plan.go\<close>: validating a plan, resolving its version, digesting its status, and
  selecting the nodes to work on.
\<close>

subsection \<open>Errors and settings\<close>

definition ErrDrainDeleteConflict :: go_error where
  "ErrDrainDeleteConflict = NewError ''spec.drain cannot specify both deleteEmptydirData and deleteLocalData''"
definition ErrDrainPodSelectorNotSelectable :: go_error where
  "ErrDrainPodSelectorNotSelectable = NewError ''spec.drain.podSelector is not selectable''"
definition ErrInvalidWindow :: go_error where "ErrInvalidWindow = NewError ''spec.window is invalid''"
definition ErrInvalidDelay :: go_error where "ErrInvalidDelay = NewError ''spec.postCompleteDelay is negative''"

definition defaultPollingInterval :: duration where "defaultPollingInterval = 15 * Minute"

text \<open>The environment is the function \<^verbatim>\<open>os.LookupEnv\<close>.\<close>

type_synonym environ = "string \<Rightarrow> string option"

definition PollingInterval :: "('sel, 'req) extern \<Rightarrow> environ \<Rightarrow> duration" where
  "PollingInterval X env =
     (case env ''SYSTEM_UPGRADE_PLAN_POLLING_INTERVAL'' of
        None \<Rightarrow> defaultPollingInterval
      | Some str \<Rightarrow>
          (case ParseDuration X str of
             None \<Rightarrow> defaultPollingInterval
           | Some d \<Rightarrow> if Minute < d then d else defaultPollingInterval))"

subsection \<open>DigestStatus\<close>

type_synonym secret_get = "string \<Rightarrow> string \<Rightarrow> Secret result"

text \<open>The hash being computed is the text written to it so far.\<close>

definition addToHashFromAnnotation :: "('sel, 'req) extern \<Rightarrow> string \<Rightarrow> Plan \<Rightarrow> string result" where
  "addToHashFromAnnotation X h plan =
     (let annotation = mindex (p_Annotations plan) AnnotationIncludeInDigest
      in if annotation = [] then Inr h
         else (case data_Convert X plan of
             Inl err \<Rightarrow> Inl err
           | Inr dataMap \<Rightarrow>
               Inr (foldl (\<lambda>h entry. h @ dataMap (Split entry (CHR ''.''))) h (Split annotation (CHR '','')))))"

fun digest_secrets :: "('sel, 'req) extern \<Rightarrow> secret_get \<Rightarrow> string \<Rightarrow> string \<Rightarrow> SecretSpec list \<Rightarrow> string result" where
  "digest_secrets X secretGet ns h [] = Inr h"
| "digest_secrets X secretGet ns h (s # ss) =
     (if \<not> ss_IgnoreUpdates s
      then (case secretGet ns (ss_Name s) of
          Inl err \<Rightarrow> Inl err
        | Inr secret \<Rightarrow>
            (case SecretHash X secret of
               Inl err \<Rightarrow> Inl err
             | Inr secretHash \<Rightarrow> digest_secrets X secretGet ns (h @ secretHash) ss))
      else digest_secrets X secretGet ns h ss)"

text \<open>Gives the plan with its new status, and the error; the returned status is the plan's.\<close>

definition DigestStatus :: "('sel, 'req) extern \<Rightarrow> secret_get \<Rightarrow> Plan \<Rightarrow> Plan \<times> go_error option" where
  "DigestStatus X secretGet plan =
     (if GetReason (p_Conditions plan) PlanLatestResolved \<noteq> ''Error'' then
        (let h = st_LatestVersion (p_Status plan) @ sp_ServiceAccountName (p_Spec plan)
         in case addToHashFromAnnotation X h plan of
              Inl err \<Rightarrow> (plan, Some err)
            | Inr h1 \<Rightarrow>
                (case digest_secrets X secretGet (p_Namespace plan) h1 (sp_Secrets (p_Spec plan)) of
                   Inl err \<Rightarrow> (plan, Some err)
                 | Inr h2 \<Rightarrow> (plan\<lparr>p_Status := (p_Status plan)\<lparr>st_LatestHash := sha224_hex h2\<rparr>\<rparr>, None)))
      else (plan, None))"

subsection \<open>MungeVersion and ResolveChannel\<close>

definition MungeVersion :: "string \<Rightarrow> string" where
  "MungeVersion version = ReplaceAll version ''+'' ''-''"

definition headerClusterID :: string where "headerClusterID = ''X-SUC-Cluster-ID''"
definition headerLatestVersion :: string where "headerLatestVersion = ''X-SUC-Latest-Version''"

text \<open>
  The HTTP client as the program uses it: redirects are not followed; \<open>rs_Location\<close> is what
  \<^verbatim>\<open>response.Location()\<close> gives, the path of its URL.
\<close>

record http_request =
  rq_URL :: string
  rq_Header :: "string \<rightharpoonup> string list"

record http_response =
  rs_StatusCode :: int
  rs_Proto :: string
  rs_Status :: string
  rs_Location :: "string result"

record http_client =
  http_NewRequest :: "string \<Rightarrow> http_request result"
  http_Do :: "http_request \<Rightarrow> http_response result"

definition ResolveChannel :: "http_client \<Rightarrow> string \<Rightarrow> string \<Rightarrow> string \<Rightarrow> string result" where
  "ResolveChannel H url latestVersion clusterID =
     (case http_NewRequest H url of
        Inl err \<Rightarrow> Inl err
      | Inr request0 \<Rightarrow>
          (let request1 = (if clusterID \<noteq> []
                 then request0\<lparr>rq_Header := (rq_Header request0)(headerClusterID \<mapsto> [clusterID])\<rparr> else request0);
               request = (if latestVersion \<noteq> []
                 then request1\<lparr>rq_Header := (rq_Header request1)(headerLatestVersion \<mapsto> [latestVersion])\<rparr>
                 else request1)
           in case http_Do H request of
                Inl err \<Rightarrow> Inl err
              | Inr response \<Rightarrow>
                  (if rs_StatusCode response = 302 then
                     (case rs_Location response of
                        Inl err \<Rightarrow> Inl err
                      | Inr path \<Rightarrow> Inr (path_Base path))
                   else if go_div (rs_StatusCode response) 200 = 1 then Inr (path_Base url)
                   else Inl (NewError (''unexpected response: '' @ rs_Proto response @ '' '' @ rs_Status response)))))"

subsection \<open>Selecting nodes\<close>

type_synonym 'sel node_list = "'sel \<Rightarrow> Node list result"

definition NodeSelector :: "('sel, 'req) extern \<Rightarrow> Plan \<Rightarrow> 'sel result" where
  "NodeSelector X plan =
     (case LabelSelectorAsSelector X (sp_NodeSelector (p_Spec plan)) of
        Inl err \<Rightarrow> Inl err
      | Inr nodeSelector \<Rightarrow>
          (case NewRequirement X LabelHostname selection_Exists [] of
             Inl err \<Rightarrow> Inl err
           | Inr requireHostname \<Rightarrow> Inr (sel_Add X nodeSelector [requireHostname])))"

definition sha256sum :: "string list \<Rightarrow> string" where
  "sha256sum ss = sha256_hex (concat ss)"

text \<open>The key that the candidates of a plan are ordered by.\<close>

definition candidate_sum :: "Plan \<Rightarrow> Node \<Rightarrow> string" where
  "candidate_sum plan node = sha256sum [n_UID node, p_UID plan, st_LatestHash (p_Status plan)]"

text \<open>The loop that appends candidates while there is room.\<close>

fun append_candidates :: "int \<Rightarrow> Node list \<Rightarrow> Node list \<Rightarrow> Node list" where
  "append_candidates concurrency selected [] = selected"
| "append_candidates concurrency selected (node # candidateNodes) =
     (if int (length selected) < concurrency
      then append_candidates concurrency (selected @ [node]) candidateNodes
      else selected)"

text \<open>
  The nodes already being worked on: the selected nodes and the selector for the others. With
  an empty applying list nothing is selected and the selector is unchanged.
\<close>

definition select_applying ::
    "('sel, 'req) extern \<Rightarrow> 'sel node_list \<Rightarrow> string list \<Rightarrow> 'sel \<Rightarrow> (Node list \<times> 'sel) result" where
  "select_applying X nodeList applying nodeSelector =
     (if applying \<noteq> [] then
        (case NewRequirement X LabelHostname selection_In applying of
           Inl err \<Rightarrow> Inl err
         | Inr requirementApplying \<Rightarrow>
             (case nodeList (sel_Add X nodeSelector [requirementApplying]) of
                Inl err \<Rightarrow> Inl err
              | Inr applyingNodes \<Rightarrow>
                  (case NewRequirement X LabelHostname selection_NotIn applying of
                     Inl err \<Rightarrow> Inl err
                   | Inr requirementNotApplying \<Rightarrow>
                       Inr (applyingNodes, sel_Add X nodeSelector [requirementNotApplying]))))
      else Inr ([], nodeSelector))"

text \<open>
  \<^verbatim>\<open>sort.Slice\<close> is \<^const>\<open>sort_key\<close>: the two agree whenever the keys are distinct
  (\<open>sort_key_unique\<close>).
\<close>

definition SelectConcurrentNodes ::
    "('sel, 'req) extern \<Rightarrow> 'sel node_list \<Rightarrow> Plan \<Rightarrow> Node list result" where
  "SelectConcurrentNodes X nodeList plan =
     (case NodeSelector X plan of
        Inl err \<Rightarrow> Inl err
      | Inr nodeSelector0 \<Rightarrow>
          (case NewRequirement X (LabelPlanName (p_Name plan)) selection_NotIn
                  [''disabled'', st_LatestHash (p_Status plan)] of
             Inl err \<Rightarrow> Inl err
           | Inr requirementPlanNotLatest \<Rightarrow>
               (case select_applying X nodeList (st_Applying (p_Status plan))
                       (sel_Add X nodeSelector0 [requirementPlanNotLatest]) of
                  Inl err \<Rightarrow> Inl err
                | Inr (selected, nodeSelector) \<Rightarrow>
                    (if int (length selected) < sp_Concurrency (p_Spec plan) then
                       (case nodeList nodeSelector of
                          Inl err \<Rightarrow> Inl err
                        | Inr candidateNodes \<Rightarrow>
                            Inr (sort_key n_Name
                              (append_candidates (sp_Concurrency (p_Spec plan)) selected
                                (sort_key (candidate_sum plan) candidateNodes))))
                     else Inr (sort_key n_Name selected)))))"

subsection \<open>Validate\<close>

definition validate_drain :: "('sel, 'req) extern \<Rightarrow> DrainSpec \<Rightarrow> go_error option" where
  "validate_drain X drainSpec =
     (if dr_DeleteEmptydirData drainSpec \<noteq> None \<and> dr_DeleteLocalData drainSpec \<noteq> None
      then Some ErrDrainDeleteConflict
      else (case dr_PodSelector drainSpec of
          None \<Rightarrow> None
        | Some podSelector \<Rightarrow>
            (case LabelSelectorAsSelector X (Some podSelector) of
               Inl err \<Rightarrow> Some err
             | Inr selector \<Rightarrow>
                 (if snd (sel_Requirements X selector) then None else Some ErrDrainPodSelectorNotSelectable))))"

definition validate_window :: "('sel, 'req) extern \<Rightarrow> TimeWindowSpec \<Rightarrow> go_error option" where
  "validate_window X w =
     (case timewindow_New X (tw_Days w) (tw_StartTime w) (tw_EndTime w) (tw_TimeZone w) of
        Inl err \<Rightarrow> merr_NewErrors X [ErrInvalidWindow, err]
      | Inr _ \<Rightarrow> None)"

fun secret_errors :: "secret_get \<Rightarrow> string \<Rightarrow> SecretSpec list \<Rightarrow> go_error list" where
  "secret_errors secretGet ns [] = []"
| "secret_errors secretGet ns (s # ss) =
     (if ss_IgnoreUpdates s then secret_errors secretGet ns ss
      else (case secretGet ns (ss_Name s) of
          Inl err \<Rightarrow> err # secret_errors secretGet ns ss
        | Inr _ \<Rightarrow> secret_errors secretGet ns ss))"

text \<open>
  \<^verbatim>\<open>Validate\<close> returns at the first failing check. The window check returns the merged error as
  it is, so a merge that gave nil would end the validation there.
\<close>

definition Validate :: "('sel, 'req) extern \<Rightarrow> secret_get \<Rightarrow> Plan \<Rightarrow> go_error option" where
  "Validate X secretGet plan =
     (let spec = p_Spec plan;
          drainErr = (case sp_Drain spec of None \<Rightarrow> None | Some d \<Rightarrow> validate_drain X d)
      in if drainErr \<noteq> None then drainErr
         else if (case sp_Window spec of None \<Rightarrow> False
                  | Some w \<Rightarrow> isl (timewindow_New X (tw_Days w) (tw_StartTime w) (tw_EndTime w) (tw_TimeZone w)))
         then (case sp_Window spec of None \<Rightarrow> None | Some w \<Rightarrow> validate_window X w)
         else if (case sp_PostCompleteDelay spec of None \<Rightarrow> False | Some delay \<Rightarrow> delay < 0)
         then Some ErrInvalidDelay
         else merr_NewErrors X (secret_errors secretGet (p_Namespace plan) (sp_Secrets spec)))"

subsection \<open>Digest\<close>

text \<open>The secrets of a plan that its digest depends on.\<close>

abbreviation tracked_secrets :: "Plan \<Rightarrow> SecretSpec list" where
  "tracked_secrets plan \<equiv> filter (\<lambda>s. \<not> ss_IgnoreUpdates s) (sp_Secrets (p_Spec plan))"

definition secret_hash :: "('sel, 'req) extern \<Rightarrow> secret_get \<Rightarrow> string \<Rightarrow> SecretSpec \<Rightarrow> string result" where
  "secret_hash X secretGet ns s =
     (case secretGet ns (ss_Name s) of Inl err \<Rightarrow> Inl err | Inr secret \<Rightarrow> SecretHash X secret)"

lemma digest_secrets_Cons:
  "digest_secrets X secretGet ns h (s # ss) =
     (if ss_IgnoreUpdates s then digest_secrets X secretGet ns h ss
      else case secret_hash X secretGet ns s of Inl err \<Rightarrow> Inl err | Inr v \<Rightarrow> digest_secrets X secretGet ns (h @ v) ss)"
  by (simp add: secret_hash_def split: sum.splits)

declare digest_secrets.simps(2) [simp del]

lemma digest_secrets_ok:
  "map (secret_hash X secretGet ns) (filter (\<lambda>s. \<not> ss_IgnoreUpdates s) ss) = map Inr hs \<Longrightarrow>
     digest_secrets X secretGet ns h ss = Inr (h @ concat hs)"
proof (induction ss arbitrary: h hs)
  case (Cons s ss)
  show ?case
  proof (cases "ss_IgnoreUpdates s")
    case True
    with Cons.IH [of hs h] Cons.prems show ?thesis by (simp add: digest_secrets_Cons)
  next
    case False
    with Cons.prems obtain v hs' where "hs = v # hs'" by (cases hs) simp_all
    with False Cons.prems Cons.IH [of hs' "h @ v"] show ?thesis by (simp add: digest_secrets_Cons)
  qed
qed simp

lemma digest_secrets_isl:
  "isl (digest_secrets X secretGet ns h ss) \<longleftrightarrow>
     (\<exists>s\<in>set (filter (\<lambda>s. \<not> ss_IgnoreUpdates s) ss). isl (secret_hash X secretGet ns s))"
proof (induction ss arbitrary: h)
  case (Cons s ss)
  then show ?case
    by (cases "ss_IgnoreUpdates s"; cases "secret_hash X secretGet ns s") (simp_all add: digest_secrets_Cons)
qed simp

text \<open>The text of the fields that the annotation names: its entries are paths into the plan, separated by commas.\<close>

definition included_fields :: "('sel, 'req) extern \<Rightarrow> Plan \<Rightarrow> string result" where
  "included_fields X plan =
     (if mindex (p_Annotations plan) AnnotationIncludeInDigest = [] then Inr []
      else map_sum id (\<lambda>dataMap. concat (map (\<lambda>entry. dataMap (Split entry (CHR ''.'')))
              (Split (mindex (p_Annotations plan) AnnotationIncludeInDigest) (CHR '','')))) (data_Convert X plan))"

lemma addToHash_fields: "addToHashFromAnnotation X h plan = map_sum id (\<lambda>incl. h @ incl) (included_fields X plan)"
proof -
  have "foldl (\<lambda>h e. h @ f e) g es = g @ concat (map f es)" for f :: "string \<Rightarrow> string" and g es
    by (induction es arbitrary: g) auto
  then show ?thesis by (simp add: addToHashFromAnnotation_def included_fields_def Let_def split: sum.split)
qed

lemma annotation_absent:
  "mindex (p_Annotations plan) AnnotationIncludeInDigest = [] \<Longrightarrow> addToHashFromAnnotation X h plan = Inr h"
  by (simp add: addToHashFromAnnotation_def)

lemma DigestStatus_frame:
  assumes "DigestStatus X secretGet plan = (plan', err)"
  shows "p_Spec plan' = p_Spec plan" "p_meta plan' = p_meta plan" "p_Conditions plan' = p_Conditions plan"
    "st_LatestVersion (p_Status plan') = st_LatestVersion (p_Status plan)"
    "st_Applying (p_Status plan') = st_Applying (p_Status plan)"
    "err \<noteq> None \<Longrightarrow> plan' = plan"
  using assms by (auto simp: DigestStatus_def Let_def split: if_splits sum.splits)

subsection \<open>Properties\<close>

text \<open>
  C28: the latest hash of a resolved plan is the SHA-224 of its version, its service account, the text of the fields that its digest
  annotation names (none without the annotation), and the hashes of the secrets that do not ignore updates, one after the
  other in this order, whenever the plan can be converted and these secrets are there. Secrets that ignore updates, and the
  fields of the spec that the annotation does not name, have no part in it.
\<close>

theorem digest_exact:
  assumes "GetReason (p_Conditions plan) PlanLatestResolved \<noteq> ''Error''"
    and "included_fields X plan = Inr incl"
    and "map (secret_hash X secretGet (p_Namespace plan)) (tracked_secrets plan) = map Inr hs"
  shows "DigestStatus X secretGet plan =
    (plan\<lparr>p_Status := (p_Status plan)\<lparr>st_LatestHash :=
       sha224_hex (st_LatestVersion (p_Status plan) @ sp_ServiceAccountName (p_Spec plan) @ incl @ concat hs)\<rparr>\<rparr>, None)"
  using assms(1,2) digest_secrets_ok [OF assms(3), of "st_LatestVersion (p_Status plan) @ sp_ServiceAccountName (p_Spec plan) @ incl"]
  by (simp add: DigestStatus_def addToHash_fields)

theorem digest_exact_witness:
  "\<exists>(X :: (sreq list, sreq) extern) plan. mindex (p_Annotations plan) AnnotationIncludeInDigest = ''spec.cordon,spec.upgrade.image'' \<and>
     DigestStatus X (\<lambda>ns n. Inl (ExtError 404 [])) plan =
       (plan\<lparr>p_Status := (p_Status plan)\<lparr>st_LatestHash := sha224_hex ''v1.2-k3s1system-upgradetruerancher/k3s-upgrade''\<rparr>\<rparr>, None)"
proof (intro exI conjI)
  let ?field = "\<lambda>path. if path = [''spec'', ''cordon''] then ''true'' else if path = [''spec'', ''upgrade'', ''image'']
    then ''rancher/k3s-upgrade'' else []"
  let ?X = "sample\<lparr>data_Convert := (\<lambda>p. Inr ?field)\<rparr>"
  let ?plan = "sample_plan\<lparr>p_meta := (p_meta sample_plan)\<lparr>om_Annotations := Some [AnnotationIncludeInDigest \<mapsto> ''spec.cordon,spec.upgrade.image'']\<rparr>\<rparr>"
  show a: "mindex (p_Annotations ?plan) AnnotationIncludeInDigest = ''spec.cordon,spec.upgrade.image''" by simp
  have "Split ''spec.cordon,spec.upgrade.image'' (CHR '','') = [''spec.cordon'', ''spec.upgrade.image'']"
    "Split ''spec.cordon'' (CHR ''.'') = [''spec'', ''cordon'']" "Split ''spec.upgrade.image'' (CHR ''.'') = [''spec'', ''upgrade'', ''image'']"
    by code_simp+
  then have "included_fields ?X ?plan = Inr ''truerancher/k3s-upgrade''" unfolding included_fields_def a by simp
  from digest_exact [OF _ this, of "\<lambda>ns n. Inl (ExtError 404 [])" "[]"]
  show "DigestStatus ?X (\<lambda>ns n. Inl (ExtError 404 [])) ?plan =
     (?plan\<lparr>p_Status := (p_Status ?plan)\<lparr>st_LatestHash := sha224_hex ''v1.2-k3s1system-upgradetruerancher/k3s-upgrade''\<rparr>\<rparr>, None)"
    by (simp add: sample_defs GetReason_def findOrNotCreateCond_def)
qed

text \<open>
  The digest fails exactly when the annotation cannot be read or a tracked secret is missing or
  cannot be hashed (and the plan was resolved); then the plan keeps its old hash. When it
  succeeds on a resolved plan the new hash is never the label value \<open>disabled\<close>, which would keep
  every node from being selected by mistake.
\<close>

lemma digest_errors:
  "(snd (DigestStatus X secretGet plan) \<noteq> None \<longleftrightarrow>
      GetReason (p_Conditions plan) PlanLatestResolved \<noteq> ''Error'' \<and>
      (isl (addToHashFromAnnotation X [] plan) \<or>
       (\<exists>s\<in>set (tracked_secrets plan). isl (secret_hash X secretGet (p_Namespace plan) s)))) \<and>
   (snd (DigestStatus X secretGet plan) \<noteq> None \<longrightarrow> fst (DigestStatus X secretGet plan) = plan) \<and>
   (snd (DigestStatus X secretGet plan) = None \<and> GetReason (p_Conditions plan) PlanLatestResolved \<noteq> ''Error'' \<longrightarrow>
      st_LatestHash (p_Status (fst (DigestStatus X secretGet plan))) \<noteq> ''disabled'')"
proof (cases "GetReason (p_Conditions plan) PlanLatestResolved = ''Error''")
  case False
  let ?h = "st_LatestVersion (p_Status plan) @ sp_ServiceAccountName (p_Spec plan)"
  let ?bad = "\<exists>s\<in>set (tracked_secrets plan). isl (secret_hash X secretGet (p_Namespace plan) s)"
  have d: "isl (digest_secrets X secretGet (p_Namespace plan) h (sp_Secrets (p_Spec plan))) \<longleftrightarrow> ?bad" for h
    by (rule digest_secrets_isl)
  show ?thesis
  proof (cases "addToHashFromAnnotation X ?h plan")
    case (Inl e)
    then have "isl (addToHashFromAnnotation X [] plan)"
      by (auto simp: addToHashFromAnnotation_def Let_def split: if_splits sum.splits)
    with False Inl show ?thesis by (simp add: DigestStatus_def)
  next
    case (Inr h1)
    then have "\<not> isl (addToHashFromAnnotation X [] plan)" by (auto simp: addToHash_fields map_sum_def split: sum.splits)
    with False Inr d [of h1] sha224_hex_not_disabled show ?thesis
      by (cases "digest_secrets X secretGet (p_Namespace plan) h1 (sp_Secrets (p_Spec plan))")
        (auto simp: DigestStatus_def)
  qed
qed (simp add: DigestStatus_def)

text \<open>
  \<open>MungeVersion\<close> keeps the length of the version and every character but \<open>+\<close>, which becomes
  \<open>-\<close>; the result has no \<open>+\<close>, which a label value may not contain, and munging again changes nothing.
\<close>

lemma munge_version:
  "MungeVersion v = map (\<lambda>c. if c = CHR ''+'' then CHR ''-'' else c) v \<and>
   CHR ''+'' \<notin> set (MungeVersion v) \<and> MungeVersion (MungeVersion v) = MungeVersion v"
  by (auto simp: MungeVersion_def ReplaceAll_char)

definition channel_request :: "http_request \<Rightarrow> string \<Rightarrow> string \<Rightarrow> http_request" where
  "channel_request rq latestVersion clusterID =
     rq\<lparr>rq_Header := (\<lambda>k. if k = headerLatestVersion \<and> latestVersion \<noteq> [] then Some [latestVersion]
        else if k = headerClusterID \<and> clusterID \<noteq> [] then Some [clusterID] else rq_Header rq k)\<rparr>"

lemma channel_request_eq:
  "channel_request rq latestVersion clusterID =
     (let request1 = (if clusterID \<noteq> [] then rq\<lparr>rq_Header := (rq_Header rq)(headerClusterID \<mapsto> [clusterID])\<rparr> else rq)
      in if latestVersion \<noteq> []
         then request1\<lparr>rq_Header := (rq_Header request1)(headerLatestVersion \<mapsto> [latestVersion])\<rparr> else request1)"
  by (cases rq) (auto simp: channel_request_def Let_def fun_eq_iff headerClusterID_def headerLatestVersion_def)

lemma go_div_200: "0 \<le> c \<Longrightarrow> go_div c 200 = 1 \<longleftrightarrow> 200 \<le> c \<and> c < 400"
  by (auto simp: go_div_nonneg)

text \<open>
  C35: for a request that gets a response, \<open>ResolveChannel\<close> gives the last element of the redirect's
  location on status 302, the last element of the channel URL itself on every other status from
  200 to 399, and an error otherwise. It sends the cluster and the current version as headers
  exactly when they are not empty.
\<close>

theorem resolve_channel_result:
  assumes "http_NewRequest H url = Inr rq"
    and "http_Do H (channel_request rq latestVersion clusterID) = Inr rs" "0 \<le> rs_StatusCode rs"
  shows "ResolveChannel H url latestVersion clusterID =
    (if rs_StatusCode rs = 302 then map_sum id path_Base (rs_Location rs)
     else if rs_StatusCode rs \<in> {200..<400} then Inr (path_Base url)
     else Inl (NewError (''unexpected response: '' @ rs_Proto rs @ '' '' @ rs_Status rs)))"
  using assms unfolding channel_request_eq
  by (auto simp: ResolveChannel_def go_div_200 Let_def split: sum.splits)

theorem resolve_channel_result_witness:
  "ResolveChannel \<lparr>http_NewRequest = (\<lambda>u. Inr \<lparr>rq_URL = u, rq_Header = Map.empty\<rparr>),
      http_Do = (\<lambda>rq. if rq_Header rq headerClusterID = Some [''c1'']
         then Inr \<lparr>rs_StatusCode = 302, rs_Proto = ''HTTP/1.1'', rs_Status = ''302 Found'',
            rs_Location = Inr ''/k3s-io/k3s/releases/tag/v1.30.2+k3s1''\<rparr>
         else Inl (ExtError 1 []))\<rparr> ''https://update.k3s.io/v1-release/channels/stable'' [] ''c1''
   = Inr ''v1.30.2+k3s1''"
  (is "ResolveChannel ?H ?u [] ''c1'' = _")
proof -
  have "path_Base ''/k3s-io/k3s/releases/tag/v1.30.2+k3s1'' = ''v1.30.2+k3s1''" by code_simp
  then show ?thesis
    using resolve_channel_result [of ?H ?u "\<lparr>rq_URL = ?u, rq_Header = Map.empty\<rparr>" "[]" "''c1''"
        "\<lparr>rs_StatusCode = 302, rs_Proto = ''HTTP/1.1'', rs_Status = ''302 Found'',
            rs_Location = Inr ''/k3s-io/k3s/releases/tag/v1.30.2+k3s1''\<rparr>"]
    by (simp add: channel_request_def headerClusterID_def headerLatestVersion_def)
qed


definition drain_valid :: "('sel, 'req) extern \<Rightarrow> DrainSpec \<Rightarrow> bool" where
  "drain_valid X d \<longleftrightarrow>
     (dr_DeleteEmptydirData d = None \<or> dr_DeleteLocalData d = None) \<and>
     (\<forall>ps. dr_PodSelector d = Some ps \<longrightarrow>
        (\<exists>s. LabelSelectorAsSelector X (Some ps) = Inr s \<and> snd (sel_Requirements X s)))"

definition plan_valid :: "('sel, 'req) extern \<Rightarrow> secret_get \<Rightarrow> Plan \<Rightarrow> bool" where
  "plan_valid X secretGet plan \<longleftrightarrow>
     (\<forall>d. sp_Drain (p_Spec plan) = Some d \<longrightarrow> drain_valid X d) \<and>
     (\<forall>w. sp_Window (p_Spec plan) = Some w \<longrightarrow>
        \<not> isl (timewindow_New X (tw_Days w) (tw_StartTime w) (tw_EndTime w) (tw_TimeZone w))) \<and>
     (\<forall>delay. sp_PostCompleteDelay (p_Spec plan) = Some delay \<longrightarrow> 0 \<le> delay) \<and>
     (\<forall>s\<in>set (tracked_secrets plan). \<not> isl (secretGet (p_Namespace plan) (ss_Name s)))"

lemma validate_drain_None: "validate_drain X d = None \<longleftrightarrow> drain_valid X d"
  by (auto simp: validate_drain_def drain_valid_def split: option.splits sum.splits)

lemma secret_errors_Nil:
  "secret_errors secretGet ns ss = [] \<longleftrightarrow>
     (\<forall>s\<in>set (filter (\<lambda>s. \<not> ss_IgnoreUpdates s) ss). \<not> isl (secretGet ns (ss_Name s)))"
  by (induction ss) (auto split: sum.splits)

lemma validate_valid:
  assumes merr: "\<And>es. merr_NewErrors X es = None \<longleftrightarrow> es = []"
  shows "Validate X secretGet plan = None \<longleftrightarrow> plan_valid X secretGet plan"
proof -
  let ?spec = "p_Spec plan"
  have d: "(case sp_Drain ?spec of None \<Rightarrow> None | Some d \<Rightarrow> validate_drain X d) = None \<longleftrightarrow>
      (\<forall>d. sp_Drain ?spec = Some d \<longrightarrow> drain_valid X d)"
    by (auto simp: validate_drain_None split: option.splits)
  have w: "validate_window X w = None \<longleftrightarrow>
      \<not> isl (timewindow_New X (tw_Days w) (tw_StartTime w) (tw_EndTime w) (tw_TimeZone w))" for w
    using merr by (auto simp: validate_window_def split: sum.splits)
  have s: "merr_NewErrors X (secret_errors secretGet (p_Namespace plan) (sp_Secrets ?spec)) = None \<longleftrightarrow>
      (\<forall>s\<in>set (tracked_secrets plan). \<not> isl (secretGet (p_Namespace plan) (ss_Name s)))"
    unfolding merr by (rule secret_errors_Nil)
  show ?thesis
    unfolding Validate_def plan_valid_def Let_def s [symmetric] d [symmetric]
    by (cases "sp_Window ?spec"; cases "sp_PostCompleteDelay ?spec") (auto simp: w)
qed

text \<open>
  C27: provided that merging errors gives nil exactly for the empty list, validation accepts a plan if
  and only if its drain does not set both deletion flags and its pod selector can be used, its
  window can be built, its delay is not negative, and every secret that does not ignore updates
  exists.
\<close>

theorem validate_iff:
  assumes merr: "\<And>es. merr_NewErrors X es = None \<longleftrightarrow> es = []"
  shows "Validate X secretGet plan = None \<longleftrightarrow> plan_valid X secretGet plan"
  using assms by (rule validate_valid)

theorem validate_iff_witness:
  "Validate sample (\<lambda>ns n. Inl (ExtError 404 [])) sample_plan = None"
proof -
  have "merr_NewErrors sample es = None \<longleftrightarrow> es = []" for es by (cases es) simp_all
  from validate_iff [of sample, OF this, of "\<lambda>ns n. Inl (ExtError 404 [])" sample_plan]
  show ?thesis by (simp add: plan_valid_def sample_defs)
qed

end
