(* ===== verification/JobBuild.thy ===== *)
theory JobBuild
  imports Containers PlanOps
begin

text \<open>
  \<^verbatim>\<open>pkg/upgrade/job/job.go\<close>: the settings read from the environment when the program starts, and
  \<^verbatim>\<open>New\<close>, which builds the Job that applies a plan to a node. A nil dereference of the Go code
  is the value \<^const>\<open>None\<close>.
\<close>

subsection \<open>Settings\<close>

definition defaultBackoffLimit :: int where "defaultBackoffLimit = 2"
definition defaultActiveDeadlineSeconds :: int where "defaultActiveDeadlineSeconds = 600"
definition defaultPrivileged :: bool where "defaultPrivileged = True"
definition defaultKubectlImage :: string where "defaultKubectlImage = ''rancher/kubectl:v1.30.3''"
definition defaultImagePullPolicy :: string where "defaultImagePullPolicy = ''IfNotPresent''"
definition defaultTTLSecondsAfterFinished :: int where "defaultTTLSecondsAfterFinished = 900"
definition defaultPodReplacementPolicy :: string where "defaultPodReplacementPolicy = ''TerminatingOrFailed''"

text \<open>\<^verbatim>\<open>os.Getenv\<close>: the empty string when the variable is not set.\<close>

definition Getenv :: "environ \<Rightarrow> string \<Rightarrow> string" where
  "Getenv env k = (case env k of None \<Rightarrow> [] | Some v \<Rightarrow> v)"

text \<open>The shape the integer and boolean settings share: a value that does not parse is ignored.\<close>

definition env_int :: "environ \<Rightarrow> string \<Rightarrow> nat \<Rightarrow> int \<Rightarrow> int" where
  "env_int env k bits defaultValue =
     (case env k of
        None \<Rightarrow> defaultValue
      | Some str \<Rightarrow> (case ParseInt str bits of None \<Rightarrow> defaultValue | Some i \<Rightarrow> i))"

definition env_bool :: "environ \<Rightarrow> string \<Rightarrow> bool \<Rightarrow> bool" where
  "env_bool env k defaultValue =
     (case env k of
        None \<Rightarrow> defaultValue
      | Some str \<Rightarrow> (case ParseBool str of None \<Rightarrow> defaultValue | Some b \<Rightarrow> b))"

definition env_string :: "environ \<Rightarrow> string \<Rightarrow> string \<Rightarrow> string" where
  "env_string env k defaultValue = (if Getenv env k \<noteq> [] then Getenv env k else defaultValue)"

definition allowUserDefinedSecurityContext :: "environ \<Rightarrow> bool \<Rightarrow> bool" where
  "allowUserDefinedSecurityContext env defaultValue =
     env_bool env ''ALLOW_USER_DEFINED_SECURITY_CONTEXT'' defaultValue"

definition ActiveDeadlineSeconds :: "environ \<Rightarrow> int" where
  "ActiveDeadlineSeconds env =
     env_int env ''SYSTEM_UPGRADE_JOB_ACTIVE_DEADLINE_SECONDS'' 64 defaultActiveDeadlineSeconds"

definition ActiveDeadlineSecondsMax :: "environ \<Rightarrow> int" where
  "ActiveDeadlineSecondsMax env = env_int env ''SYSTEM_UPGRADE_JOB_ACTIVE_DEADLINE_SECONDS_MAX'' 64 0"

definition BackoffLimit :: "environ \<Rightarrow> int" where
  "BackoffLimit env = env_int env ''SYSTEM_UPGRADE_JOB_BACKOFF_LIMIT'' 32 defaultBackoffLimit"

definition KubectlImage :: "environ \<Rightarrow> string" where
  "KubectlImage env = env_string env ''SYSTEM_UPGRADE_JOB_KUBECTL_IMAGE'' defaultKubectlImage"

definition KubectlImageWindows :: "environ \<Rightarrow> string" where
  "KubectlImageWindows env = Getenv env ''SYSTEM_UPGRADE_JOB_KUBECTL_IMAGE_WINDOWS''"

definition Privileged :: "environ \<Rightarrow> bool" where
  "Privileged env = env_bool env ''SYSTEM_UPGRADE_JOB_PRIVILEGED'' defaultPrivileged"

definition AllowUserDefinedSecurityContext :: "environ \<Rightarrow> bool" where
  "AllowUserDefinedSecurityContext env = allowUserDefinedSecurityContext env True"

definition ImagePullPolicy :: "environ \<Rightarrow> string" where
  "ImagePullPolicy env = env_string env ''SYSTEM_UPGRADE_JOB_IMAGE_PULL_POLICY'' defaultImagePullPolicy"

definition TTLSecondsAfterFinished :: "environ \<Rightarrow> int" where
  "TTLSecondsAfterFinished env =
     env_int env ''SYSTEM_UPGRADE_JOB_TTL_SECONDS_AFTER_FINISH'' 32 defaultTTLSecondsAfterFinished"

definition PodReplacementPolicy :: "environ \<Rightarrow> string" where
  "PodReplacementPolicy env =
     env_string env ''SYSTEM_UPGRADE_JOB_POD_REPLACEMENT_POLICY'' defaultPodReplacementPolicy"

definition ConditionComplete :: Cond where "ConditionComplete = ''Complete''"
definition ConditionFailed :: Cond where "ConditionFailed = ''Failed''"

subsection \<open>Time to live, labels and annotations\<close>

definition job_ttl :: "('sel, 'req) extern \<Rightarrow> environ \<Rightarrow> Plan \<Rightarrow> int" where
  "job_ttl X env plan =
     (let ttlSecondsAfterFinished = TTLSecondsAfterFinished env
      in case sp_PostCompleteDelay (p_Spec plan) of
           None \<Rightarrow> ttlSecondsAfterFinished
         | Some delay \<Rightarrow>
             (let ttlPostCompleteDelay = wrap64 (delay + Minute);
                  ttlAfterFinished = wrap64 (ttlSecondsAfterFinished * Second)
              in if ttlAfterFinished < ttlPostCompleteDelay
                 then float64_to_int32 (float_oor X) (Duration_Seconds ttlPostCompleteDelay)
                 else ttlSecondsAfterFinished))"

definition annotation_kept :: "string \<Rightarrow> bool" where
  "annotation_kept key \<longleftrightarrow> \<not> Contains key ''cattle.io/'' \<and> \<not> Contains key ''kubectl.kubernetes.io/''"

definition job_annotations :: "('sel, 'req) extern \<Rightarrow> environ \<Rightarrow> Plan \<Rightarrow> (string \<rightharpoonup> string)" where
  "job_annotations X env plan =
     mrange_into annotation_kept id (p_Annotations plan)
       [AnnotationTTLSecondsAfterFinished \<mapsto> FormatInt (job_ttl X env plan)]"

definition pod_annotations :: "Plan \<Rightarrow> (string \<rightharpoonup> string)" where
  "pod_annotations plan = mrange_into annotation_kept id (p_Annotations plan) Map.empty"

definition job_labels :: "Plan \<Rightarrow> Node \<Rightarrow> string \<Rightarrow> (string \<rightharpoonup> string)" where
  "job_labels plan node controllerName =
     mrange_into (\<lambda>key. \<not> Contains key ''cattle.io/'') id (p_Labels plan)
       [LabelController \<mapsto> controllerName,
        LabelExclusive \<mapsto> FormatBool (sp_Exclusive (p_Spec plan)),
        LabelNode \<mapsto> n_Name node,
        LabelPlan \<mapsto> p_Name plan,
        LabelVersion \<mapsto> st_LatestVersion (p_Status plan),
        LabelPlanName (p_Name plan) \<mapsto> st_LatestHash (p_Status plan)]"

subsection \<open>Affinity and volumes\<close>

definition in_requirement :: "string \<Rightarrow> string \<Rightarrow> LabelSelector" where
  "in_requirement key v =
     \<lparr>ls_MatchLabels = None,
      ls_MatchExpressions = [\<lparr>lsr_Key = key, lsr_Operator = ''In'', lsr_Values = [v]\<rparr>]\<rparr>"

definition job_anti_affinity :: "Plan \<Rightarrow> PodAffinityTerm list" where
  "job_anti_affinity plan =
     (if sp_Exclusive (p_Spec plan)
      then [\<lparr>pat_LabelSelector = in_requirement LabelExclusive (FormatBool (sp_Exclusive (p_Spec plan))),
             pat_TopologyKey = LabelHostname\<rparr>]
      else [\<lparr>pat_LabelSelector = in_requirement LabelPlan (p_Name plan), pat_TopologyKey = LabelHostname\<rparr>])"

definition secret_volume :: "('sel, 'req) extern \<Rightarrow> SecretSpec \<Rightarrow> Volume" where
  "secret_volume X secret =
     \<lparr>v_Name = SafeConcatName X [''secret'', ss_Name secret],
      v_Source = SecretVolume (ss_Name secret) (ss_DefaultMode secret) (Some (ss_IgnoreUpdates secret))\<rparr>"

definition host_volume :: "VolumeSpec \<Rightarrow> Volume" where
  "host_volume v = \<lparr>v_Name = vs_Name v, v_Source = HostPath (vs_Source v) None\<rparr>"

definition job_volumes :: "('sel, 'req) extern \<Rightarrow> Plan \<Rightarrow> ContainerSpec \<Rightarrow> Volume list" where
  "job_volumes X plan upgrade =
     [\<lparr>v_Name = ''host-root'', v_Source = HostPath ''/'' (Some ''Directory'')\<rparr>,
      \<lparr>v_Name = ''pod-info'', v_Source = DownwardAPI (Some 420)
         [(''labels'', FieldRef ''metadata.labels'' ''v1''),
          (''annotations'', FieldRef ''metadata.annotations'' ''v1'')]\<rparr>]
     @ map (secret_volume X) (sp_Secrets (p_Spec plan)) @ map host_volume (cs_Volumes upgrade)"

subsection \<open>Containers\<close>

definition isWindows :: "Node \<Rightarrow> bool" where
  "isWindows node \<longleftrightarrow> mindex (n_Labels node) ''kubernetes.io/os'' = ''windows''"

definition selectedKubectlImage :: "environ \<Rightarrow> Node \<Rightarrow> string" where
  "selectedKubectlImage env node = (if isWindows node then KubectlImageWindows env else KubectlImage env)"

definition windows_sc :: SecurityContext where
  "windows_sc =
     \<lparr>sc_Privileged = None, sc_Capabilities = None,
      sc_WindowsOptions = Some \<lparr>win_GMSACredentialSpecName = None, win_GMSACredentialSpec = None,
         win_RunAsUserName = Some (''NT AUTHORITY'' @ [char_of (92::nat)] @ ''SYSTEM''), win_HostProcess = Some True\<rparr>,
      sc_Other = []\<rparr>"

text \<open>On a Windows node the security context of an init container is replaced.\<close>

definition os_sc :: "Node \<Rightarrow> Container \<Rightarrow> Container" where
  "os_sc node c = (if isWindows node then c\<lparr>c_SecurityContext := Some windows_sc\<rparr> else c)"

definition prepare_containers :: "('sel, 'req) extern \<Rightarrow> environ \<Rightarrow> Plan \<Rightarrow> Node \<Rightarrow> Container list" where
  "prepare_containers X env plan node =
     (case sp_Prepare (p_Spec plan) of
        None \<Rightarrow> []
      | Some prepare \<Rightarrow>
          [os_sc node (container_New ''prepare'' prepare
             [WithLatestTag X (st_LatestVersion (p_Status plan)),
              WithSecrets X (sp_Secrets (p_Spec plan)),
              WithPlanEnvironment (p_Name plan) (p_Status plan),
              WithImagePullPolicy (ImagePullPolicy env),
              WithVolumes (cs_Volumes prepare),
              WithSecurityContext (cs_SecurityContext prepare)])])"

text \<open>The selector text of \<^verbatim>\<open>kubectl drain\<close>: never the controller's own pods.\<close>

definition drain_pod_selector :: "('sel, 'req) extern \<Rightarrow> DrainSpec \<Rightarrow> 'sel option" where
  "drain_pod_selector X drain =
     (case NewRequirement X LabelController selection_DoesNotExist [] of
        Inl _ \<Rightarrow> None
      | Inr controllerRequirement \<Rightarrow>
          (let podSelector = sel_Add X (NewSelector X) [controllerRequirement]
           in case dr_PodSelector drain of
                None \<Rightarrow> Some podSelector
              | Some ps \<Rightarrow>
                  (case LabelSelectorAsSelector X (Some ps) of
                     Inl _ \<Rightarrow> Some podSelector
                   | Inr selector \<Rightarrow>
                       (let (requirements, ok) = sel_Requirements X selector
                        in if \<not> ok then Some podSelector else Some (sel_Add X podSelector requirements)))))"

definition or_true :: "bool option \<Rightarrow> bool" where
  "or_true b = (case b of None \<Rightarrow> True | Some v \<Rightarrow> v)"

definition drain_args :: "Node \<Rightarrow> DrainSpec \<Rightarrow> string \<Rightarrow> string list" where
  "drain_args node drain podSelector =
     [''drain'', n_Name node, ''--pod-selector'', podSelector]
     @ (if or_true (dr_IgnoreDaemonSets drain) then [''--ignore-daemonsets''] else [])
     @ (if or_true (dr_DeleteLocalData drain) \<and> or_true (dr_DeleteEmptydirData drain)
        then [''--delete-emptydir-data''] else [])
     @ (if dr_Force drain then [''--force''] else [])
     @ (case dr_Timeout drain of
          None \<Rightarrow> []
        | Some (IntVal i) \<Rightarrow> [''--timeout'', Duration_String i]
        | Some (StrVal s) \<Rightarrow> [''--timeout'', s])
     @ (case dr_GracePeriod drain of None \<Rightarrow> [] | Some g \<Rightarrow> [''--grace-period'', FormatInt g])
     @ (if dr_DisableEviction drain then [''--disable-eviction=true''] else [])
     @ (if 0 < dr_SkipWaitForDeleteTimeout drain
        then [''--skip-wait-for-delete-timeout'', FormatInt (dr_SkipWaitForDeleteTimeout drain)] else [])"

text \<open>The drain and cordon containers run kubectl and are built alike.\<close>

definition kubectl_container ::
    "('sel, 'req) extern \<Rightarrow> environ \<Rightarrow> Plan \<Rightarrow> Node \<Rightarrow> ContainerSpec \<Rightarrow> string \<Rightarrow> string list \<Rightarrow> Container" where
  "kubectl_container X env plan node upgrade name args =
     os_sc node (container_New name
       \<lparr>cs_Image = selectedKubectlImage env node, cs_Command = [], cs_Args = args, cs_Env = [], cs_EnvFrom = [],
        cs_Volumes = [], cs_SecurityContext = None\<rparr>
       [WithSecrets X (sp_Secrets (p_Spec plan)),
        WithPlanEnvironment (p_Name plan) (p_Status plan),
        WithImagePullPolicy (ImagePullPolicy env),
        WithVolumes (cs_Volumes upgrade)])"

definition cordon_drain_containers ::
    "('sel, 'req) extern \<Rightarrow> environ \<Rightarrow> Plan \<Rightarrow> Node \<Rightarrow> ContainerSpec \<Rightarrow> Container list option" where
  "cordon_drain_containers X env plan node upgrade =
     (case sp_Drain (p_Spec plan) of
        Some drain \<Rightarrow>
          (case drain_pod_selector X drain of
             None \<Rightarrow> None
           | Some podSelector \<Rightarrow>
               Some [kubectl_container X env plan node upgrade ''drain''
                       (drain_args node drain (sel_String X podSelector))])
      | None \<Rightarrow>
          (if sp_Cordon (p_Spec plan)
           then Some [kubectl_container X env plan node upgrade ''cordon'' [''cordon'', n_Name node]]
           else Some []))"

definition upgrade_sc :: "environ \<Rightarrow> Node \<Rightarrow> ContainerSpec \<Rightarrow> SecurityContext" where
  "upgrade_sc env node upgrade =
     (case cs_SecurityContext upgrade of
        Some sc \<Rightarrow> sc
      | None \<Rightarrow>
          (if isWindows node then windows_sc
           else \<lparr>sc_Privileged = Some (Privileged env),
                 sc_Capabilities = Some \<lparr>cap_Add = [''CAP_SYS_BOOT''], cap_Drop = []\<rparr>,
                 sc_WindowsOptions = None, sc_Other = []\<rparr>))"

definition upgrade_container ::
    "('sel, 'req) extern \<Rightarrow> environ \<Rightarrow> Plan \<Rightarrow> Node \<Rightarrow> ContainerSpec \<Rightarrow> Container" where
  "upgrade_container X env plan node upgrade =
     container_New ''upgrade'' upgrade
       [WithLatestTag X (st_LatestVersion (p_Status plan)),
        WithSecurityContext (Some (upgrade_sc env node upgrade)),
        WithSecrets X (sp_Secrets (p_Spec plan)),
        WithPlanEnvironment (p_Name plan) (p_Status plan),
        WithImagePullPolicy (ImagePullPolicy env),
        WithVolumes (cs_Volumes upgrade)]"

subsection \<open>Deadline\<close>

text \<open>The deadline before and after the configured maximum is applied.\<close>

definition plan_deadline :: "environ \<Rightarrow> Plan \<Rightarrow> int option" where
  "plan_deadline env plan =
     (case sp_JobActiveDeadlineSecs (p_Spec plan) of
        None \<Rightarrow> Some (ActiveDeadlineSeconds env)
      | Some d \<Rightarrow>
          if d < 0 then Some (ActiveDeadlineSeconds env) else if 0 < d then Some d else None)"

definition clamp_deadline :: "environ \<Rightarrow> int option \<Rightarrow> int option" where
  "clamp_deadline env deadline =
     (case deadline of
        None \<Rightarrow> if 0 < ActiveDeadlineSecondsMax env then Some (ActiveDeadlineSecondsMax env) else None
      | Some d \<Rightarrow>
          if 0 < ActiveDeadlineSecondsMax env \<and> ActiveDeadlineSecondsMax env < d
          then Some (ActiveDeadlineSecondsMax env) else Some d)"

text \<open>
  The check at the end of \<^verbatim>\<open>New\<close>: a drain that may take longer than the job is warned about. An integer
  timeout counts nanoseconds, a string that does not parse gives the duration 0, and the comparison is in
  milliseconds, as \<^verbatim>\<open>Duration.Milliseconds\<close> truncates them and the product on int64 gives them.
\<close>

definition Duration_Milliseconds :: "duration \<Rightarrow> int" where
  "Duration_Milliseconds d = (if d < 0 then - (- d div 1000000) else d div 1000000)"

definition drain_timeout :: "('sel, 'req) extern \<Rightarrow> IntOrString \<Rightarrow> duration" where
  "drain_timeout X t =
     (case t of
        IntVal i \<Rightarrow> i
      | StrVal s \<Rightarrow> (case ParseDuration X s of None \<Rightarrow> 0 | Some d \<Rightarrow> d))"

definition drain_timeout_warnings :: "('sel, 'req) extern \<Rightarrow> Plan \<Rightarrow> int option \<Rightarrow> string list" where
  "drain_timeout_warnings X plan deadline =
     (case (sp_Drain (p_Spec plan), deadline) of
        (Some drain, Some secs) \<Rightarrow>
          (case dr_Timeout drain of
             None \<Rightarrow> []
           | Some t \<Rightarrow>
               if wrap64 (secs * 1000) < Duration_Milliseconds (drain_timeout X t)
               then [''Plan '' @ p_Namespace plan @ ''/'' @ p_Name plan @ '' drain timeout exceeds active deadline seconds'']
               else [])
      | _ \<Rightarrow> [])"

subsection \<open>New\<close>

definition job_parallelism :: "Plan \<Rightarrow> Node \<Rightarrow> int" where
  "job_parallelism plan node = (if Hostname node \<in> set (st_Applying (p_Status plan)) then 1 else 0)"

definition job_New :: "('sel, 'req) extern \<Rightarrow> environ \<Rightarrow> Plan \<Rightarrow> Node \<Rightarrow> string \<Rightarrow> Job option" where
  "job_New X env plan node controllerName =
     (case sp_Upgrade (p_Spec plan) of
        None \<Rightarrow> None
      | Some upgrade \<Rightarrow>
          (case cordon_drain_containers X env plan node upgrade of
             None \<Rightarrow> None
           | Some cordonDrain \<Rightarrow>
               Some \<lparr>
                 job_meta = empty_meta\<lparr>
                   om_Name := SafeConcatName X [''apply'', p_Name plan, ''on'',
                     hd (SplitN2 (n_Name node) (CHR ''.'')), ''with'', st_LatestHash (p_Status plan)],
                   om_Namespace := p_Namespace plan,
                   om_Annotations := Some (job_annotations X env plan),
                   om_Labels := Some (job_labels plan node controllerName)\<rparr>,
                 job_Spec = \<lparr>
                   js_PodReplacementPolicy = Some (PodReplacementPolicy env),
                   js_BackoffLimit = Some (BackoffLimit env),
                   js_TTLSecondsAfterFinished = Some (job_ttl X env plan),
                   js_ActiveDeadlineSeconds = clamp_deadline env (plan_deadline env plan),
                   js_Completions = Some 1,
                   js_Parallelism = Some (job_parallelism plan node),
                   js_Template = \<lparr>
                     pt_meta = empty_meta\<lparr>
                       om_Annotations := Some (pod_annotations plan),
                       om_Labels := Some (job_labels plan node controllerName)\<rparr>,
                     pt_Spec = \<lparr>
                       ps_HostIPC = True, ps_HostPID = True, ps_HostNetwork = True,
                       ps_DNSPolicy = ''ClusterFirstWithHostNet'',
                       ps_PriorityClassName = sp_PriorityClassName (p_Spec plan),
                       ps_ServiceAccountName = sp_ServiceAccountName (p_Spec plan),
                       ps_NodeAffinity = [[\<lparr>nsr_Key = LabelHostname, nsr_Operator = ''In'', nsr_Values = [Hostname node]\<rparr>]],
                       ps_PodAntiAffinity = job_anti_affinity plan,
                       ps_Tolerations = \<lparr>tol_Key = TaintNodeUnschedulable, tol_Operator = ''Exists'', tol_Value = [],
                           tol_Effect = ''NoSchedule'', tol_TolerationSeconds = None\<rparr> # sp_Tolerations (p_Spec plan),
                       ps_RestartPolicy = ''Never'',
                       ps_Volumes = job_volumes X plan upgrade,
                       ps_ImagePullSecrets = sp_ImagePullSecrets (p_Spec plan),
                       ps_InitContainers = prepare_containers X env plan node @ cordonDrain,
                       ps_Containers = [upgrade_container X env plan node upgrade]\<rparr>\<rparr>\<rparr>,
                 job_Conditions = []\<rparr>))"

text \<open>\<^verbatim>\<open>New\<close> with the warnings it logs.\<close>

definition job_New_logged :: "('sel, 'req) extern \<Rightarrow> environ \<Rightarrow> Plan \<Rightarrow> Node \<Rightarrow> string \<Rightarrow> (Job \<times> string list) option" where
  "job_New_logged X env plan node controllerName =
     (case job_New X env plan node controllerName of
        None \<Rightarrow> None
      | Some job \<Rightarrow> Some (job, drain_timeout_warnings X plan (js_ActiveDeadlineSeconds (job_Spec job))))"

end
