(* ===== verification/JobContract.thy ===== *)
theory JobContract
  imports JobBuild
begin

text \<open>
  What \<^verbatim>\<open>New\<close> of \<^verbatim>\<open>pkg/upgrade/job/job.go\<close> promises of the jobs it builds: the labels the job
  handler later reads, the annotations, the deadline, the time to live, the order of the
  containers, their mounts and their environment.
\<close>

subsection \<open>The parts of a job\<close>

text \<open>The pod of a job, and all its containers in the order they run.\<close>

abbreviation job_pod :: "Job \<Rightarrow> PodSpec" where "job_pod job \<equiv> pt_Spec (js_Template (job_Spec job))"
abbreviation job_pod_labels :: "Job \<Rightarrow> gomap" where
  "job_pod_labels job \<equiv> om_Labels (pt_meta (js_Template (job_Spec job)))"

definition job_containers :: "Job \<Rightarrow> Container list" where
  "job_containers job = ps_InitContainers (job_pod job) @ ps_Containers (job_pod job)"

lemma job_New_SomeD:
  assumes "job_New X env plan node ctl = Some job"
  obtains upgrade cd where "sp_Upgrade (p_Spec plan) = Some upgrade"
    "cordon_drain_containers X env plan node upgrade = Some cd"
    "job_containers job = prepare_containers X env plan node @ cd @ [upgrade_container X env plan node upgrade]"
    "ps_InitContainers (job_pod job) = prepare_containers X env plan node @ cd"
    "ps_Volumes (job_pod job) = job_volumes X plan upgrade"
  using assms by (auto simp: job_New_def job_containers_def split: option.splits)

lemma job_New_fields [job_simps]:
  assumes "job_New X env plan node ctl = Some job"
  shows "job_Labels job = Some (job_labels plan node ctl)" "job_pod_labels job = Some (job_labels plan node ctl)"
    "job_Annotations job = Some (job_annotations X env plan)" "job_Namespace job = p_Namespace plan"
    "js_Parallelism (job_Spec job) = Some (job_parallelism plan node)"
    "js_TTLSecondsAfterFinished (job_Spec job) = Some (job_ttl X env plan)"
    "js_ActiveDeadlineSeconds (job_Spec job) = clamp_deadline env (plan_deadline env plan)"
    "job_Conditions job = []"
    "job_Name job = SafeConcatName X [''apply'', p_Name plan, ''on'',
       hd (SplitN2 (n_Name node) (CHR ''.'')), ''with'', st_LatestHash (p_Status plan)]"
    "ps_NodeAffinity (job_pod job) = [[\<lparr>nsr_Key = LabelHostname, nsr_Operator = ''In'', nsr_Values = [Hostname node]\<rparr>]]"
  using assms by (auto simp: job_New_def empty_meta_def split: option.splits)

lemma reserved_distinct:
  "LabelController \<noteq> LabelExclusive" "LabelController \<noteq> LabelNode" "LabelController \<noteq> LabelPlan"
  "LabelController \<noteq> LabelVersion" "LabelExclusive \<noteq> LabelNode" "LabelExclusive \<noteq> LabelPlan"
  "LabelExclusive \<noteq> LabelVersion" "LabelNode \<noteq> LabelPlan" "LabelNode \<noteq> LabelVersion" "LabelPlan \<noteq> LabelVersion"
  by (simp_all add: label_defs)

lemma job_labels_reserved:
  assumes "plain_elem (p_Name plan)"
  shows "job_labels plan node ctl LabelController = Some ctl"
    "job_labels plan node ctl LabelExclusive = Some (FormatBool (sp_Exclusive (p_Spec plan)))"
    "job_labels plan node ctl LabelNode = Some (n_Name node)"
    "job_labels plan node ctl LabelPlan = Some (p_Name plan)"
    "job_labels plan node ctl LabelVersion = Some (st_LatestVersion (p_Status plan))"
    "job_labels plan node ctl (LabelPlanName (p_Name plan)) = Some (st_LatestHash (p_Status plan))"
  using labels_contain_cattle LabelPlanName_contains_cattle [OF assms] LabelPlanName_distinct [OF assms] reserved_distinct
    LabelPlanName_distinct [OF assms, symmetric] reserved_distinct [symmetric]
  by (simp_all add: job_labels_def mrange_into_def)

lemma job_labels_user:
  "\<not> Contains k ''cattle.io/'' \<Longrightarrow> mget (p_Labels plan) k = Some v \<Longrightarrow> job_labels plan node ctl k = Some v"
  by (simp add: job_labels_def mrange_into_def)

lemma job_labels_cattle:
  "Contains k ''cattle.io/'' \<Longrightarrow> k \<notin> {LabelController, LabelExclusive, LabelNode, LabelPlan, LabelVersion,
     LabelPlanName (p_Name plan)} \<Longrightarrow> job_labels plan node ctl k = None"
  by (simp add: job_labels_def mrange_into_def)

lemma sample_job: "\<exists>job. job_New sample env sample_plan node ctl = Some job"
  by (simp add: job_New_def sample_defs cordon_drain_containers_def)

subsection \<open>Labels, deadline and order\<close>

text \<open>
  C33: whatever labels the plan carries, a job and its pods carry the controller's own labels with their
  true values (controller, plan, node, version, exclusive flag, and the plan's hash), the labels
  of the plan that are not in the reserved name space, and no other reserved label.
\<close>

theorem job_labels_protected:
  assumes "plain_elem (p_Name plan)" "job_New X env plan node ctl = Some job"
  shows "job_Labels job = job_pod_labels job \<and>
    mget (job_Labels job) LabelController = Some ctl \<and>
    mget (job_Labels job) LabelPlan = Some (p_Name plan) \<and>
    mget (job_Labels job) LabelNode = Some (n_Name node) \<and>
    mget (job_Labels job) LabelVersion = Some (st_LatestVersion (p_Status plan)) \<and>
    mget (job_Labels job) LabelExclusive = Some (FormatBool (sp_Exclusive (p_Spec plan))) \<and>
    mget (job_Labels job) (LabelPlanName (p_Name plan)) = Some (st_LatestHash (p_Status plan)) \<and>
    (\<forall>k v. \<not> Contains k ''cattle.io/'' \<and> mget (p_Labels plan) k = Some v \<longrightarrow> mget (job_Labels job) k = Some v) \<and>
    (\<forall>k. Contains k ''cattle.io/'' \<and> k \<notin> {LabelController, LabelExclusive, LabelNode, LabelPlan, LabelVersion,
       LabelPlanName (p_Name plan)} \<longrightarrow> mget (job_Labels job) k = None)"
  using job_labels_reserved [OF assms(1)] job_labels_user job_labels_cattle
  by (simp add: job_New_fields [OF assms(2)])

theorem job_labels_protected_witness:
  "\<exists>job. job_New sample (\<lambda>_. None)
      (sample_plan\<lparr>p_meta := (p_meta sample_plan)\<lparr>om_Labels := Some [LabelNode \<mapsto> ''forged'']\<rparr>\<rparr>)
      (sample_node ''a'' ''ha'') ''suc'' = Some job \<and> mget (job_Labels job) LabelNode = Some ''a''"
  (is "\<exists>job. job_New sample _ ?plan ?node _ = Some job \<and> _")
proof -
  obtain job where job: "job_New sample (\<lambda>_. None) ?plan ?node ''suc'' = Some job"
    by (auto simp: job_New_def sample_defs cordon_drain_containers_def)
  have "plain_elem (p_Name ?plan)" by (simp add: sample_defs plain_k3s)
  from job_labels_protected [OF this job] job show ?thesis by (auto simp: sample_node_def empty_meta_def)
qed

text \<open>
  The deadline of a job: with a configured maximum there always is one and it is at most the
  maximum; a positive deadline of the plan within the maximum is used as it is; there is no
  deadline exactly when the plan asks for none and no maximum is configured.
\<close>

lemma job_deadline:
  assumes "job_New X env plan node ctl = Some job"
  shows "(0 < ActiveDeadlineSecondsMax env \<longrightarrow>
       (\<exists>d. js_ActiveDeadlineSeconds (job_Spec job) = Some d \<and> d \<le> ActiveDeadlineSecondsMax env)) \<and>
     (\<forall>d. sp_JobActiveDeadlineSecs (p_Spec plan) = Some d \<and> 0 < d \<and>
        (0 < ActiveDeadlineSecondsMax env \<longrightarrow> d \<le> ActiveDeadlineSecondsMax env) \<longrightarrow>
        js_ActiveDeadlineSeconds (job_Spec job) = Some d) \<and>
     (js_ActiveDeadlineSeconds (job_Spec job) = None \<longleftrightarrow>
        sp_JobActiveDeadlineSecs (p_Spec plan) = Some 0 \<and> ActiveDeadlineSecondsMax env \<le> 0)"
  unfolding job_New_fields [OF assms]
  by (auto simp: clamp_deadline_def plan_deadline_def split: option.splits)

text \<open>
  When a job is built with a warning: exactly when the plan drains with a timeout that is longer, in whole
  milliseconds, than a deadline whose milliseconds fit into int64.
\<close>

lemma job_warning_iff:
  assumes "job_New_logged X env plan node ctl = Some (job, warnings)"
    and "js_ActiveDeadlineSeconds (job_Spec job) = Some secs" "int64 (secs * 1000)"
  shows "warnings \<noteq> [] \<longleftrightarrow> (\<exists>drain t. sp_Drain (p_Spec plan) = Some drain \<and> dr_Timeout drain = Some t \<and>
       secs * 1000 < Duration_Milliseconds (drain_timeout X t))"
  using assms by (auto simp: job_New_logged_def drain_timeout_warnings_def wrap64_id split: option.splits if_splits)

lemma job_warning_needs_deadline:
  assumes "job_New_logged X env plan node ctl = Some (job, warnings)" "js_ActiveDeadlineSeconds (job_Spec job) = None"
  shows "warnings = []"
  using assms by (auto simp: job_New_logged_def drain_timeout_warnings_def split: option.splits)

text \<open>
  An integer timeout is an int32 count of nanoseconds, less than 2.2 seconds: it never exceeds a deadline of three seconds
  or more, so such a plan is never warned about.
\<close>

lemma integer_timeout_never_warned:
  assumes "job_New_logged X env plan node ctl = Some (job, warnings)"
    and "js_ActiveDeadlineSeconds (job_Spec job) = Some secs" "3 \<le> secs" "int64 (secs * 1000)"
    and "sp_Drain (p_Spec plan) = Some drain" "dr_Timeout drain = Some (IntVal i)" "int32 i"
  shows "warnings = []"
proof -
  have "Duration_Milliseconds i \<le> 2147"
    using assms(7) by (auto simp: Duration_Milliseconds_def int32_iff)
  with assms(3,5,6) job_warning_iff [OF assms(1,2,4)] show ?thesis by (auto simp: drain_timeout_def)
qed

text \<open>
  The product with 1000 wraps around: a plan with the deadline of 10 000 000 000 000 000 seconds (some 300 million years)
  is warned that its drain timeout of one second exceeds it.
\<close>

lemma huge_deadline_warned:
  assumes "ActiveDeadlineSecondsMax env \<le> 0" "sp_JobActiveDeadlineSecs (p_Spec plan) = Some 10000000000000000"
    and "sp_Drain (p_Spec plan) = Some drain" "dr_Timeout drain = Some (StrVal s)" "ParseDuration X s = Some 1000000000"
    and "job_New_logged X env plan node ctl = Some (job, warnings)"
  shows "length warnings = 1"
proof -
  have "wrap64 (10000000000000000 * 1000) < 1000" by (simp add: wrap_signed_def)
  moreover have "js_ActiveDeadlineSeconds (job_Spec job) = Some 10000000000000000"
    using job_New_fields(7) [of X env plan node ctl job] assms(1,2,6)
    by (auto simp: job_New_logged_def plan_deadline_def clamp_deadline_def split: option.splits)
  ultimately show ?thesis
    using assms(3-6) by (auto simp: job_New_logged_def drain_timeout_warnings_def drain_timeout_def Duration_Milliseconds_def split: option.splits)
qed

text \<open>
  The containers of a job run in the order prepare, then drain or else cordon, then upgrade, each
  present exactly when the plan asks for it (a drain makes the cordon superfluous), and the pod
  is bound to the hostname of the node.
\<close>

lemma job_container_order:
  assumes "job_New X env plan node ctl = Some job"
  shows "map c_Name (ps_InitContainers (job_pod job)) =
       (if sp_Prepare (p_Spec plan) \<noteq> None then [''prepare''] else []) @
       (if sp_Drain (p_Spec plan) \<noteq> None then [''drain''] else if sp_Cordon (p_Spec plan) then [''cordon''] else []) \<and>
     map c_Name (ps_Containers (job_pod job)) = [''upgrade''] \<and>
     ps_NodeAffinity (job_pod job) = [[\<lparr>nsr_Key = LabelHostname, nsr_Operator = ''In'', nsr_Values = [Hostname node]\<rparr>]]"
proof -
  have n: "c_Name (container_New nm sp os) = nm" if "confined os" for nm sp os
    using container_New_base(1) [OF that] .
  show ?thesis
    using assms
    by (auto simp: job_New_def cordon_drain_containers_def prepare_containers_def kubectl_container_def
        upgrade_container_def os_sc_def n confined_known split: option.splits if_splits)
qed

lemma job_New_None_iff:
  "job_New X env plan node ctl = None \<longleftrightarrow>
     sp_Upgrade (p_Spec plan) = None \<or>
     (sp_Drain (p_Spec plan) \<noteq> None \<and> isl (NewRequirement X LabelController selection_DoesNotExist []))"
  by (auto simp: job_New_def cordon_drain_containers_def drain_pod_selector_def Let_def
      split: option.splits sum.splits prod.splits if_splits)

subsection \<open>Time to live\<close>

lemma env_int_range: "int32 d \<Longrightarrow> int32 (env_int env k 32 d)"
  by (auto simp: env_int_def split: option.splits dest: ParseInt_range)

lemma TTLSecondsAfterFinished_range: "int32 (TTLSecondsAfterFinished env)"
  unfolding TTLSecondsAfterFinished_def by (rule env_int_range) (simp add: defaultTTLSecondsAfterFinished_def int32_iff)

text \<open>The delays for which the computation of the time to live stays in the range of its types.\<close>

definition delay_fits :: "duration \<Rightarrow> bool" where
  "delay_fits d \<longleftrightarrow> 0 \<le> d \<and> (d + Minute) div Second < 2147483647"

lemma delay_fits_int64: "delay_fits d \<Longrightarrow> int64 (d + Minute)"
  by (auto simp: delay_fits_def int64_iff)

lemma job_ttl_bounds:
  assumes "sp_PostCompleteDelay (p_Spec plan) = Some d" "delay_fits d"
  shows "(d + Minute) div Second \<le> job_ttl X env plan" "int32 (job_ttl X env plan)"
proof -
  let ?t = "TTLSecondsAfterFinished env"
  have t: "wrap64 (?t * Second) = ?t * Second"
    using TTLSecondsAfterFinished_range [of env] by (intro wrap64_id) (simp add: int32_iff int64_iff)
  have w: "wrap64 (d + Minute) = d + Minute" by (rule wrap64_id [OF delay_fits_int64 [OF assms(2)]])
  have d0: "0 \<le> d + Minute" using assms(2) by (simp add: delay_fits_def)
  note tr = trunc_Duration_Seconds [OF d0 delay_fits_int64 [OF assms(2)]]
  define q where "q = (d + Minute) div Second"
  have q: "0 \<le> q" "q < 2147483647"
    using assms(2) d0 by (simp_all add: q_def delay_fits_def pos_imp_zdiv_nonneg_iff)
  then have in32: "int32 (trunc_rat (Duration_Seconds (d + Minute)))"
    using tr unfolding q_def [symmetric] int32_iff by linarith
  have big: "q \<le> ?t" if "\<not> ?t * Second < d + Minute"
    using zdiv_mono1 [of "d + Minute" "?t * Second" Second] that by (simp add: q_def)
  show "(d + Minute) div Second \<le> job_ttl X env plan"
    using assms(1) t w tr(1) in32 big by (simp add: job_ttl_def Let_def float64_to_int32_def q_def)
  show "int32 (job_ttl X env plan)"
    using assms(1) t w in32 TTLSecondsAfterFinished_range [of env]
    by (simp add: job_ttl_def Let_def float64_to_int32_def)
qed

text \<open>
  C26: for a delay whose seconds fit the type of the time to live, the time to live of the job exceeds the
  delay by more than 59 seconds, so the controller sees a finished job once its delay has passed.
\<close>

theorem job_ttl_covers_delay:
  assumes "job_New X env plan node ctl = Some job"
    and "sp_PostCompleteDelay (p_Spec plan) = Some d" "delay_fits d"
  shows "\<exists>ttl. js_TTLSecondsAfterFinished (job_Spec job) = Some ttl \<and> int32 ttl \<and> d + Minute - Second < ttl * Second"
proof -
  have "(d + Minute) div Second * Second > d + Minute - Second"
    using div_mult_mod_eq [of "d + Minute" Second] pos_mod_bound [of Second "d + Minute"] by linarith
  with job_ttl_bounds [OF assms(2,3), where X = X and env = env] show ?thesis
    unfolding job_New_fields [OF assms(1)] by (smt (verit) mult_right_mono)
qed

theorem job_ttl_covers_delay_witness:
  "\<exists>job ttl. job_New sample (\<lambda>_. None)
      (sample_plan\<lparr>p_Spec := sample_spec\<lparr>sp_PostCompleteDelay := Some (1800 * Second + 500000000)\<rparr>\<rparr>)
      (sample_node ''a'' ''ha'') ''suc'' = Some job \<and>
     js_TTLSecondsAfterFinished (job_Spec job) = Some ttl \<and> 1800 * Second + 500000000 < ttl * Second"
  (is "\<exists>job ttl. job_New sample _ ?plan ?node _ = Some job \<and> _")
proof -
  obtain job where job: "job_New sample (\<lambda>_. None) ?plan ?node ''suc'' = Some job"
    using job_New_None_iff [of sample "\<lambda>_. None" ?plan ?node "''suc''"] by (auto simp: sample_defs)
  have "sp_PostCompleteDelay (p_Spec ?plan) = Some (1800 * Second + 500000000)"
    "delay_fits (1800 * Second + 500000000)"
    by (simp_all add: delay_fits_def)
  from job_ttl_covers_delay [OF job this] job show ?thesis by fastforce
qed

text \<open>A delay with a fraction of a second: the time to live is less than a minute longer.\<close>

lemma job_ttl_under_a_minute:
  assumes "TTLSecondsAfterFinished env = 900" "sp_PostCompleteDelay (p_Spec plan) = Some (1800 * Second + 500000000)"
  shows "job_ttl X env plan * Second < 1800 * Second + 500000000 + Minute"
proof -
  have "trunc_rat (Duration_Seconds (1860 * Second + 500000000)) = 1860" by code_simp
  then show ?thesis using assms by (simp add: job_ttl_def wrap64_id int64_iff float64_to_int32_def int32_iff)
qed

subsection \<open>Draining\<close>

lemma drain_pod_selector_excludes:
  assumes "labels_ok X" "drain_pod_selector X drain = Some s" "sel_Matches X s L"
  shows "mget L LabelController = None"
  using assms labels_ok_reqs(4) [OF assms(1), of LabelController "[]" _ L]
  by (auto simp: drain_pod_selector_def Let_def labels_ok_Add split: sum.splits option.splits prod.splits if_splits)

text \<open>
  C32: a drain never evicts the pods of an upgrade: the selector text that the drain container passes to
  kubectl is that of a selector which matches no pod with the controller label, so none of the
  pods of any job the controller builds, for whatever plan and node.
\<close>

theorem drain_spares_upgrade_pods:
  assumes "labels_ok X" "job_New X env plan node ctl = Some job" "sp_Drain (p_Spec plan) = Some drain"
    and "job_New X env' plan' node' ctl' = Some job'" "plain_elem (p_Name plan')"
  shows "\<exists>s c. drain_pod_selector X drain = Some s \<and> c \<in> set (ps_InitContainers (job_pod job)) \<and>
     take 4 (c_Args c) = [''drain'', n_Name node, ''--pod-selector'', sel_String X s] \<and>
     \<not> sel_Matches X s (job_pod_labels job')"
proof -
  obtain upgrade cd where cd: "cordon_drain_containers X env plan node upgrade = Some cd"
    and ic: "ps_InitContainers (job_pod job) = prepare_containers X env plan node @ cd"
    using job_New_SomeD [OF assms(2)] by metis
  obtain s where s: "drain_pod_selector X drain = Some s"
    and cd1: "cd = [kubectl_container X env plan node upgrade ''drain'' (drain_args node drain (sel_String X s))]"
    using cd assms(3) by (auto simp: cordon_drain_containers_def split: option.splits)
  have "c_Args (hd cd) = drain_args node drain (sel_String X s)"
    by (simp add: cd1 kubectl_container_def os_sc_def container_New_base(3) confined_known)
  then have "take 4 (c_Args (hd cd)) = [''drain'', n_Name node, ''--pod-selector'', sel_String X s]"
    by (simp add: drain_args_def)
  moreover have "hd cd \<in> set (ps_InitContainers (job_pod job))" by (simp add: ic cd1)
  moreover have "\<not> sel_Matches X s (job_pod_labels job')"
    using drain_pod_selector_excludes [OF assms(1) s, of "job_pod_labels job'"] job_labels_reserved(1) [OF assms(5)]
    by (auto simp: job_New_fields [OF assms(4)])
  ultimately show ?thesis using s by blast
qed

definition sample_drain :: DrainSpec where
  "sample_drain = \<lparr>dr_Timeout = None, dr_GracePeriod = None, dr_DeleteLocalData = None, dr_DeleteEmptydirData = None,
     dr_IgnoreDaemonSets = None, dr_Force = True, dr_DisableEviction = False, dr_SkipWaitForDeleteTimeout = 0,
     dr_PodSelector = None\<rparr>"

definition draining_plan :: Plan where
  "draining_plan = sample_plan\<lparr>p_Spec := sample_spec\<lparr>sp_Drain := Some sample_drain\<rparr>\<rparr>"

lemma draining_job: obtains job where "job_New sample env draining_plan node ctl = Some job"
  using job_New_None_iff [of sample env draining_plan node ctl]
  by (auto simp: draining_plan_def sample_spec_def)

theorem drain_spares_upgrade_pods_witness:
  "\<exists>job s. job_New sample (\<lambda>_. None) draining_plan (sample_node ''a'' ''ha'') ''suc'' = Some job \<and>
     drain_pod_selector sample sample_drain = Some s \<and> \<not> sel_Matches sample s (job_pod_labels job)"
proof -
  obtain job where job: "job_New sample (\<lambda>_. None) draining_plan (sample_node ''a'' ''ha'') ''suc'' = Some job"
    by (rule draining_job)
  have "sp_Drain (p_Spec draining_plan) = Some sample_drain" "plain_elem (p_Name draining_plan)"
    by (simp_all add: draining_plan_def sample_plan_def empty_meta_def plain_k3s)
  from drain_spares_upgrade_pods [OF sample_labels_ok job this(1) job this(2)] job show ?thesis by blast
qed

subsection \<open>Volumes\<close>

lemma upgrade_mounts:
  "c_VolumeMounts (upgrade_container X env plan node upgrade) =
     base_mounts @ map (secret_mount X) (sp_Secrets (p_Spec plan)) @ map volume_mount (cs_Volumes upgrade)"
  by (simp add: upgrade_container_def container_New_def option_eqs container_base_def)

lemma kubectl_mounts:
  "c_VolumeMounts (kubectl_container X env plan node upgrade name args) =
     base_mounts @ map (secret_mount X) (sp_Secrets (p_Spec plan)) @ map volume_mount (cs_Volumes upgrade)"
  by (simp add: kubectl_container_def os_sc_def container_New_def option_eqs container_base_def)

lemma prepare_mounts:
  assumes "c \<in> set (prepare_containers X env plan node)"
  obtains prepare where "sp_Prepare (p_Spec plan) = Some prepare" "c_VolumeMounts c =
     base_mounts @ map (secret_mount X) (sp_Secrets (p_Spec plan)) @ map volume_mount (cs_Volumes prepare)"
proof (cases "sp_Prepare (p_Spec plan)")
  case (Some prepare)
  with assms show ?thesis
    by (intro that [of prepare])
      (simp_all add: prepare_containers_def os_sc_def container_New_def option_eqs container_base_def)
qed (use assms in \<open>simp add: prepare_containers_def\<close>)

lemma cordon_drain_mounts:
  assumes "cordon_drain_containers X env plan node upgrade = Some cd" "c \<in> set cd"
  shows "c_VolumeMounts c =
     base_mounts @ map (secret_mount X) (sp_Secrets (p_Spec plan)) @ map volume_mount (cs_Volumes upgrade)"
  using assms by (auto simp: cordon_drain_containers_def kubectl_mounts split: option.splits if_splits)

lemma volume_names:
  "v_Name ` set (job_volumes X plan upgrade) =
     vm_Name ` set (base_mounts @ map (secret_mount X) (sp_Secrets (p_Spec plan)) @ map volume_mount (cs_Volumes upgrade))"
  by (simp add: job_volumes_def base_mounts_def secret_volume_def secret_mount_def host_volume_def volume_mount_def
      image_Un image_image)

text \<open>
  Every container of a job but the prepare container mounts only volumes of the pod, and so does the
  prepare container if the volumes of its spec are also volumes of the upgrade container.
\<close>

lemma job_mounts_have_volumes:
  assumes "job_New X env plan node ctl = Some job" "sp_Upgrade (p_Spec plan) = Some upgrade"
    and "\<forall>prepare. sp_Prepare (p_Spec plan) = Some prepare \<longrightarrow>
       vs_Name ` set (cs_Volumes prepare) \<subseteq> vs_Name ` set (cs_Volumes upgrade)"
  shows "\<forall>c\<in>set (job_containers job). \<forall>m\<in>set (c_VolumeMounts c). vm_Name m \<in> v_Name ` set (ps_Volumes (job_pod job))"
proof -
  obtain u cd where u: "sp_Upgrade (p_Spec plan) = Some u" and cd: "cordon_drain_containers X env plan node u = Some cd"
    and cs: "job_containers job = prepare_containers X env plan node @ cd @ [upgrade_container X env plan node u]"
    and vs: "ps_Volumes (job_pod job) = job_volumes X plan u"
    using job_New_SomeD [OF assms(1)] by metis
  have "vm_Name m \<in> v_Name ` set (job_volumes X plan u)" if "c \<in> set cd" "m \<in> set (c_VolumeMounts c)" for c m
    using that(2) unfolding cordon_drain_mounts [OF cd that(1)] volume_names by (rule imageI)
  moreover have "vm_Name m \<in> v_Name ` set (job_volumes X plan u)"
    if "c \<in> set (prepare_containers X env plan node)" "m \<in> set (c_VolumeMounts c)" for c m
    using that(1)
  proof (rule prepare_mounts)
    fix prepare assume p: "sp_Prepare (p_Spec plan) = Some prepare" "c_VolumeMounts c =
     base_mounts @ map (secret_mount X) (sp_Secrets (p_Spec plan)) @ map volume_mount (cs_Volumes prepare)"
    have "vm_Name ` set (map volume_mount (cs_Volumes prepare)) \<subseteq> vm_Name ` set (map volume_mount (cs_Volumes u))"
      using assms(2,3) u p(1) by (auto simp: volume_mount_def image_image)
    moreover have "vm_Name m \<in> vm_Name ` set (c_VolumeMounts c)" using that(2) by (rule imageI)
    ultimately show ?thesis unfolding p(2) volume_names set_append image_Un by blast
  qed
  moreover have "vm_Name m \<in> v_Name ` set (job_volumes X plan u)"
    if "m \<in> set (c_VolumeMounts (upgrade_container X env plan node u))" for m
    using that unfolding upgrade_mounts volume_names by (rule imageI)
  ultimately show ?thesis unfolding cs vs by auto
qed

text \<open>A volume that only the prepare container names is mounted there but is not a volume of the pod.\<close>

definition preparing_plan :: Plan where
  "preparing_plan = sample_plan\<lparr>p_Spec := sample_spec\<lparr>sp_Prepare := map_option
     (\<lambda>u. u\<lparr>cs_Volumes := [\<lparr>vs_Name = ''data'', vs_Source = ''/data'', vs_Destination = ''/data''\<rparr>]\<rparr>) (sp_Upgrade sample_spec)\<rparr>\<rparr>"

lemma prepare_volume_missing:
  assumes "job_New sample env preparing_plan node ctl = Some job"
  shows "\<exists>c\<in>set (job_containers job). \<exists>m\<in>set (c_VolumeMounts c). vm_Name m = ''data'' \<and>
     ''data'' \<notin> v_Name ` set (ps_Volumes (job_pod job))"
proof -
  obtain u cd where u: "sp_Upgrade (p_Spec preparing_plan) = Some u"
    and cs: "job_containers job = prepare_containers sample env preparing_plan node @ cd @
       [upgrade_container sample env preparing_plan node u]"
    and vs: "ps_Volumes (job_pod job) = job_volumes sample preparing_plan u"
    using job_New_SomeD [OF assms] by metis
  obtain c where c: "c \<in> set (prepare_containers sample env preparing_plan node)"
    by (auto simp: prepare_containers_def preparing_plan_def sample_spec_def)
  from c have "\<exists>m\<in>set (c_VolumeMounts c). vm_Name m = ''data''"
    by (rule prepare_mounts) (auto simp: preparing_plan_def sample_spec_def volume_mount_def)
  moreover have "''data'' \<notin> v_Name ` set (job_volumes sample preparing_plan u)"
    using u unfolding volume_names by (auto simp: preparing_plan_def sample_spec_def base_mounts_def)
  ultimately show ?thesis unfolding cs vs using c by auto
qed

subsection \<open>Names and settings\<close>

text \<open>
  The name of a job holds the node's name only up to its first dot: two nodes that differ after
  it get jobs of the same name.
\<close>

lemma job_name_collision:
  assumes "job_New X env plan node ctl = Some job" "job_New X env plan node' ctl = Some job'"
    and "n_Name node = host @ ''.'' @ d1" "n_Name node' = host @ ''.'' @ d2" "CHR ''.'' \<notin> set host"
  shows "job_Name job = job_Name job'"
proof -
  have "takeWhile (\<lambda>c. c \<noteq> CHR ''.'') (host @ CHR ''.'' # ds) = host" for ds
    using assms(5) by (subst takeWhile_append2) auto
  then show ?thesis
    using job_New_fields(9) [OF assms(1)] job_New_fields(9) [OF assms(2)] assms(3,4) by (simp add: hd_SplitN2)
qed

text \<open>The setting that is read to allow or forbid user-defined security contexts changes no job.\<close>

lemma security_context_setting_ignored:
  "job_New X (env(''ALLOW_USER_DEFINED_SECURITY_CONTEXT'' := v)) plan node ctl = job_New X env plan node ctl"
proof -
  let ?e = "env(''ALLOW_USER_DEFINED_SECURITY_CONTEXT'' := v)"
  have s: "ActiveDeadlineSeconds ?e = ActiveDeadlineSeconds env" "ActiveDeadlineSecondsMax ?e = ActiveDeadlineSecondsMax env"
    "BackoffLimit ?e = BackoffLimit env" "KubectlImage ?e = KubectlImage env"
    "KubectlImageWindows ?e = KubectlImageWindows env" "Privileged ?e = Privileged env"
    "ImagePullPolicy ?e = ImagePullPolicy env" "TTLSecondsAfterFinished ?e = TTLSecondsAfterFinished env"
    "PodReplacementPolicy ?e = PodReplacementPolicy env"
    by (simp_all add: ActiveDeadlineSeconds_def ActiveDeadlineSecondsMax_def BackoffLimit_def KubectlImage_def
        KubectlImageWindows_def Privileged_def ImagePullPolicy_def TTLSecondsAfterFinished_def PodReplacementPolicy_def
        env_int_def env_bool_def env_string_def Getenv_def)
  show ?thesis
    by (simp only: job_New_def job_annotations_def job_ttl_def cordon_drain_containers_def prepare_containers_def
        kubectl_container_def upgrade_container_def upgrade_sc_def selectedKubectlImage_def clamp_deadline_def
        plan_deadline_def s)
qed

subsection \<open>Annotations and environment\<close>

text \<open>
  The annotations of a job are those of the plan outside the two reserved name spaces and the time
  to live in decimal, which reads back as the job's time to live; in particular the plan's own
  reserved annotations, such as a forged time to live, never reach the job.
\<close>

lemma job_annotations_protected:
  assumes "job_New X env plan node ctl = Some job" "int32 (job_ttl X env plan)"
  shows "mget (job_Annotations job) k =
     (if k = AnnotationTTLSecondsAfterFinished then Some (FormatInt (job_ttl X env plan))
      else if Contains k ''cattle.io/'' \<or> Contains k ''kubectl.kubernetes.io/'' then None else mget (p_Annotations plan) k) \<and>
    (\<exists>a. mget (job_Annotations job) AnnotationTTLSecondsAfterFinished = Some a \<and>
       ParseInt a 32 = js_TTLSecondsAfterFinished (job_Spec job))"
  using labels_contain_cattle(6) ParseInt_FormatInt [OF assms(2)]
  by (auto simp: job_New_fields [OF assms(1)] job_annotations_def mrange_into_def annotation_kept_def
      split: option.splits)

text \<open>
  Every container of a job ends its environment with the name of the plan, its hash and its
  version, after the node and pod variables and the variables of its spec.
\<close>

lemma job_environment:
  assumes "job_New X env plan node ctl = Some job" "c \<in> set (job_containers job)"
  shows "\<exists>own. c_Env c = base_env @ own @
     [plain_env ''SYSTEM_UPGRADE_PLAN_NAME'' (p_Name plan),
      plain_env ''SYSTEM_UPGRADE_PLAN_LATEST_HASH'' (st_LatestHash (p_Status plan)),
      plain_env ''SYSTEM_UPGRADE_PLAN_LATEST_VERSION'' (st_LatestVersion (p_Status plan))]"
proof -
  obtain u cd where cd: "cordon_drain_containers X env plan node u = Some cd"
    and cs: "job_containers job = prepare_containers X env plan node @ cd @ [upgrade_container X env plan node u]"
    using job_New_SomeD [OF assms(1)] by metis
  let ?P = "\<lambda>c. \<exists>own. c_Env c = base_env @ own @
     [plain_env ''SYSTEM_UPGRADE_PLAN_NAME'' (p_Name plan),
      plain_env ''SYSTEM_UPGRADE_PLAN_LATEST_HASH'' (st_LatestHash (p_Status plan)),
      plain_env ''SYSTEM_UPGRADE_PLAN_LATEST_VERSION'' (st_LatestVersion (p_Status plan))]"
  have k: "?P (kubectl_container X env plan node u nm args)" for nm args
    by (simp add: kubectl_container_def os_sc_def container_New_def option_eqs container_base_def)
  have "?P (upgrade_container X env plan node u)"
    by (simp add: upgrade_container_def container_New_def option_eqs container_base_def)
  moreover have "?P c" if "c \<in> set cd" for c
    using cd that k by (auto simp: cordon_drain_containers_def split: option.splits if_splits)
  moreover have "?P c" if "c \<in> set (prepare_containers X env plan node)" for c
    using that by (cases "sp_Prepare (p_Spec plan)")
      (simp_all add: prepare_containers_def os_sc_def container_New_def option_eqs container_base_def)
  ultimately show ?thesis using assms(2) unfolding cs by auto
qed

end
