(* ===== verification/Effects.thy ===== *)
theory Effects
  imports JobContract
begin

text \<open>
  What a handler does to the world, as a list of effects in program order, and the answers of the
  world to it. A handler invocation is a function of the answers; the cluster-wide theories apply
  the effects to a state.
\<close>

subsection \<open>Effects\<close>

text \<open>
  \<open>NodeWritten n\<close> is a write through the pointer that \<^verbatim>\<open>nodes.Cache().Get\<close> handed out, with the
  node as it is after the write; the other constructors are the calls of the same names.
\<close>

datatype effect =
    Event (ev_type: string) (ev_reason: string) (ev_message: string)
  | PlanEnqueue string string
  | PlanEnqueueAfter string string duration
  | JobEnqueueAfter string string duration
  | JobDelete string string string
  | PlanUpdateStatus Plan
  | NodeWritten Node
  | NodeUpdate Node
  | ApplyObjects Plan "Job list"

abbreviation EventTypeNormal :: string where "EventTypeNormal \<equiv> ''Normal''"
abbreviation EventTypeWarning :: string where "EventTypeWarning \<equiv> ''Warning''"
abbreviation DeletePropagationBackground :: string where "DeletePropagationBackground \<equiv> ''Background''"

text \<open>A handler returns an error or none, or it panics.\<close>

datatype outcome = Returned "go_error option" | Panicked

subsection \<open>Answers\<close>

text \<open>
  What the API server, the caches and the clock answer during one invocation of the job handler.
  The clock is read twice at most: \<open>now\<close> first and, in \<^verbatim>\<open>enqueueOrDelete\<close>, \<open>now_ttl\<close>.
\<close>

record job_world =
  plans_Get :: "string \<Rightarrow> string \<Rightarrow> Plan result"
  plans_UpdateStatus :: "Plan \<Rightarrow> Plan result"
  nodes_Cache_Get :: "string \<Rightarrow> Node result"
  nodes_Update :: "Node \<Rightarrow> Node result"
  jobs_Delete :: "string \<Rightarrow> string \<Rightarrow> go_error option"
  now :: instant
  now_ttl :: instant

text \<open>Go's \<^verbatim>\<open>%q\<close> on text without special characters.\<close>

definition quoted :: "string \<Rightarrow> string" where
  "quoted s = [char_of (34::nat)] @ s @ [char_of (34::nat)]"

end
