(* ===== verification/Selection.thy ===== *)
theory Selection
  imports PlanOps
begin

text \<open>
  What \<^verbatim>\<open>SelectConcurrentNodes\<close> of \<^verbatim>\<open>pkg/upgrade/plan/plan.go\<close> promises: the interface of the node
  cache it lists from, the specification of a selection, and the proof that the code computes
  it; then the facts the plan handlers rely on.
\<close>

subsection \<open>The node cache interface\<close>

text \<open>
  A listing of a cache that holds \<open>nodes\<close>: the nodes whose labels match the selector, each as
  often as the cache holds it, in any order.
\<close>

locale node_cache =
  fixes matches :: "'sel \<Rightarrow> gomap \<Rightarrow> bool"
    and nodeList :: "'sel node_list"
    and nodes :: "Node list"
  assumes list_matching: "\<exists>ns. nodeList s = Inr ns \<and> mset ns = mset (filter (\<lambda>n. matches s (n_Labels n)) nodes)"
begin

lemma list_total: "nodeList s \<noteq> Inl e"
  using list_matching [of s] by auto

lemma list_mset: "nodeList s = Inr ns \<Longrightarrow> mset ns = mset (filter (\<lambda>n. matches s (n_Labels n)) nodes)"
  using list_matching [of s] by auto

lemma list_set: "nodeList s = Inr ns \<Longrightarrow> set ns = {n \<in> set nodes. matches s (n_Labels n)}"
  using list_mset [of s ns] by (metis mset_eq_setD set_filter)

lemma list_obtain:
  obtains ns where "nodeList s = Inr ns" "mset ns = mset (filter (\<lambda>n. matches s (n_Labels n)) nodes)"
  using list_matching by blast

end

text \<open>The cache of the model: a list of nodes, filtered.\<close>

definition cache_List :: "('sel, 'req) extern \<Rightarrow> Node list \<Rightarrow> 'sel node_list" where
  "cache_List X nodes s = Inr (filter (\<lambda>n. sel_Matches X s (n_Labels n)) nodes)"

interpretation model_cache: node_cache "sel_Matches X" "cache_List X nodes" nodes for X nodes
  by unfold_locales (simp add: cache_List_def)

subsection \<open>What the selection computes\<close>

definition eligible :: "('sel, 'req) extern \<Rightarrow> Plan \<Rightarrow> Node \<Rightarrow> bool" where
  "eligible X plan n \<longleftrightarrow>
     (case LabelSelectorAsSelector X (sp_NodeSelector (p_Spec plan)) of
        Inl _ \<Rightarrow> False | Inr s \<Rightarrow> sel_Matches X s (n_Labels n)) \<and>
     mget (n_Labels n) LabelHostname \<noteq> None \<and>
     mget (n_Labels n) (LabelPlanName (p_Name plan)) \<noteq> Some ''disabled'' \<and>
     mget (n_Labels n) (LabelPlanName (p_Name plan)) \<noteq> Some (st_LatestHash (p_Status plan))"

definition is_applying :: "Plan \<Rightarrow> Node \<Rightarrow> bool" where
  "is_applying plan n \<longleftrightarrow> Hostname n \<in> set (st_Applying (p_Status plan))"

abbreviation held :: "('sel, 'req) extern \<Rightarrow> Plan \<Rightarrow> Node list \<Rightarrow> Node list" where
  "held X plan nodes \<equiv> filter (\<lambda>n. eligible X plan n \<and> is_applying plan n) nodes"

abbreviation waiting :: "('sel, 'req) extern \<Rightarrow> Plan \<Rightarrow> Node list \<Rightarrow> Node list" where
  "waiting X plan nodes \<equiv> filter (\<lambda>n. eligible X plan n \<and> \<not> is_applying plan n) nodes"

text \<open>
  The specification of a selection: keep every eligible node that is being worked on, fill the
  remaining slots with the waiting nodes in the order of their sums, and order the result by name.
\<close>

definition select_spec :: "('sel, 'req) extern \<Rightarrow> Plan \<Rightarrow> Node list \<Rightarrow> Node list" where
  "select_spec X plan nodes =
     sort_key n_Name (held X plan nodes @
       take (nat (sp_Concurrency (p_Spec plan) - int (length (held X plan nodes))))
         (sort_key (candidate_sum plan) (waiting X plan nodes)))"

lemma append_candidates_take:
  "append_candidates c sel ns = sel @ take (nat (c - int (length sel))) ns"
proof (induction c sel ns rule: append_candidates.induct)
  case (2 c sel n ns)
  show ?case
  proof (cases "int (length sel) < c")
    case True
    then have "nat (c - int (length sel)) = Suc (nat (c - int (length (sel @ [n]))))" by simp
    with True 2 show ?thesis by simp
  qed simp
qed simp

lemma mset_filter_conv: "(\<And>x. x \<in> set xs \<Longrightarrow> P x \<longleftrightarrow> Q x) \<Longrightarrow> mset (filter P xs) = mset (filter Q xs)"
  by (metis filter_cong)

lemma Hostname_of_label: "mget (n_Labels n) LabelHostname \<noteq> None \<Longrightarrow>
    mget (n_Labels n) LabelHostname = Some v \<longleftrightarrow> Hostname n = v"
  using Hostname_label by fastforce

text \<open>The selector built by \<open>NodeSelector\<close> and the plan requirement is \<open>eligible\<close>.\<close>

lemma selector_eligible:
  assumes "labels_ok X" "NodeSelector X plan = Inr s0"
    "NewRequirement X (LabelPlanName (p_Name plan)) selection_NotIn [''disabled'', st_LatestHash (p_Status plan)] = Inr r"
  shows "sel_Matches X (sel_Add X s0 [r]) (n_Labels n) \<longleftrightarrow> eligible X plan n"
  using assms labels_ok_reqs(2) [OF assms(1,3), of "n_Labels n"] labels_ok_reqs(3) [OF assms(1), of LabelHostname "[]" _ "n_Labels n"]
  by (auto simp: NodeSelector_def eligible_def labels_ok_Add split: sum.splits)

lemma applying_label:
  assumes "eligible X plan n"
  shows "(\<exists>v\<in>set (st_Applying (p_Status plan)). mget (n_Labels n) LabelHostname = Some v) \<longleftrightarrow> is_applying plan n"
  using assms Hostname_of_label [of n] by (auto simp: eligible_def is_applying_def)

text \<open>
  What \<open>select_applying\<close> gives from a selector for the eligible nodes: the held nodes, and a
  selector for the waiting ones.
\<close>

lemma select_applying_core:
  assumes X: "labels_ok X" and C: "node_cache (sel_Matches X) nodeList nodes"
    and el: "\<And>n. sel_Matches X s (n_Labels n) \<longleftrightarrow> eligible X plan n"
    and ap: "select_applying X nodeList (st_Applying (p_Status plan)) s = Inr (hs, s1)"
  shows "mset hs = mset (held X plan nodes)"
    and "sel_Matches X s1 (n_Labels n) \<longleftrightarrow> eligible X plan n \<and> \<not> is_applying plan n"
proof -
  let ?ap = "st_Applying (p_Status plan)"
  have "mset hs = mset (held X plan nodes) \<and>
      (sel_Matches X s1 (n_Labels n) \<longleftrightarrow> eligible X plan n \<and> \<not> is_applying plan n)" for n
  proof (cases "?ap = []")
    case True
    with ap el show ?thesis by (auto simp: select_applying_def is_applying_def)
  next
    case False
    with ap obtain ra rn where ra: "NewRequirement X LabelHostname selection_In ?ap = Inr ra"
      and hs: "nodeList (sel_Add X s [ra]) = Inr hs"
      and rn: "NewRequirement X LabelHostname selection_NotIn ?ap = Inr rn"
      and s1: "s1 = sel_Add X s [rn]"
      by (auto simp: select_applying_def split: sum.splits)
    have "sel_Matches X (sel_Add X s [ra]) (n_Labels m) \<longleftrightarrow> eligible X plan m \<and> is_applying plan m" for m
      using labels_ok_Add [OF X, of s "[ra]"] el labels_ok_reqs(1) [OF X ra] applying_label [of X plan m] by auto
    moreover have "sel_Matches X s1 (n_Labels m) \<longleftrightarrow> eligible X plan m \<and> \<not> is_applying plan m" for m
      using labels_ok_Add [OF X, of s "[rn]"] el labels_ok_reqs(2) [OF X rn] applying_label [of X plan m]
      unfolding s1 by auto
    ultimately show ?thesis using node_cache.list_mset [OF C hs] by simp
  qed
  then show "mset hs = mset (held X plan nodes)"
    "sel_Matches X s1 (n_Labels n) \<longleftrightarrow> eligible X plan n \<and> \<not> is_applying plan n" by blast+
qed

text \<open>
  The core lemma: a successful selection is a sorting of the held nodes and the first waiting
  nodes in the order of their sums.
\<close>

lemma select_core:
  assumes X: "labels_ok X" and C: "node_cache (sel_Matches X) nodeList nodes"
    and sel: "SelectConcurrentNodes X nodeList plan = Inr sel"
  obtains hs ws where "mset hs = mset (held X plan nodes)" "mset ws = mset (waiting X plan nodes)"
    "sel = sort_key n_Name (hs @ take (nat (sp_Concurrency (p_Spec plan) - int (length hs)))
       (sort_key (candidate_sum plan) ws))"
proof -
  let ?room = "\<lambda>hs. nat (sp_Concurrency (p_Spec plan) - int (length hs))"
  from sel obtain s0 r hs s1 where s0: "NodeSelector X plan = Inr s0"
    and r: "NewRequirement X (LabelPlanName (p_Name plan)) selection_NotIn [''disabled'', st_LatestHash (p_Status plan)] = Inr r"
    and ap: "select_applying X nodeList (st_Applying (p_Status plan)) (sel_Add X s0 [r]) = Inr (hs, s1)"
    by (auto simp: SelectConcurrentNodes_def split: sum.splits)
  note core = select_applying_core [OF X C selector_eligible [OF X s0 r] ap]
  show ?thesis
  proof (cases "int (length hs) < sp_Concurrency (p_Spec plan)")
    case True
    obtain ws where ws: "nodeList s1 = Inr ws" "mset ws = mset (waiting X plan nodes)"
      using node_cache.list_obtain [OF C, of s1] core(2) by (metis (no_types, lifting) filter_cong)
    have "sel = sort_key n_Name (hs @ take (?room hs) (sort_key (candidate_sum plan) ws))"
      using sel s0 r ap True ws by (simp add: SelectConcurrentNodes_def append_candidates_take)
    with core(1) ws show ?thesis by (intro that) auto
  next
    case False
    then have "sel = sort_key n_Name (hs @ take (?room hs) (sort_key (candidate_sum plan) (waiting X plan nodes)))"
      using sel s0 r ap by (simp add: SelectConcurrentNodes_def)
    with core(1) show ?thesis by (intro that) auto
  qed
qed

lemma set_eq_of_mset: "mset xs = mset ys \<Longrightarrow> set xs = set ys"
  by (metis set_mset_mset)

lemma set_room: "set (take k (sort_key f ws)) \<subseteq> set ws"
  by (metis set_sort set_take_subset)

lemma select_subset:
  assumes "labels_ok X" "node_cache (sel_Matches X) nodeList nodes" "SelectConcurrentNodes X nodeList plan = Inr sel"
    and n: "n \<in> set sel"
  shows "n \<in> set nodes \<and> eligible X plan n"
proof -
  obtain hs ws where hs: "mset hs = mset (held X plan nodes)" and ws: "mset ws = mset (waiting X plan nodes)"
    and eq: "sel = sort_key n_Name (hs @ take (nat (sp_Concurrency (p_Spec plan) - int (length hs)))
       (sort_key (candidate_sum plan) ws))"
    by (rule select_core [OF assms(1-3)])
  have "n \<in> set hs \<or> n \<in> set ws" using n set_room unfolding eq by fastforce
  then show ?thesis using set_eq_of_mset [OF hs] set_eq_of_mset [OF ws] by auto
qed

lemma select_keeps_held:
  assumes "labels_ok X" "node_cache (sel_Matches X) nodeList nodes" "SelectConcurrentNodes X nodeList plan = Inr sel"
    and "n \<in> set nodes" "eligible X plan n" "is_applying plan n"
  shows "n \<in> set sel"
proof -
  obtain hs ws where hs: "mset hs = mset (held X plan nodes)"
    and eq: "sel = sort_key n_Name (hs @ take (nat (sp_Concurrency (p_Spec plan) - int (length hs)))
       (sort_key (candidate_sum plan) ws))"
    by (rule select_core [OF assms(1-3)])
  have "n \<in> set hs" using set_eq_of_mset [OF hs] assms(4-6) by simp
  then show ?thesis unfolding eq by simp
qed

lemma length_eligible:
  "length (filter (eligible X plan) nodes) = length (held X plan nodes) + length (waiting X plan nodes)"
  by (induction nodes) auto

lemma select_length:
  assumes "labels_ok X" "node_cache (sel_Matches X) nodeList nodes" "SelectConcurrentNodes X nodeList plan = Inr sel"
  shows "int (length sel) = max (int (length (held X plan nodes)))
     (min (sp_Concurrency (p_Spec plan)) (int (length (filter (eligible X plan) nodes))))"
proof -
  obtain hs ws where hs: "mset hs = mset (held X plan nodes)" and ws: "mset ws = mset (waiting X plan nodes)"
    and eq: "sel = sort_key n_Name (hs @ take (nat (sp_Concurrency (p_Spec plan) - int (length hs)))
       (sort_key (candidate_sum plan) ws))"
    by (rule select_core [OF assms(1-3)])
  have len: "length hs = length (held X plan nodes)" "length ws = length (waiting X plan nodes)"
    using hs ws by (metis size_mset)+
  have "length sel = length hs + min (length ws) (nat (sp_Concurrency (p_Spec plan) - int (length hs)))"
    unfolding eq by simp
  then show ?thesis unfolding length_eligible len by linarith
qed

lemma select_none_iff:
  assumes "labels_ok X" "node_cache (sel_Matches X) nodeList nodes" "SelectConcurrentNodes X nodeList plan = Inr sel"
  shows "sel = [] \<longleftrightarrow> (\<forall>n\<in>set nodes. \<not> eligible X plan n) \<or>
     (sp_Concurrency (p_Spec plan) < 1 \<and> (\<forall>n\<in>set nodes. eligible X plan n \<longrightarrow> \<not> is_applying plan n))"
proof -
  have z: "length (filter P nodes) = 0 \<longleftrightarrow> (\<forall>n\<in>set nodes. \<not> P n)" for P by (simp add: filter_empty_conv)
  have "length sel = 0 \<longleftrightarrow> length (filter (eligible X plan) nodes) = 0 \<or>
      (sp_Concurrency (p_Spec plan) < 1 \<and> length (held X plan nodes) = 0)"
    using select_length [OF assms] length_eligible [of X plan nodes] by linarith
  then show ?thesis unfolding z by auto
qed

lemma select_sorted:
  assumes "SelectConcurrentNodes X nodeList plan = Inr sel"
  shows "sorted (map n_Name sel)"
  using assms by (auto simp: SelectConcurrentNodes_def split: sum.splits if_splits prod.splits)

lemma select_determined_eligible:
  assumes "labels_ok X" "node_cache (sel_Matches X) nodeList nodes" "SelectConcurrentNodes X nodeList plan = Inr sel"
    and "inj_on n_Name {n \<in> set nodes. eligible X plan n}" "inj_on (candidate_sum plan) {n \<in> set nodes. eligible X plan n}"
  shows "sel = select_spec X plan nodes"
proof -
  obtain hs ws where hs: "mset hs = mset (held X plan nodes)" and ws: "mset ws = mset (waiting X plan nodes)"
    and eq: "sel = sort_key n_Name (hs @ take (nat (sp_Concurrency (p_Spec plan) - int (length hs)))
       (sort_key (candidate_sum plan) ws))"
    by (rule select_core [OF assms(1-3)])
  have sets: "set hs \<subseteq> {n \<in> set nodes. eligible X plan n}" "set ws \<subseteq> {n \<in> set nodes. eligible X plan n}"
    using set_eq_of_mset [OF hs] set_eq_of_mset [OF ws] by auto
  have "sort_key (candidate_sum plan) ws = sort_key (candidate_sum plan) (waiting X plan nodes)"
    using ws assms(5) sets by (intro sort_key_mset_cong) (auto intro: inj_on_subset)
  moreover have "length hs = length (held X plan nodes)" using hs by (metis size_mset)
  moreover have "inj_on n_Name (set (hs @ take k (sort_key (candidate_sum plan) ws)))" for k
    using assms(4) by (rule inj_on_subset) (use sets set_room in fastforce)
  ultimately show ?thesis
    unfolding eq select_spec_def by (intro sort_key_mset_cong) (auto simp: hs)
qed

lemma select_determined:
  assumes "labels_ok X" "node_cache (sel_Matches X) nodeList nodes" "SelectConcurrentNodes X nodeList plan = Inr sel"
    and "inj_on n_Name (set nodes)" "inj_on (candidate_sum plan) (set nodes)"
  shows "sel = select_spec X plan nodes"
  using assms(4,5) by (intro select_determined_eligible [OF assms(1-3)]) (auto intro: inj_on_subset)

text \<open>The specification looks at the eligible nodes only.\<close>

lemma select_spec_eligible: "filter (eligible X plan) ms = filter (eligible X plan) ns \<Longrightarrow> select_spec X plan ms = select_spec X plan ns"
proof -
  assume "filter (eligible X plan) ms = filter (eligible X plan) ns"
  then have "filter P (filter (eligible X plan) ms) = filter P (filter (eligible X plan) ns)" for P by simp
  then show ?thesis by (simp add: select_spec_def conj_commute)
qed

text \<open>A selection fails only when a selector or a requirement cannot be built.\<close>

definition selectors_ok :: "('sel, 'req) extern \<Rightarrow> Plan \<Rightarrow> bool" where
  "selectors_ok X plan \<longleftrightarrow>
     \<not> isl (LabelSelectorAsSelector X (sp_NodeSelector (p_Spec plan))) \<and>
     \<not> isl (NewRequirement X LabelHostname selection_Exists []) \<and>
     \<not> isl (NewRequirement X (LabelPlanName (p_Name plan)) selection_NotIn [''disabled'', st_LatestHash (p_Status plan)]) \<and>
     (st_Applying (p_Status plan) \<noteq> [] \<longrightarrow>
       \<not> isl (NewRequirement X LabelHostname selection_In (st_Applying (p_Status plan))) \<and>
       \<not> isl (NewRequirement X LabelHostname selection_NotIn (st_Applying (p_Status plan))))"

lemma not_isl_obtain: "\<not> isl x \<Longrightarrow> \<exists>v. x = Inr v"
  by (cases x) auto

lemma select_applying_total:
  assumes C: "node_cache (sel_Matches X) nodeList nodes"
    and "applying \<noteq> [] \<longrightarrow> \<not> isl (NewRequirement X LabelHostname selection_In applying) \<and>
       \<not> isl (NewRequirement X LabelHostname selection_NotIn applying)"
  shows "\<exists>hs s1. select_applying X nodeList applying s = Inr (hs, s1)"
proof (cases "applying = []")
  case False
  with assms(2) obtain ra rn where "NewRequirement X LabelHostname selection_In applying = Inr ra"
    "NewRequirement X LabelHostname selection_NotIn applying = Inr rn"
    using not_isl_obtain by blast
  moreover obtain hs where "nodeList (sel_Add X s [ra]) = Inr hs"
    using node_cache.list_obtain [OF C] by blast
  ultimately show ?thesis by (simp add: select_applying_def)
qed (simp add: select_applying_def)

lemma select_total:
  assumes C: "node_cache (sel_Matches X) nodeList nodes" and ok: "selectors_ok X plan"
  shows "\<exists>sel. SelectConcurrentNodes X nodeList plan = Inr sel"
proof -
  obtain s where "LabelSelectorAsSelector X (sp_NodeSelector (p_Spec plan)) = Inr s"
    using ok not_isl_obtain unfolding selectors_ok_def by blast
  moreover obtain rh where "NewRequirement X LabelHostname selection_Exists [] = Inr rh"
    using ok not_isl_obtain unfolding selectors_ok_def by blast
  ultimately have s0: "NodeSelector X plan = Inr (sel_Add X s [rh])" by (simp add: NodeSelector_def)
  obtain r where r: "NewRequirement X (LabelPlanName (p_Name plan)) selection_NotIn
      [''disabled'', st_LatestHash (p_Status plan)] = Inr r"
    using ok not_isl_obtain unfolding selectors_ok_def by blast
  obtain hs s1 where ap: "select_applying X nodeList (st_Applying (p_Status plan)) (sel_Add X (sel_Add X s [rh]) [r]) = Inr (hs, s1)"
    using select_applying_total [OF C] ok unfolding selectors_ok_def by blast
  obtain ws where "nodeList s1 = Inr ws" using node_cache.list_obtain [OF C] by blast
  with s0 r ap show ?thesis by (simp add: SelectConcurrentNodes_def)
qed

lemma select_priority:
  assumes "labels_ok X" "node_cache (sel_Matches X) nodeList nodes" "SelectConcurrentNodes X nodeList plan = Inr sel"
    and n: "n \<in> set sel" "\<not> is_applying plan n"
    and m: "m \<in> set nodes" "eligible X plan m" "m \<notin> set sel"
  shows "candidate_sum plan n \<le> candidate_sum plan m"
proof -
  obtain hs ws where hs: "mset hs = mset (held X plan nodes)" and ws: "mset ws = mset (waiting X plan nodes)"
    and eq: "sel = sort_key n_Name (hs @ take (nat (sp_Concurrency (p_Spec plan) - int (length hs)))
       (sort_key (candidate_sum plan) ws))"
    by (rule select_core [OF assms(1-3)])
  let ?k = "nat (sp_Concurrency (p_Spec plan) - int (length hs))" and ?s = "sort_key (candidate_sum plan) ws"
  have "m \<notin> set hs" "n \<notin> set hs" using m n set_eq_of_mset [OF hs] unfolding eq by auto
  then have nt: "n \<in> set (take ?k ?s)" using n unfolding eq by auto
  have "m \<in> set ?s" using m \<open>m \<notin> set hs\<close> set_eq_of_mset [OF ws] set_eq_of_mset [OF hs] by auto
  moreover have "m \<notin> set (take ?k ?s)" using m unfolding eq by auto
  ultimately have "m \<in> set (drop ?k ?s)" by (metis UnE append_take_drop_id set_append)
  moreover have "sorted (map (candidate_sum plan) (take ?k ?s @ drop ?k ?s))" by simp
  ultimately show ?thesis using nt unfolding map_append sorted_append by auto
qed

definition with_applying :: "Plan \<Rightarrow> Node list \<Rightarrow> Plan" where
  "with_applying plan sel = plan\<lparr>p_Status := (p_Status plan)\<lparr>st_Applying := map Hostname sel\<rparr>\<rparr>"

lemma with_applying_simps [simp]:
  "eligible X (with_applying plan sel) = eligible X plan"
  "candidate_sum (with_applying plan sel) = candidate_sum plan"
  "p_Spec (with_applying plan sel) = p_Spec plan" "p_meta (with_applying plan sel) = p_meta plan"
  by (simp_all add: with_applying_def eligible_def candidate_sum_def fun_eq_iff)

lemma mset_filter_distinct:
  "distinct xs \<Longrightarrow> distinct ys \<Longrightarrow> (\<And>x. x \<in> set ys \<longleftrightarrow> x \<in> set xs \<and> P x) \<Longrightarrow> mset (filter P xs) = mset ys"
  by (rule set_eq_iff_mset_eq_distinct [THEN iffD1]) auto

lemma select_spec_distinct: "distinct nodes \<Longrightarrow> distinct (select_spec X plan nodes)"
  unfolding select_spec_def
  by (auto simp: distinct_sort dest: in_set_takeD)

lemma select_spec_set:
  "set (select_spec X plan nodes) \<subseteq> {n \<in> set nodes. eligible X plan n}"
  "{n \<in> set nodes. eligible X plan n \<and> is_applying plan n} \<subseteq> set (select_spec X plan nodes)"
  unfolding select_spec_def by (auto dest: in_set_takeD)

lemma select_spec_length:
  "int (length (select_spec X plan nodes)) = max (int (length (held X plan nodes)))
     (min (sp_Concurrency (p_Spec plan)) (int (length (filter (eligible X plan) nodes))))"
  unfolding select_spec_def length_eligible by simp

lemma select_spec_room:
  assumes "int (length (select_spec X plan nodes)) < sp_Concurrency (p_Spec plan)"
  shows "set (select_spec X plan nodes) = {n \<in> set nodes. eligible X plan n}"
proof -
  let ?h = "held X plan nodes" and ?w = "sort_key (candidate_sum plan) (waiting X plan nodes)"
  have "length ?w \<le> nat (sp_Concurrency (p_Spec plan) - int (length ?h))"
    using assms select_spec_length [of X plan nodes] length_eligible [of X plan nodes] by (simp add: min_def max_def split: if_splits)
  then have "select_spec X plan nodes = sort_key n_Name (?h @ ?w)" by (simp add: select_spec_def)
  then show ?thesis by auto
qed

text \<open>Selecting again, with the hostnames of a selection as the applying list, gives the selection.\<close>

lemma select_spec_stable:
  assumes d: "distinct nodes" and names: "inj_on n_Name (set nodes)" and hosts: "inj_on Hostname (set nodes)"
  shows "select_spec X (with_applying plan (select_spec X plan nodes)) nodes = select_spec X plan nodes"
proof -
  let ?sel = "select_spec X plan nodes"
  let ?plan = "with_applying plan ?sel"
  have sub: "set ?sel \<subseteq> {n \<in> set nodes. eligible X plan n}" by (rule select_spec_set)
  have ap: "is_applying ?plan n \<longleftrightarrow> n \<in> set ?sel" if "n \<in> set nodes" for n
    using that sub inj_onD [OF hosts] by (fastforce simp: is_applying_def with_applying_def)
  have "x \<in> set ?sel \<longleftrightarrow> x \<in> set nodes \<and> eligible X ?plan x \<and> is_applying ?plan x" for x
    using sub ap by auto
  then have held: "mset (held X ?plan nodes) = mset ?sel"
    by (intro mset_filter_distinct d select_spec_distinct [OF d]) auto
  have rest: "take (nat (sp_Concurrency (p_Spec plan) - int (length ?sel)))
      (sort_key (candidate_sum plan) (filter (\<lambda>n. eligible X plan n \<and> \<not> is_applying ?plan n) nodes)) = []"
  proof (cases "int (length ?sel) < sp_Concurrency (p_Spec plan)")
    case True
    have "waiting X ?plan nodes = []"
      using select_spec_room [OF True] ap by (auto simp: filter_empty_conv)
    then show ?thesis by simp
  qed simp
  have len: "length (held X ?plan nodes) = length ?sel" using held by (metis size_mset)
  have "select_spec X ?plan nodes = sort_key n_Name (held X ?plan nodes)"
    unfolding select_spec_def [of X ?plan] len unfolding with_applying_simps rest by simp
  also have "\<dots> = ?sel"
    using held names sub
    by (intro sorted_map_unique [of _ _ n_Name]) (auto simp: select_spec_def [of X plan] intro: inj_on_subset)
  finally show ?thesis .
qed

lemma select_again:
  assumes "labels_ok X" "node_cache (sel_Matches X) nodeList nodes" "SelectConcurrentNodes X nodeList plan = Inr sel"
    and "selectors_ok X (with_applying plan sel)" "distinct nodes" "inj_on n_Name (set nodes)"
    and "inj_on Hostname (set nodes)" "inj_on (candidate_sum plan) (set nodes)"
  shows "SelectConcurrentNodes X nodeList (with_applying plan sel) = Inr sel"
proof -
  have sel: "sel = select_spec X plan nodes"
    using select_determined [OF assms(1-3,6,8)] .
  obtain sel' where "SelectConcurrentNodes X nodeList (with_applying plan sel) = Inr sel'"
    using select_total [OF assms(2,4)] by blast
  moreover from this have "sel' = select_spec X (with_applying plan sel) nodes"
    using assms(6,8) by (intro select_determined [OF assms(1,2)]) simp_all
  ultimately show ?thesis using select_spec_stable [OF assms(5-7)] sel by simp
qed

subsection \<open>A cluster for the witnesses\<close>

definition two_nodes :: "Node list" where
  "two_nodes = [sample_node ''a'' ''ha'', sample_node ''b'' ''hb'']"

lemma two_nodes_sums:
  "candidate_sum sample_plan (sample_node ''a'' ''ha'') < candidate_sum sample_plan (sample_node ''b'' ''hb'')"
  by code_simp

lemma two_nodes_facts:
  "inj_on n_Name (set two_nodes)" "inj_on Hostname (set two_nodes)" "distinct two_nodes"
  "inj_on (candidate_sum sample_plan) (set two_nodes)"
  using two_nodes_sums
  by (auto simp: two_nodes_def sample_node_def Hostname_def LabelHostname_def empty_meta_def)

lemma two_nodes_cache: "node_cache (sel_Matches sample) (cache_List sample two_nodes) two_nodes"
  by (rule model_cache.node_cache_axioms)

lemma sample_selectors_ok: "p_Spec plan = sample_spec \<Longrightarrow> selectors_ok sample plan"
  by (simp add: selectors_ok_def sample_spec_def all_nodes_def)

lemma sample_eligible: "n \<in> set two_nodes \<Longrightarrow> eligible sample sample_plan n"
  using LabelPlanName_distinct(6) [OF plain_k3s]
  by (auto simp: eligible_def two_nodes_def sample_defs)

lemma sample_not_applying: "\<not> is_applying sample_plan n"
  by (simp add: is_applying_def sample_plan_def)

lemma sample_plan_ok: "selectors_ok sample sample_plan"
  by (rule sample_selectors_ok) (simp add: sample_plan_def)

lemma sample_select: obtains sel
  where "SelectConcurrentNodes sample (cache_List sample two_nodes) sample_plan = Inr sel"
  using select_total [OF two_nodes_cache sample_plan_ok] by blast

lemma sample_select_spec: "select_spec sample sample_plan two_nodes = [sample_node ''a'' ''ha'']"
  using sample_eligible two_nodes_sums
  by (simp add: select_spec_def sample_not_applying two_nodes_def) (simp add: sample_defs)

subsection \<open>Properties\<close>

text \<open>
  C1: on every cluster whose nodes have distinct names and distinct sums, the selection succeeds and
  is exactly the specification: the eligible nodes already being worked on, then the waiting
  eligible nodes in the order of their sums while there is room, ordered by name. In particular
  it does not depend on the order in which the cache lists the nodes.
\<close>

theorem select_refines_spec:
  assumes "labels_ok X" "node_cache (sel_Matches X) nodeList nodes" "selectors_ok X plan"
    and "inj_on n_Name (set nodes)" "inj_on (candidate_sum plan) (set nodes)"
  shows "SelectConcurrentNodes X nodeList plan = Inr (select_spec X plan nodes)"
  using select_total [OF assms(2,3)] select_determined [OF assms(1,2) _ assms(4,5)] by auto

theorem select_refines_spec_witness:
  "SelectConcurrentNodes sample (cache_List sample two_nodes) sample_plan = Inr [sample_node ''a'' ''ha'']"
  using select_refines_spec [OF sample_labels_ok two_nodes_cache sample_plan_ok two_nodes_facts(1,4)]
  by (simp add: sample_select_spec)

text \<open>
  C12: the number of selected nodes is exactly the larger of the number of eligible nodes already being
  worked on and the smaller of the concurrency and the number of eligible nodes. So the
  concurrency is never exceeded by starting new nodes, and no slot is left empty while an
  eligible node waits.
\<close>

theorem select_fills_concurrency:
  assumes "labels_ok X" "node_cache (sel_Matches X) nodeList nodes" "SelectConcurrentNodes X nodeList plan = Inr sel"
  shows "int (length sel) = max (int (length (held X plan nodes)))
     (min (sp_Concurrency (p_Spec plan)) (int (length (filter (eligible X plan) nodes))))"
  using assms by (rule select_length)

theorem select_fills_concurrency_witness:
  "\<exists>sel. SelectConcurrentNodes sample (cache_List sample two_nodes) sample_plan = Inr sel \<and> length sel = 1"
proof -
  obtain sel where sel: "SelectConcurrentNodes sample (cache_List sample two_nodes) sample_plan = Inr sel"
    by (rule sample_select)
  have "filter (eligible sample sample_plan) two_nodes = two_nodes" using sample_eligible by simp
  then have "length sel = 1"
    using select_fills_concurrency [OF sample_labels_ok two_nodes_cache sel]
    by (simp add: sample_not_applying two_nodes_def) (simp add: sample_defs)
  with sel show ?thesis by blast
qed

text \<open>
  Every selected node is in the cluster and eligible: it matches the plan's selector, has a hostname
  label, and its label for the plan is neither \<open>disabled\<close> nor the plan's latest hash. Every
  eligible node being worked on stays selected. A node that was newly taken precedes, in the
  order of the sums, every eligible node that was left out.
\<close>

lemma select_sound_and_fair:
  assumes "labels_ok X" "node_cache (sel_Matches X) nodeList nodes" "SelectConcurrentNodes X nodeList plan = Inr sel"
  shows "set sel \<subseteq> {n \<in> set nodes. eligible X plan n} \<and>
     {n \<in> set nodes. eligible X plan n \<and> is_applying plan n} \<subseteq> set sel \<and>
     (\<forall>n\<in>set sel. \<forall>m\<in>set nodes. \<not> is_applying plan n \<and> eligible X plan m \<and> m \<notin> set sel \<longrightarrow>
       candidate_sum plan n \<le> candidate_sum plan m)"
  using select_subset [OF assms] select_keeps_held [OF assms] select_priority [OF assms] by blast

text \<open>
  The selection is stable: once the hostnames of the selected nodes are the plan's applying list, a
  second selection on the same cluster gives the same nodes, so a second pass over the plan
  unpauses the jobs the first one created.
\<close>

lemma select_second_pass:
  assumes "labels_ok X" "node_cache (sel_Matches X) nodeList nodes" "SelectConcurrentNodes X nodeList plan = Inr sel"
    and "selectors_ok X (with_applying plan sel)" "distinct nodes" "inj_on n_Name (set nodes)"
    and "inj_on Hostname (set nodes)" "inj_on (candidate_sum plan) (set nodes)"
  shows "SelectConcurrentNodes X nodeList (with_applying plan sel) = Inr sel"
  using assms by (rule select_again)

end
