(* ===== verification/HandleUpgrade.thy ===== *)
theory HandleUpgrade
  imports Effects Selection
begin

text \<open>
  \<^verbatim>\<open>pkg/upgrade/handle_upgrade.go\<close>: the two handlers of plan events. The first validates the plan,
  resolves its version and digests it; the second selects nodes, builds their jobs and keeps the
  list of nodes being worked on.

  Both are called with the plan \<open>obj\<close> and, by value, a copy \<open>status\<close> of its status. The copy shares
  the array of conditions with the plan: a write to an existing condition is seen in both, but an
  appended condition moves the plan to a new array (the slice comes from \<^verbatim>\<open>DeepCopy\<close>, so its
  capacity is its length), and from then on the copy no longer follows. The state of a handler
  records this sharing.
\<close>

record hstate =
  h_obj :: Plan
  h_status :: PlanStatus
  h_shared :: bool

definition enter :: "Plan \<Rightarrow> hstate" where
  "enter obj = \<lparr>h_obj = obj, h_status = p_Status obj, h_shared = True\<rparr>"

abbreviation h_Conditions :: "hstate \<Rightarrow> conds" where "h_Conditions s \<equiv> p_Conditions (h_obj s)"

text \<open>Running an operation of a condition on the plan.\<close>

definition on_obj :: "(conds \<Rightarrow> conds) \<Rightarrow> hstate \<Rightarrow> hstate" where
  "on_obj f s =
     (let cs = f (h_Conditions s);
          obj' = (h_obj s)\<lparr>p_Status := (p_Status (h_obj s))\<lparr>st_Conditions := cs\<rparr>\<rparr>
      in if length cs \<noteq> length (h_Conditions s) then s\<lparr>h_obj := obj', h_shared := False\<rparr>
         else if h_shared s then s\<lparr>h_obj := obj', h_status := (h_status s)\<lparr>st_Conditions := cs\<rparr>\<rparr>
         else s\<lparr>h_obj := obj'\<rparr>)"

definition set_LatestVersion :: "string \<Rightarrow> hstate \<Rightarrow> hstate" where
  "set_LatestVersion v s = s\<lparr>h_obj := (h_obj s)\<lparr>p_Status := (p_Status (h_obj s))\<lparr>st_LatestVersion := v\<rparr>\<rparr>\<rparr>"

definition set_Applying :: "string list \<Rightarrow> hstate \<Rightarrow> hstate" where
  "set_Applying a s = s\<lparr>h_obj := (h_obj s)\<lparr>p_Status := (p_Status (h_obj s))\<lparr>st_Applying := a\<rparr>\<rparr>\<rparr>"

text \<open>What a handler leaves: its effects, the plan as it mutated it, the status and error it returns.\<close>

record handled =
  ho_effects :: "effect list"
  ho_obj :: Plan
  ho_status :: PlanStatus
  ho_err :: "go_error option"

definition ErrPlanNotReady :: go_error where "ErrPlanNotReady = NewError ''plan is not valid and resolved''"
definition ErrOutsideWindow :: go_error where
  "ErrOutsideWindow = NewError ''current time is not within configured window''"

text \<open>The answers of the world to the plan handlers.\<close>

record 'sel plan_world =
  pw_secretGet :: secret_get
  pw_nodeList :: "'sel node_list"
  pw_http :: http_client
  pw_now :: instant

subsection \<open>The status handler\<close>

definition return_digest :: "('sel, 'req) extern \<Rightarrow> 'sel plan_world \<Rightarrow> effect list \<Rightarrow> hstate \<Rightarrow> handled" where
  "return_digest X w effs s =
     (let (obj, err) = DigestStatus X (pw_secretGet w) (h_obj s)
      in \<lparr>ho_effects = effs, ho_obj = obj, ho_status = p_Status obj, ho_err = err\<rparr>)"

definition return_status :: "effect list \<Rightarrow> hstate \<Rightarrow> go_error option \<Rightarrow> handled" where
  "return_status effs s err =
     \<lparr>ho_effects = effs, ho_obj = h_obj s, ho_status = h_status s, ho_err = err\<rparr>"

text \<open>A version has been determined: note the change, store it and digest the plan.\<close>

definition resolved_to ::
    "('sel, 'req) extern \<Rightarrow> 'sel plan_world \<Rightarrow> effect list \<Rightarrow> hstate \<Rightarrow> string \<Rightarrow> string \<Rightarrow> string \<Rightarrow> handled" where
  "resolved_to X w effs s latest field reason =
     (let ts = FormatRFC3339 X (pw_now w);
          changed = (\<not> IsTrue (h_Conditions s) PlanLatestResolved \<or> st_LatestVersion (p_Status (h_obj s)) \<noteq> latest);
          effs1 = (if changed then effs @ [Event EventTypeNormal ''Resolved''
             (''Resolved latest version from '' @ field @ '': '' @ latest)] else effs);
          s1 = (if changed
             then on_obj (SetReason PlanComplete ''Resolved'')
                    (on_obj (SetMessage ts PlanComplete []) (on_obj (SetFalse ts PlanComplete) s))
             else s);
          s2 = on_obj (SetError ts PlanLatestResolved reason None) (set_LatestVersion latest s1)
      in return_digest X w effs1 s2)"

text \<open>The next poll is due when the interval since the last resolution has passed.\<close>

definition poll_wait :: "('sel, 'req) extern \<Rightarrow> environ \<Rightarrow> 'sel plan_world \<Rightarrow> hstate \<Rightarrow> duration option" where
  "poll_wait X env w s =
     (if IsTrue (h_Conditions s) PlanLatestResolved
      then (case ParseRFC3339 X (GetLastUpdated (h_Conditions s) PlanLatestResolved) of
          None \<Rightarrow> None
        | Some lastUpdated \<Rightarrow>
            (let interval = time_Sub (pw_now w) lastUpdated
             in if interval < PollingInterval X env then Some (wrap64 (PollingInterval X env - interval)) else None))
      else None)"

text \<open>The part of the handler that runs once the plan is valid.\<close>

definition resolve_plan ::
    "('sel, 'req) extern \<Rightarrow> environ \<Rightarrow> string \<Rightarrow> 'sel plan_world \<Rightarrow> effect list \<Rightarrow> hstate \<Rightarrow> handled" where
  "resolve_plan X env clusterID w effs s0 =
     (let ts = FormatRFC3339 X (pw_now w);
          s = on_obj (CreateUnknownIfNotExists ts PlanLatestResolved) s0;
          spec = p_Spec (h_obj s)
      in if sp_Version spec = [] \<and> sp_Channel spec = [] then
           return_digest X w
             (if \<not> IsFalse (h_Conditions s) PlanLatestResolved
              then effs @ [Event EventTypeWarning ''ResolveFailed'' (error_msg ErrPlanUnresolvable)] else effs)
             (on_obj (SetError ts PlanLatestResolved ''Error'' (Some ErrPlanUnresolvable)) s)
         else if sp_Version spec \<noteq> [] then
           resolved_to X w effs s (MungeVersion (sp_Version spec)) ''Spec.Version'' ''Version''
         else (case poll_wait X env w s of
             Some d \<Rightarrow> return_status (effs @ [PlanEnqueueAfter (p_Namespace (h_obj s)) (p_Name (h_obj s)) d]) s None
           | None \<Rightarrow>
               (case ResolveChannel (pw_http w) (sp_Channel spec) (st_LatestVersion (p_Status (h_obj s))) clusterID of
                  Inl err \<Rightarrow>
                    return_status
                      (if \<not> IsFalse (h_Conditions s) PlanLatestResolved
                       then effs @ [Event EventTypeWarning ''ResolveFailed''
                         (''Failed to resolve latest version from Spec.Channel: '' @ error_msg err)] else effs)
                      s (Some err)
                | Inr latest \<Rightarrow> resolved_to X w effs s (MungeVersion latest) ''Spec.Channel'' ''Channel'')))"

definition plan_status_handler ::
    "('sel, 'req) extern \<Rightarrow> environ \<Rightarrow> string \<Rightarrow> 'sel plan_world \<Rightarrow> Plan \<Rightarrow> handled" where
  "plan_status_handler X env clusterID w obj =
     (let ts = FormatRFC3339 X (pw_now w);
          s = on_obj (CreateUnknownIfNotExists ts PlanSpecValidated)
                (on_obj (CreateUnknownIfNotExists ts PlanComplete) (enter obj))
      in case Validate X (pw_secretGet w) (h_obj s) of
           Some err \<Rightarrow>
             return_digest X w
               (if \<not> IsFalse (h_Conditions s) PlanSpecValidated
                then [Event EventTypeWarning ''ValidateFailed'' (''Failed to validate plan: '' @ error_msg err)] else [])
               (on_obj (SetError ts PlanSpecValidated ''Error'' (Some err)) s)
         | None \<Rightarrow>
             resolve_plan X env clusterID w
               (if \<not> IsTrue (h_Conditions s) PlanSpecValidated
                then [Event EventTypeNormal ''Validated'' ''Plan is valid''] else [])
               (on_obj (SetError ts PlanSpecValidated ''PlanIsValid'' None) s))"

subsection \<open>The generating handler\<close>

definition ErrKubectlImageWindows :: go_error where
  "ErrKubectlImageWindows =
     NewError ''SYSTEM_UPGRADE_JOB_KUBECTL_IMAGE_WINDOWS is required when targeting Windows nodes''"

text \<open>
  The loop over the selected nodes: the jobs built, and how the loop ended. A Windows node
  without a kubectl image stops it with the jobs built so far.
\<close>

datatype build_end = Built | NoWindowsImage Node | BuildPanic

fun build_jobs ::
    "('sel, 'req) extern \<Rightarrow> environ \<Rightarrow> string \<Rightarrow> Plan \<Rightarrow> Node list \<Rightarrow> Job list \<times> build_end" where
  "build_jobs X env ctl_Name obj [] = ([], Built)"
| "build_jobs X env ctl_Name obj (node # nodes) =
     (if isWindows node \<and> KubectlImageWindows env = [] then ([], NoWindowsImage node)
      else (case job_New X env obj node ctl_Name of
          None \<Rightarrow> ([], BuildPanic)
        | Some job \<Rightarrow> (let (jobs, e) = build_jobs X env ctl_Name obj nodes in (job # jobs, e))))"

definition version_hash_msg :: "Plan \<Rightarrow> string" where
  "version_hash_msg obj = st_LatestVersion (p_Status obj) @ ''. Hash: '' @ st_LatestHash (p_Status obj)"

text \<open>The window is waited for only as long as no node is being worked on.\<close>

definition must_wait :: "('sel, 'req) extern \<Rightarrow> 'sel plan_world \<Rightarrow> Plan \<Rightarrow> bool" where
  "must_wait X w obj =
     (case sp_Window (p_Spec obj) of
        None \<Rightarrow> False
      | Some window \<Rightarrow> st_Applying (p_Status obj) = [] \<and> \<not> TimeWindowSpec_Contains X window (pw_now w))"

text \<open>The end of the handler: the selected nodes and the jobs for them are known.\<close>

definition finish_generating ::
    "('sel, 'req) extern \<Rightarrow> 'sel plan_world \<Rightarrow> hstate \<Rightarrow> string list \<Rightarrow> Job list \<Rightarrow> Job list \<times> handled" where
  "finish_generating X w s concurrentNodeNames objects =
     (let ts = FormatRFC3339 X (pw_now w); obj = h_obj s
      in if concurrentNodeNames \<noteq> [] then
           (if must_wait X w obj then
              ([], return_status
                 ((if GetReason (h_Conditions s) PlanComplete \<noteq> ''Waiting''
                   then [Event EventTypeNormal ''Waiting''
                      (''Waiting for start of Spec.Window to sync Jobs for version '' @ version_hash_msg obj)] else [])
                  @ [PlanEnqueueAfter (p_Namespace obj) (p_Name obj) Minute])
                 (on_obj (SetError ts PlanComplete ''Waiting'' (Some ErrOutsideWindow)) s) None)
            else if st_Applying (p_Status obj) \<noteq> concurrentNodeNames then
              (let s' = on_obj (SetReason PlanComplete ''SyncJob'') (on_obj (SetMessage ts PlanComplete [])
                     (on_obj (SetFalse ts PlanComplete) (set_Applying concurrentNodeNames s)))
               in (objects, \<lparr>ho_effects = [Event EventTypeNormal ''SyncJob''
                     (''Jobs synced for version '' @ st_LatestVersion (p_Status obj) @ '' on Nodes '' @
                      Join concurrentNodeNames '','' @ ''. Hash: '' @ st_LatestHash (p_Status obj))],
                   ho_obj = h_obj s', ho_status = p_Status (h_obj s'), ho_err = None\<rparr>))
            else (objects, \<lparr>ho_effects = [], ho_obj = obj, ho_status = p_Status obj, ho_err = None\<rparr>))
         else
           (let s' = on_obj (SetError ts PlanComplete ''Complete'' None) (set_Applying [] s)
            in (objects, \<lparr>ho_effects =
                  (if \<not> IsTrue (h_Conditions s) PlanComplete
                   then [Event EventTypeNormal ''Complete'' (''Jobs complete for version '' @ version_hash_msg obj)] else []),
                ho_obj = h_obj s', ho_status = p_Status (h_obj s'), ho_err = None\<rparr>)))"

text \<open>\<^const>\<open>None\<close> is a panic while a job is built.\<close>

definition plan_generating_handler ::
    "('sel, 'req) extern \<Rightarrow> environ \<Rightarrow> string \<Rightarrow> 'sel plan_world \<Rightarrow> Plan \<Rightarrow> (Job list \<times> handled) option" where
  "plan_generating_handler X env ctl_Name w obj =
     (let ts = FormatRFC3339 X (pw_now w); s = enter obj
      in if \<not> IsTrue (h_Conditions s) PlanSpecValidated \<or> \<not> IsTrue (h_Conditions s) PlanLatestResolved
         then Some ([], return_status [] (on_obj (SetError ts PlanComplete ''NotReady'' (Some ErrPlanNotReady)) s) None)
         else (case SelectConcurrentNodes X (pw_nodeList w) obj of
             Inl err \<Rightarrow>
               Some ([], return_status
                 [Event EventTypeWarning ''SelectNodesFailed'' (''Failed to select Nodes: '' @ error_msg err)]
                 (on_obj (SetError ts PlanComplete ''SelectNodesFailed'' (Some err)) s) (Some err))
           | Inr concurrentNodes \<Rightarrow>
               (let (objects, e) = build_jobs X env ctl_Name obj concurrentNodes
                in case e of
                     BuildPanic \<Rightarrow> None
                   | NoWindowsImage node \<Rightarrow>
                       Some (objects, return_status
                         [Event EventTypeWarning ''ValidationFailed''
                            (''Failed to create job for node '' @ n_Name node @ '': '' @ error_msg ErrKubectlImageWindows)]
                         (on_obj (SetError ts PlanComplete ''ValidationFailed'' (Some ErrKubectlImageWindows)) s)
                         (Some ErrKubectlImageWindows))
                   | Built \<Rightarrow> Some (finish_generating X w s (map Hostname concurrentNodes) objects))))"

end
