(* ===== verification/Generating.thy ===== *)
theory Generating
  imports HandleUpgrade
begin

text \<open>
  What the generating handler of \<^verbatim>\<open>pkg/upgrade/handle_upgrade.go\<close> promises: jobs are created paused and
  started on the second pass, the applying list follows the jobs, the window and the readiness
  of the plan hold jobs back, and Complete means that no eligible node is left.
\<close>

subsection \<open>The state of a handler\<close>

lemma on_obj_obj [simp]:
  "h_obj (on_obj f s) = (h_obj s)\<lparr>p_Status := (p_Status (h_obj s))\<lparr>st_Conditions := f (h_Conditions s)\<rparr>\<rparr>"
  by (simp add: on_obj_def Let_def)

lemma set_obj [simp]:
  "h_obj (set_LatestVersion v s) = (h_obj s)\<lparr>p_Status := (p_Status (h_obj s))\<lparr>st_LatestVersion := v\<rparr>\<rparr>"
  "h_obj (set_Applying a s) = (h_obj s)\<lparr>p_Status := (p_Status (h_obj s))\<lparr>st_Applying := a\<rparr>\<rparr>"
  by (simp_all add: set_LatestVersion_def set_Applying_def)

lemma enter_simps [simp]: "h_obj (enter obj) = obj" "h_status (enter obj) = p_Status obj"
  by (simp_all add: enter_def)

text \<open>What a status returned early can be: the old one, with its conditions possibly written through.\<close>

lemma on_obj_status:
  "h_status (on_obj f (enter obj)) = p_Status obj \<or>
   h_status (on_obj f (enter obj)) = (p_Status obj)\<lparr>st_Conditions := f (p_Conditions obj)\<rparr>"
  by (simp add: on_obj_def enter_def Let_def)

lemma on_obj_frame:
  "st_Applying (h_status (on_obj f (enter obj))) = st_Applying (p_Status obj)"
  "st_LatestVersion (h_status (on_obj f (enter obj))) = st_LatestVersion (p_Status obj)"
  "st_LatestHash (h_status (on_obj f (enter obj))) = st_LatestHash (p_Status obj)"
  using on_obj_status [of f obj] by auto

lemma on_obj_error:
  "\<not> IsTrue (p_Conditions obj) c \<Longrightarrow>
   \<not> IsTrue (st_Conditions (h_status (on_obj (SetError ts c r (Some e)) (enter obj)))) c"
  using on_obj_status [of "SetError ts c r (Some e)" obj] by (auto simp: SetError_reads)

lemma early_error_not_true:
  "\<not> IsTrue (st_Conditions (h_status (on_obj (SetError ts c r (Some e)) (enter obj)))) c"
proof (cases "length (SetError ts c r (Some e) (p_Conditions obj)) = length (p_Conditions obj)")
  case True
  then show ?thesis by (simp add: on_obj_def enter_def Let_def SetError_reads)
next
  case False
  then have "findCond (p_Conditions obj) c = None" using SetError_isolated findCond_None by metis
  with False show ?thesis by (simp add: on_obj_def enter_def Let_def IsTrue_def getStatus_def findOrNotCreateCond_def)
qed

subsection \<open>Building the jobs\<close>

definition buildable :: "('sel, 'req) extern \<Rightarrow> environ \<Rightarrow> string \<Rightarrow> Plan \<Rightarrow> Node \<Rightarrow> bool" where
  "buildable X env ctl obj node \<longleftrightarrow>
     \<not> (isWindows node \<and> KubectlImageWindows env = []) \<and> job_New X env obj node ctl \<noteq> None"

lemma build_jobs_Built:
  "snd (build_jobs X env ctl obj nodes) = Built \<longleftrightarrow> (\<forall>n\<in>set nodes. buildable X env ctl obj n)"
  by (induction nodes) (auto simp: buildable_def split_beta Let_def split: option.splits)

lemma build_jobs_list:
  assumes "\<forall>n\<in>set nodes. buildable X env ctl obj n"
  shows "build_jobs X env ctl obj nodes = (map (\<lambda>n. the (job_New X env obj n ctl)) nodes, Built)"
  using assms by (induction nodes) (auto simp: buildable_def)

lemma build_jobs_from:
  "job \<in> set (fst (build_jobs X env ctl obj nodes)) \<Longrightarrow> \<exists>n\<in>set nodes. job_New X env obj n ctl = Some job"
  by (induction nodes) (auto simp: split_beta Let_def split: option.splits if_splits)

lemma buildable_cong:
  assumes "p_Spec obj' = p_Spec obj"
  shows "buildable X env ctl obj' = buildable X env ctl obj"
  using job_New_None_iff [of X env obj' _ ctl] job_New_None_iff [of X env obj _ ctl]
  by (auto simp: buildable_def fun_eq_iff assms simp del: not_None_eq)

text \<open>The hostname a job is bound to.\<close>

definition job_target :: "Job \<Rightarrow> string" where
  "job_target job = hd (nsr_Values (hd (hd (ps_NodeAffinity (job_pod job)))))"

lemma job_target_New: "job_New X env plan node ctl = Some job \<Longrightarrow> job_target job = Hostname node"
  by (simp add: job_target_def job_New_fields(10))

lemma build_jobs_targets:
  "\<forall>n\<in>set nodes. buildable X env ctl obj n \<Longrightarrow>
     map job_target (fst (build_jobs X env ctl obj nodes)) = map Hostname nodes"
  by (simp add: build_jobs_list) (auto simp: buildable_def job_target_New)

subsection \<open>The generating handler\<close>

abbreviation plan_ready :: "Plan \<Rightarrow> bool" where
  "plan_ready obj \<equiv> IsTrue (p_Conditions obj) PlanSpecValidated \<and> IsTrue (p_Conditions obj) PlanLatestResolved"

lemma generating_built:
  assumes "plan_ready obj" "SelectConcurrentNodes X (pw_nodeList w) obj = Inr sel"
    "\<forall>n\<in>set sel. buildable X env ctl obj n"
  shows "plan_generating_handler X env ctl w obj =
    Some (finish_generating X w (enter obj) (map Hostname sel) (map (\<lambda>n. the (job_New X env obj n ctl)) sel))"
  using assms by (simp add: plan_generating_handler_def build_jobs_list Let_def)

text \<open>The ways the handler can end, seen from a result without an error.\<close>

lemma generating_ok_cases:
  assumes "plan_generating_handler X env ctl w obj = Some (jobs, h)" "ho_err h = None"
  obtains (not_ready) "\<not> plan_ready obj" "jobs = []"
      "h = return_status [] (on_obj (SetError (FormatRFC3339 X (pw_now w)) PlanComplete ''NotReady'' (Some ErrPlanNotReady)) (enter obj)) None"
  | (built) sel where "plan_ready obj" "SelectConcurrentNodes X (pw_nodeList w) obj = Inr sel"
      "\<forall>n\<in>set sel. buildable X env ctl obj n"
      "finish_generating X w (enter obj) (map Hostname sel) (map (\<lambda>n. the (job_New X env obj n ctl)) sel) = (jobs, h)"
proof (cases "plan_ready obj")
  case False
  with assms show ?thesis by (intro not_ready) (auto simp: plan_generating_handler_def Let_def)
next
  case True
  obtain sel where sel: "SelectConcurrentNodes X (pw_nodeList w) obj = Inr sel"
    using True assms by (auto simp: plan_generating_handler_def Let_def return_status_def split: sum.splits)
  have "snd (build_jobs X env ctl obj sel) = Built"
    using True assms sel
    by (cases "snd (build_jobs X env ctl obj sel)")
      (auto simp: plan_generating_handler_def Let_def return_status_def split_beta)
  then have b: "\<forall>n\<in>set sel. buildable X env ctl obj n" by (simp add: build_jobs_Built)
  show ?thesis using generating_built [OF True sel b] assms(1) by (intro built [OF True sel b]) simp
qed

text \<open>What the end of the handler leaves.\<close>

lemma finish_wait:
  assumes "names \<noteq> []" "must_wait X w obj" "finish_generating X w (enter obj) names objects = (jobs, h)"
  shows "jobs = []" "st_Applying (ho_status h) = st_Applying (p_Status obj)"
    "PlanEnqueueAfter (p_Namespace obj) (p_Name obj) Minute \<in> set (ho_effects h)" "ho_err h = None"
    "h = return_status (ho_effects h) (on_obj (SetError (FormatRFC3339 X (pw_now w)) PlanComplete ''Waiting'' (Some ErrOutsideWindow)) (enter obj)) None"
  using assms by (auto simp: finish_generating_def return_status_def on_obj_frame Let_def)

lemma finish_go:
  assumes "names \<noteq> []" "\<not> must_wait X w obj" "finish_generating X w (enter obj) names objects = (jobs, h)"
  shows "jobs = objects" "st_Applying (ho_status h) = names" "ho_status h = p_Status (ho_obj h)"
    "p_Spec (ho_obj h) = p_Spec obj" "p_meta (ho_obj h) = p_meta obj"
    "st_LatestHash (ho_status h) = st_LatestHash (p_Status obj)"
    "st_LatestVersion (ho_status h) = st_LatestVersion (p_Status obj)" "ho_err h = None"
    "\<And>c. c \<noteq> PlanComplete \<Longrightarrow> findOrNotCreateCond (st_Conditions (ho_status h)) c = findOrNotCreateCond (p_Conditions obj) c"
  using assms by (auto simp: finish_generating_def Let_def writers_other split: if_splits)

lemma finish_done:
  assumes "finish_generating X w (enter obj) [] objects = (jobs, h)"
  shows "jobs = objects" "st_Applying (ho_status h) = []" "IsTrue (st_Conditions (ho_status h)) PlanComplete"
    "GetReason (st_Conditions (ho_status h)) PlanComplete = ''Complete''" "ho_err h = None"
  using assms by (auto simp: finish_generating_def Let_def SetError_reads)


lemma finish_started:
  assumes "finish_generating X w (enter obj) (map Hostname sel) (map f sel) = (jobs, h)" "jobs \<noteq> []"
  shows "map Hostname sel \<noteq> []" "\<not> must_wait X w obj"
  using assms by (auto simp: finish_generating_def Let_def split: if_splits)

subsection \<open>Selection depends on the relevant parts of the plan only\<close>

lemma candidate_sum_cong:
  "p_meta p' = p_meta p \<Longrightarrow> st_LatestHash (p_Status p') = st_LatestHash (p_Status p) \<Longrightarrow> candidate_sum p' = candidate_sum p"
  by (simp add: candidate_sum_def fun_eq_iff)

lemma SelectConcurrentNodes_cong:
  assumes "sp_NodeSelector (p_Spec p') = sp_NodeSelector (p_Spec p)" "sp_Concurrency (p_Spec p') = sp_Concurrency (p_Spec p)"
    "p_meta p' = p_meta p" "st_LatestHash (p_Status p') = st_LatestHash (p_Status p)"
    "st_Applying (p_Status p') = st_Applying (p_Status p)"
  shows "SelectConcurrentNodes X nodeList p' = SelectConcurrentNodes X nodeList p"
  by (simp only: SelectConcurrentNodes_def NodeSelector_def candidate_sum_cong [OF assms(3,4)] assms)

lemma eligible_cong:
  assumes "p_Spec p' = p_Spec p" "p_meta p' = p_meta p" "st_LatestHash (p_Status p') = st_LatestHash (p_Status p)"
  shows "eligible X p' = eligible X p"
  by (simp add: eligible_def assms fun_eq_iff)

subsection \<open>A plan for the witnesses\<close>

definition true_cond :: "string \<Rightarrow> string \<Rightarrow> GenericCondition" where
  "true_cond type reason = (new_cond type)\<lparr>cond_Status := ''True'', cond_Reason := reason\<rparr>"

definition ready_plan :: Plan where
  "ready_plan = sample_plan\<lparr>p_Status := (p_Status sample_plan)\<lparr>st_Conditions :=
     [true_cond ''LatestResolved'' ''Version'', true_cond ''Validated'' ''PlanIsValid'']\<rparr>\<rparr>"

definition ready_world :: "sreq list plan_world" where
  "ready_world = \<lparr>pw_secretGet = (\<lambda>ns n. Inl (ExtError 404 [])), pw_nodeList = cache_List sample two_nodes,
     pw_http = \<lparr>http_NewRequest = (\<lambda>u. Inl (ExtError 1 [])), http_Do = (\<lambda>r. Inl (ExtError 1 []))\<rparr>, pw_now = 5\<rparr>"

lemma ready_plan_ready: "plan_ready ready_plan" "\<not> IsTrue (p_Conditions ready_plan) PlanComplete"
  by (simp_all add: ready_plan_def IsTrue_def getStatus_def findOrNotCreateCond_def true_cond_def new_cond_def
      PlanSpecValidated_def PlanLatestResolved_def PlanComplete_def)

lemma ready_plan_select: "SelectConcurrentNodes sample (pw_nodeList ready_world) ready_plan = Inr [sample_node ''a'' ''ha'']"
proof -
  have "SelectConcurrentNodes sample (cache_List sample two_nodes) sample_plan = Inr (select_spec sample sample_plan two_nodes)"
    using select_total [OF two_nodes_cache sample_plan_ok]
      select_determined [OF sample_labels_ok two_nodes_cache _ two_nodes_facts(1,4)] by auto
  moreover have "SelectConcurrentNodes sample (cache_List sample two_nodes) ready_plan =
      SelectConcurrentNodes sample (cache_List sample two_nodes) sample_plan"
    by (rule SelectConcurrentNodes_cong) (simp_all add: ready_plan_def)
  ultimately show ?thesis by (simp add: ready_world_def sample_select_spec)
qed

lemma ready_plan_buildable: "p_Spec plan = sample_spec \<Longrightarrow> \<forall>n\<in>set two_nodes. buildable sample env ctl plan n"
  using job_New_None_iff [of sample env plan _ ctl]
  by (auto simp: buildable_def sample_spec_def isWindows_def two_nodes_def sample_node_def LabelHostname_def mindex_def)

lemma ready_plan_spec: "p_Spec ready_plan = sample_spec" by (simp add: ready_plan_def sample_plan_def)

lemma ready_plan_runs: obtains h where
  "plan_generating_handler sample (\<lambda>_. None) ''suc'' ready_world ready_plan =
     Some ([the (job_New sample (\<lambda>_. None) ready_plan (sample_node ''a'' ''ha'') ''suc'')], h)" "ho_err h = None"
proof -
  have b: "\<forall>n\<in>set [sample_node ''a'' ''ha'']. buildable sample (\<lambda>_. None) ''suc'' ready_plan n"
    using ready_plan_buildable [OF ready_plan_spec] by (simp add: two_nodes_def)
  have "\<not> must_wait sample ready_world ready_plan" by (simp add: must_wait_def ready_plan_spec sample_spec_def)
  then show ?thesis
    using generating_built [OF ready_plan_ready(1) ready_plan_select b]
      finish_go [of "[Hostname (sample_node ''a'' ''ha'')]" sample ready_world ready_plan]
    by (cases "finish_generating sample ready_world (enter ready_plan) [Hostname (sample_node ''a'' ''ha'')]
         [the (job_New sample (\<lambda>_. None) ready_plan (sample_node ''a'' ''ha'') ''suc'')]") (auto intro: that)
qed

subsection \<open>Properties\<close>

text \<open>
  C10: no job starts before its node is recorded as being worked on: of the jobs the handler generates,
  exactly those run (parallelism 1) whose node the plan already lists as applying; the others are
  created paused. And whenever jobs are generated without an error, the status the handler
  returns lists exactly the hostnames the jobs are bound to, in their order.
\<close>

theorem generated_jobs_start_paused:
  assumes "plan_generating_handler X env ctl w obj = Some (jobs, h)"
  shows "(\<forall>job\<in>set jobs. js_Parallelism (job_Spec job) =
       Some (if job_target job \<in> set (st_Applying (p_Status obj)) then 1 else 0)) \<and>
     (jobs \<noteq> [] \<and> ho_err h = None \<longrightarrow> st_Applying (ho_status h) = map job_target jobs)"
proof (intro conjI ballI impI)
  fix job assume j: "job \<in> set jobs"
  have "\<exists>n. job_New X env obj n ctl = Some job"
  proof (cases "plan_ready obj")
    case True
    then obtain sel where sel: "SelectConcurrentNodes X (pw_nodeList w) obj = Inr sel"
      using assms j by (auto simp: plan_generating_handler_def Let_def split: sum.splits)
    have "jobs = fst (build_jobs X env ctl obj sel) \<or> jobs = []"
      using True assms sel by (auto simp: plan_generating_handler_def finish_generating_def Let_def split_beta
          split: build_end.splits if_splits)
    then show ?thesis using j build_jobs_from [of job X env ctl obj sel] by auto
  next
    case False
    with assms j show ?thesis by (auto simp: plan_generating_handler_def Let_def)
  qed
  then obtain n where n: "job_New X env obj n ctl = Some job" by blast
  show "js_Parallelism (job_Spec job) = Some (if job_target job \<in> set (st_Applying (p_Status obj)) then 1 else 0)"
    using job_New_fields(5) [OF n] job_target_New [OF n] by (simp add: job_parallelism_def)
next
  assume "jobs \<noteq> [] \<and> ho_err h = None"
  then have ne: "jobs \<noteq> []" and ok: "ho_err h = None" by simp_all
  from assms ok show "st_Applying (ho_status h) = map job_target jobs"
  proof (cases rule: generating_ok_cases)
    case (built sel)
    have t: "map job_target (map (\<lambda>n. the (job_New X env obj n ctl)) sel) = map Hostname sel"
      using build_jobs_targets [OF built(3)] build_jobs_list [OF built(3)] by simp
    from t finish_go(1,2) [OF finish_started [OF built(4) ne] built(4)] show ?thesis by simp
  qed (use ne in simp)
qed

theorem generated_jobs_start_paused_witness:
  "\<exists>job h. plan_generating_handler sample (\<lambda>_. None) ''suc'' ready_world ready_plan = Some ([job], h) \<and>
     js_Parallelism (job_Spec job) = Some 0 \<and> st_Applying (ho_status h) = [job_target job]"
proof (rule ready_plan_runs)
  fix h assume g: "plan_generating_handler sample (\<lambda>_. None) ''suc'' ready_world ready_plan =
     Some ([the (job_New sample (\<lambda>_. None) ready_plan (sample_node ''a'' ''ha'') ''suc'')], h)" and "ho_err h = None"
  then show ?thesis using generated_jobs_start_paused [OF g] g
    by (auto simp: ready_plan_def sample_plan_def)
qed

text \<open>
  C11: the second pass: on the plan with the status the first pass returned and the same nodes, the
  handler generates jobs for the same nodes in the same order, now all running, returns the same
  status, and causes no event; whatever the clock and the window say in between.
\<close>

theorem second_pass_unpauses:
  assumes "labels_ok X" "node_cache (sel_Matches X) (pw_nodeList w) nodes"
    and "distinct nodes" "inj_on n_Name (set nodes)" "inj_on Hostname (set nodes)" "inj_on (candidate_sum obj) (set nodes)"
    and "plan_generating_handler X env ctl w obj = Some (jobs, h)" "ho_err h = None" "jobs \<noteq> []"
    and "obj' = obj\<lparr>p_Status := ho_status h\<rparr>" "selectors_ok X obj'" "pw_nodeList w' = pw_nodeList w"
  shows "\<exists>jobs'. plan_generating_handler X env ctl w' obj' =
      Some (jobs', \<lparr>ho_effects = [], ho_obj = obj', ho_status = p_Status obj', ho_err = None\<rparr>) \<and>
    map job_target jobs' = map job_target jobs \<and> (\<forall>job\<in>set jobs'. js_Parallelism (job_Spec job) = Some 1)"
  using assms(7,8)
proof (cases rule: generating_ok_cases)
  case (built sel)
  note b = built(3)
  note go = finish_started [OF built(4) assms(9)]
  note fg = finish_go [OF go built(4)]
  have st: "p_Spec obj' = p_Spec obj" "p_meta obj' = p_meta obj"
    "st_LatestHash (p_Status obj') = st_LatestHash (p_Status obj)" "st_Applying (p_Status obj') = map Hostname sel"
    using fg(2,6) assms(10) by simp_all
  have "selectors_ok X (with_applying obj sel)"
    using assms(11) st by (simp add: selectors_ok_def with_applying_def)
  from select_again [OF assms(1,2) built(2) this assms(3-6)]
  have sel': "SelectConcurrentNodes X (pw_nodeList w') obj' = Inr sel"
    using SelectConcurrentNodes_cong [of obj' "with_applying obj sel" X "pw_nodeList w"] st assms(12) by (simp add: with_applying_def)
  have b': "\<forall>n\<in>set sel. buildable X env ctl obj' n" using b buildable_cong [OF st(1), of X env ctl] by simp
  have "plan_ready obj'"
    using built(1) fg(9) assms(10) reads_cong(1) [of "p_Conditions obj'" _ "p_Conditions obj"] by simp
  note run = generating_built [OF this sel' b']
  have ne: "st_Applying (p_Status obj') \<noteq> []" using st(4) go(1) by simp
  then have "\<not> must_wait X w' obj'" by (simp add: must_wait_def split: option.splits)
  with run go(1) st(4) have "plan_generating_handler X env ctl w' obj' =
      Some (map (\<lambda>n. the (job_New X env obj' n ctl)) sel,
        \<lparr>ho_effects = [], ho_obj = obj', ho_status = p_Status obj', ho_err = None\<rparr>)"
    by (simp add: finish_generating_def)
  moreover have "map job_target (map (\<lambda>n. the (job_New X env obj' n ctl)) sel) = map Hostname sel"
    using build_jobs_targets [OF b'] build_jobs_list [OF b'] by simp
  moreover have "map job_target jobs = map Hostname sel"
    using build_jobs_targets [OF b] build_jobs_list [OF b] fg(1) by simp
  moreover have "js_Parallelism (job_Spec (the (job_New X env obj' n ctl))) = Some 1" if "n \<in> set sel" for n
    using b' that st(4) job_New_fields(5) [of X env obj' n ctl]
    by (auto simp: buildable_def job_parallelism_def)
  ultimately show ?thesis by (intro exI conjI) (assumption | auto)+
qed (use assms(9) in simp)

theorem second_pass_unpauses_witness:
  "\<exists>(h :: handled) jobs' h'. plan_generating_handler sample (\<lambda>_. None) ''suc'' ready_world (ready_plan\<lparr>p_Status := ho_status h\<rparr>) = Some (jobs', h') \<and>
     (\<forall>job\<in>set jobs'. js_Parallelism (job_Spec job) = Some 1) \<and> length jobs' = 1 \<and> ho_effects h' = []"
proof (rule ready_plan_runs)
  fix h assume g: "plan_generating_handler sample (\<lambda>_. None) ''suc'' ready_world ready_plan =
     Some ([the (job_New sample (\<lambda>_. None) ready_plan (sample_node ''a'' ''ha'') ''suc'')], h)" and e: "ho_err h = None"
  have c: "node_cache (sel_Matches sample) (pw_nodeList ready_world) two_nodes"
    using two_nodes_cache by (simp add: ready_world_def)
  have i: "inj_on (candidate_sum ready_plan) (set two_nodes)"
    using two_nodes_facts(4) candidate_sum_cong [of ready_plan sample_plan] by (simp add: ready_plan_def)
  have s: "selectors_ok sample (ready_plan\<lparr>p_Status := ho_status h\<rparr>)"
    by (rule sample_selectors_ok) (simp add: ready_plan_spec)
  from second_pass_unpauses [OF sample_labels_ok c two_nodes_facts(3,1,2) i g e _ refl s refl]
  obtain jobs' h' where "plan_generating_handler sample (\<lambda>_. None) ''suc'' ready_world (ready_plan\<lparr>p_Status := ho_status h\<rparr>) =
      Some (jobs', h')" "\<forall>job\<in>set jobs'. js_Parallelism (job_Spec job) = Some 1" "ho_effects h' = []" "length jobs' = 1"
    by (auto simp: map_eq_Cons_conv)
  then show ?thesis by blast
qed

text \<open>
  A plan that is not both validated and resolved generates no job and causes no effect, and the
  handler leaves its version, hash and applying list alone.
\<close>

lemma unready_plan_generates_nothing:
  assumes "\<not> IsTrue (p_Conditions obj) PlanSpecValidated \<or> \<not> IsTrue (p_Conditions obj) PlanLatestResolved"
  shows "\<exists>h. plan_generating_handler X env ctl w obj = Some ([], h) \<and> ho_effects h = [] \<and> ho_err h = None \<and>
     st_Applying (ho_status h) = st_Applying (p_Status obj) \<and> st_LatestHash (ho_status h) = st_LatestHash (p_Status obj) \<and>
     st_LatestVersion (ho_status h) = st_LatestVersion (p_Status obj) \<and>
     (IsTrue (st_Conditions (ho_status h)) PlanComplete \<longrightarrow> IsTrue (p_Conditions obj) PlanComplete)"
  using assms on_obj_error [of obj PlanComplete "FormatRFC3339 X (pw_now w)" "''NotReady''" ErrPlanNotReady]
  by (auto simp: plan_generating_handler_def Let_def return_status_def on_obj_frame)

text \<open>
  C24: outside its window a plan with nothing in progress starts nothing: no job is generated, the applying
  list stays empty, Complete does not become true, and the plan is enqueued again in a minute.
  Once a node is being worked on the window no longer holds the plan back.
\<close>

theorem window_holds_back:
  assumes "plan_ready obj" "SelectConcurrentNodes X (pw_nodeList w) obj = Inr sel" "sel \<noteq> []"
    and "\<forall>n\<in>set sel. buildable X env ctl obj n"
    and "sp_Window (p_Spec obj) = Some window" "\<not> TimeWindowSpec_Contains X window (pw_now w)"
  shows "\<exists>jobs h. plan_generating_handler X env ctl w obj = Some (jobs, h) \<and> ho_err h = None \<and>
     (if st_Applying (p_Status obj) = []
      then jobs = [] \<and> st_Applying (ho_status h) = [] \<and> \<not> (IsTrue (st_Conditions (ho_status h)) PlanComplete \<and>
             \<not> IsTrue (p_Conditions obj) PlanComplete) \<and>
           PlanEnqueueAfter (p_Namespace obj) (p_Name obj) Minute \<in> set (ho_effects h)
      else length jobs = length sel)"
proof -
  let ?names = "map Hostname sel" and ?jobs = "map (\<lambda>n. the (job_New X env obj n ctl)) sel"
  have ne: "?names \<noteq> []" using assms(3) by simp
  have mw: "must_wait X w obj \<longleftrightarrow> st_Applying (p_Status obj) = []" using assms(5,6) by (simp add: must_wait_def)
  obtain jobs h where fg: "finish_generating X w (enter obj) ?names ?jobs = (jobs, h)" by fastforce
  show ?thesis
  proof (cases "st_Applying (p_Status obj) = []")
    case True
    with mw have m: "must_wait X w obj" by simp
    note fw = finish_wait [OF ne m fg]
    have "\<not> IsTrue (p_Conditions obj) PlanComplete \<Longrightarrow> \<not> IsTrue (st_Conditions (ho_status h)) PlanComplete"
      using fw(5) on_obj_error by (metis handled.select_convs(3) return_status_def)
    with True fw generating_built [OF assms(1,2,4)] fg show ?thesis by auto
  next
    case False
    with mw have "\<not> must_wait X w obj" by simp
    from finish_go(1,8) [OF ne this fg] False generating_built [OF assms(1,2,4)] fg show ?thesis by auto
  qed
qed

definition windowed_plan :: Plan where
  "windowed_plan = ready_plan\<lparr>p_Spec := sample_spec\<lparr>sp_Window :=
     Some \<lparr>tw_Days = [''mo''], tw_StartTime = ''0:00'', tw_EndTime = ''1:00'', tw_TimeZone = ''UTC''\<rparr>\<rparr>\<rparr>"

theorem window_holds_back_witness:
  "\<exists>h. plan_generating_handler sample (\<lambda>_. None) ''suc'' ready_world windowed_plan = Some ([], h) \<and>
     st_Applying (ho_status h) = []"
proof -
  let ?a = "sample_node ''a'' ''ha''"
  have r: "plan_ready windowed_plan" using ready_plan_ready(1) by (simp add: windowed_plan_def)
  have "SelectConcurrentNodes sample (pw_nodeList ready_world) windowed_plan =
      SelectConcurrentNodes sample (pw_nodeList ready_world) ready_plan"
    by (rule SelectConcurrentNodes_cong) (simp_all add: windowed_plan_def ready_plan_spec)
  then have s: "SelectConcurrentNodes sample (pw_nodeList ready_world) windowed_plan = Inr [?a]"
    using ready_plan_select by simp
  have b: "\<forall>n\<in>set [?a]. buildable sample (\<lambda>_. None) ''suc'' windowed_plan n"
    using job_New_None_iff [of sample "\<lambda>_. None" windowed_plan _ "''suc''"]
    by (auto simp: buildable_def windowed_plan_def sample_spec_def isWindows_def sample_node_def LabelHostname_def mindex_def)
  have w: "sp_Window (p_Spec windowed_plan) = Some \<lparr>tw_Days = [''mo''], tw_StartTime = ''0:00'', tw_EndTime = ''1:00'', tw_TimeZone = ''UTC''\<rparr>"
    "\<not> TimeWindowSpec_Contains sample \<lparr>tw_Days = [''mo''], tw_StartTime = ''0:00'', tw_EndTime = ''1:00'', tw_TimeZone = ''UTC''\<rparr> (pw_now ready_world)"
    by (simp_all add: windowed_plan_def TimeWindowSpec_Contains_def sample_def ready_world_def)
  have "st_Applying (p_Status windowed_plan) = []" by (simp add: windowed_plan_def ready_plan_def sample_plan_def)
  with window_holds_back [OF r s _ b w] show ?thesis by auto
qed

text \<open>
  C14: when the generating handler, run without an error, leaves a plan complete: the plan is ready, and no node of
  the cluster is eligible any more, or the plan allows no node at all and none is being worked on, or the plan was complete
  before and the selection is the one it already lists, so that the status is left as it was. In particular a plan that allows
  at least one node, and was not complete, becomes complete exactly when no node is eligible.
\<close>

theorem complete_iff_no_eligible:
  assumes "labels_ok X" "node_cache (sel_Matches X) (pw_nodeList w) nodes" "selectors_ok X obj"
    and "plan_generating_handler X env ctl w obj = Some (jobs, h)" "ho_err h = None"
  shows "(IsTrue (st_Conditions (ho_status h)) PlanComplete \<longleftrightarrow> plan_ready obj \<and>
      ((\<forall>n\<in>set nodes. \<not> eligible X obj n) \<or>
       (sp_Concurrency (p_Spec obj) < 1 \<and> (\<forall>n\<in>set nodes. eligible X obj n \<longrightarrow> \<not> is_applying obj n)) \<or>
       (IsTrue (p_Conditions obj) PlanComplete \<and> st_Applying (p_Status obj) \<noteq> [] \<and>
        (\<exists>sel. SelectConcurrentNodes X (pw_nodeList w) obj = Inr sel \<and> st_Applying (p_Status obj) = map Hostname sel)))) \<and>
    (plan_ready obj \<and> \<not> IsTrue (p_Conditions obj) PlanComplete \<and> 1 \<le> sp_Concurrency (p_Spec obj) \<longrightarrow>
      (IsTrue (st_Conditions (ho_status h)) PlanComplete \<longleftrightarrow> (\<forall>n\<in>set nodes. \<not> eligible X obj n)))"
proof -
  have "IsTrue (st_Conditions (ho_status h)) PlanComplete \<longleftrightarrow> plan_ready obj \<and>
      ((\<forall>n\<in>set nodes. \<not> eligible X obj n) \<or>
       (sp_Concurrency (p_Spec obj) < 1 \<and> (\<forall>n\<in>set nodes. eligible X obj n \<longrightarrow> \<not> is_applying obj n)) \<or>
       (IsTrue (p_Conditions obj) PlanComplete \<and> st_Applying (p_Status obj) \<noteq> [] \<and>
        (\<exists>sel. SelectConcurrentNodes X (pw_nodeList w) obj = Inr sel \<and> st_Applying (p_Status obj) = map Hostname sel)))"
    using assms(4,5)
  proof (cases rule: generating_ok_cases)
    case not_ready
    then show ?thesis by (auto simp: return_status_def early_error_not_true)
  next
    case (built sel)
    note none = select_none_iff [OF assms(1,2) built(2)]
    show ?thesis
    proof (cases "sel = []")
      case True
      with built(4) finish_done(3) [of X w obj] none built(1) show ?thesis by auto
    next
      case False
      then have ne: "map Hostname sel \<noteq> []" by simp
      have "IsTrue (st_Conditions (ho_status h)) PlanComplete \<longleftrightarrow>
          IsTrue (p_Conditions obj) PlanComplete \<and> st_Applying (p_Status obj) = map Hostname sel"
      proof (cases "must_wait X w obj")
        case True
        then have "st_Applying (p_Status obj) = []" by (auto simp: must_wait_def split: option.splits)
        with ne finish_wait(5) [OF ne True built(4)] show ?thesis
          by (metis early_error_not_true handled.select_convs(3) return_status_def)
      next
        case mw: False
        show ?thesis
          using built(4) ne mw
          by (auto simp: finish_generating_def Let_def IsTrue_def getStatus_def SetReason_def SetMessage_def SetFalse_def
              setStatus_def conds.lookup_modify_thrice setValue_Message_def setValue_Status_def touchTS_def
              split: if_splits)
      qed
      with False ne none built(1,2) show ?thesis by auto
    qed
  qed
  moreover have "\<exists>sel. SelectConcurrentNodes X (pw_nodeList w) obj = Inr sel" by (rule select_total [OF assms(2,3)])
  ultimately show ?thesis by auto
qed

text \<open>A plan without concurrency, as it is when the optional field is left out, is reported complete before any node is upgraded.\<close>

lemma no_concurrency_complete:
  assumes "labels_ok X" "node_cache (sel_Matches X) (pw_nodeList w) nodes" "plan_ready obj"
    and "sp_Concurrency (p_Spec obj) = 0" "st_Applying (p_Status obj) = []"
    and "plan_generating_handler X env ctl w obj = Some (jobs, h)" "ho_err h = None"
  shows "jobs = []" "IsTrue (st_Conditions (ho_status h)) PlanComplete"
proof -
  have "jobs = [] \<and> IsTrue (st_Conditions (ho_status h)) PlanComplete"
    using assms(6,7)
  proof (cases rule: generating_ok_cases)
    case (built sel)
    have "sel = []" using select_none_iff [OF assms(1,2) built(2)] assms(4,5) by (simp add: is_applying_def)
    with built(4) finish_done [of X w obj] show ?thesis by auto
  qed (use assms(3) in simp)
  then show "jobs = []" "IsTrue (st_Conditions (ho_status h)) PlanComplete" by simp_all
qed

theorem complete_iff_no_eligible_witness:
  "\<exists>jobs h. plan_generating_handler sample (\<lambda>_. None) ''suc'' ready_world ready_plan = Some (jobs, h) \<and>
     \<not> IsTrue (st_Conditions (ho_status h)) PlanComplete \<and> (\<exists>n\<in>set two_nodes. eligible sample ready_plan n)"
proof (rule ready_plan_runs)
  fix h assume g: "plan_generating_handler sample (\<lambda>_. None) ''suc'' ready_world ready_plan =
     Some ([the (job_New sample (\<lambda>_. None) ready_plan (sample_node ''a'' ''ha'') ''suc'')], h)" and e: "ho_err h = None"
  have c: "node_cache (sel_Matches sample) (pw_nodeList ready_world) two_nodes"
    using two_nodes_cache by (simp add: ready_world_def)
  have s: "selectors_ok sample ready_plan" by (rule sample_selectors_ok) (simp add: ready_plan_spec)
  have el: "eligible sample ready_plan = eligible sample sample_plan"
    by (rule eligible_cong) (simp_all add: ready_plan_def)
  have "1 \<le> sp_Concurrency (p_Spec ready_plan)" by (simp add: ready_plan_spec sample_spec_def)
  with complete_iff_no_eligible [OF sample_labels_ok c s g e] ready_plan_ready g sample_eligible el
  show ?thesis by (auto simp: two_nodes_def)
qed

end
