(* ===== verification/Resolving.thy ===== *)
theory Resolving
  imports Generating
begin

text \<open>
  What the status handler of \<^verbatim>\<open>pkg/upgrade/handle_upgrade.go\<close> promises: validation, resolution of the
  version, when a channel is polled, and that the handler settles.
\<close>

subsection \<open>The status handler\<close>

lemma Validate_cong: "p_Spec p' = p_Spec p \<Longrightarrow> p_meta p' = p_meta p \<Longrightarrow> Validate X g p' = Validate X g p"
  by (simp add: Validate_def Let_def)

lemma plan_same_conditions [simp]: "p\<lparr>p_Status := (p_Status p)\<lparr>st_Conditions := p_Conditions p\<rparr>\<rparr> = p"
  by simp

lemma return_digest_simps:
  "ho_obj (return_digest X w effs s) = fst (DigestStatus X (pw_secretGet w) (h_obj s))"
  "ho_status (return_digest X w effs s) = p_Status (fst (DigestStatus X (pw_secretGet w) (h_obj s)))"
  "ho_err (return_digest X w effs s) = snd (DigestStatus X (pw_secretGet w) (h_obj s))"
  "ho_effects (return_digest X w effs s) = effs"
  by (simp_all add: return_digest_def split_beta)

text \<open>The conditions a valid plan enters the resolution with, and those a resolution leaves.\<close>

definition validated_conds :: "string \<Rightarrow> conds \<Rightarrow> conds" where
  "validated_conds ts cs = CreateUnknownIfNotExists ts PlanLatestResolved (SetError ts PlanSpecValidated ''PlanIsValid'' None
     (CreateUnknownIfNotExists ts PlanSpecValidated (CreateUnknownIfNotExists ts PlanComplete cs)))"

definition resolved_conds :: "string \<Rightarrow> bool \<Rightarrow> string \<Rightarrow> conds \<Rightarrow> conds" where
  "resolved_conds ts changed reason cs = SetError ts PlanLatestResolved reason None
     (if changed then SetReason PlanComplete ''Resolved'' (SetMessage ts PlanComplete [] (SetFalse ts PlanComplete cs)) else cs)"

lemma validated_conds_reads:
  "findOrNotCreateCond (validated_conds ts cs) PlanLatestResolved =
     findOrNotCreateCond (CreateUnknownIfNotExists ts PlanLatestResolved cs) PlanLatestResolved"
  "findOrNotCreateCond (validated_conds ts cs) PlanComplete =
     findOrNotCreateCond (CreateUnknownIfNotExists ts PlanComplete cs) PlanComplete"
  "MatchesError (validated_conds ts cs) PlanSpecValidated ''PlanIsValid'' None"
  "findCond (validated_conds ts cs) c \<noteq> None \<longleftrightarrow>
     c \<in> {PlanLatestResolved, PlanSpecValidated, PlanComplete} \<or> findCond cs c \<noteq> None"
proof -
  have u: "findOrNotCreateCond (CreateUnknownIfNotExists ts c cs') c =
      findOrNotCreateCond (CreateUnknownIfNotExists ts c cs'') c"
    if "findOrNotCreateCond cs' c = findOrNotCreateCond cs'' c" for c cs' cs''
    using that by (cases "findCond cs' c"; cases "findCond cs'' c")
      (simp_all add: CreateUnknownIfNotExists_def findOrNotCreateCond_def writer_defs with_cond_absent findCond_append
        setValue_Status_def)
  show "findOrNotCreateCond (validated_conds ts cs) PlanLatestResolved =
     findOrNotCreateCond (CreateUnknownIfNotExists ts PlanLatestResolved cs) PlanLatestResolved"
    unfolding validated_conds_def by (rule u) (simp add: lookup_SetError_other writers_other)
  show "findOrNotCreateCond (validated_conds ts cs) PlanComplete =
     findOrNotCreateCond (CreateUnknownIfNotExists ts PlanComplete cs) PlanComplete"
    by (simp add: validated_conds_def lookup_SetError_other writers_other)
  show "MatchesError (validated_conds ts cs) PlanSpecValidated ''PlanIsValid'' None"
    by (simp add: validated_conds_def MatchesError_def reads_cong [OF writers_other(4)] SetError_reads)
  show "findCond (validated_conds ts cs) c \<noteq> None \<longleftrightarrow>
     c \<in> {PlanLatestResolved, PlanSpecValidated, PlanComplete} \<or> findCond cs c \<noteq> None"
    unfolding validated_conds_def CreateUnknown_exists findCond_SetError by blast
qed

lemma IsTrue_CreateUnknown: "IsTrue (CreateUnknownIfNotExists ts c cs) c = IsTrue cs c"
  by (cases "findCond cs c") (simp_all add: CreateUnknownIfNotExists_def IsTrue_def getStatus_def findOrNotCreateCond_def
      writer_defs with_cond_absent findCond_append setValue_Status_def new_cond_def)

lemma validated_resolved: "IsTrue (validated_conds ts cs) PlanLatestResolved = IsTrue cs PlanLatestResolved"
  using reads_cong(1) [OF validated_conds_reads(1), of ts cs] IsTrue_CreateUnknown by blast

lemma resolved_to_eq:
  fixes s :: hstate and latest :: string
  defines "changed \<equiv> \<not> IsTrue (h_Conditions s) PlanLatestResolved \<or> st_LatestVersion (p_Status (h_obj s)) \<noteq> latest"
  shows "\<exists>s'. resolved_to X w effs s latest field reason = return_digest X w
       (effs @ (if changed then [Event EventTypeNormal ''Resolved'' (''Resolved latest version from '' @ field @ '': '' @ latest)] else [])) s' \<and>
     h_obj s' = (h_obj s)\<lparr>p_Status := (p_Status (h_obj s))\<lparr>st_LatestVersion := latest,
       st_Conditions := resolved_conds (FormatRFC3339 X (pw_now w)) changed reason (h_Conditions s)\<rparr>\<rparr>"
proof (cases changed)
  case True
  show ?thesis
    unfolding resolved_to_def Let_def changed_def [symmetric] if_P [OF True]
    by (intro exI conjI, rule refl) (simp add: resolved_conds_def True)
next
  case False
  show ?thesis
    unfolding resolved_to_def Let_def changed_def [symmetric] if_not_P [OF False] append_Nil2
    by (intro exI conjI, rule refl) (simp add: resolved_conds_def False)
qed

text \<open>The state in which a valid plan reaches its resolution.\<close>

lemma status_handler_enters:
  assumes "Validate X (pw_secretGet w) obj = None"
  obtains s0 where "plan_status_handler X env cid w obj = resolve_plan X env cid w
      (if \<not> IsTrue (p_Conditions obj) PlanSpecValidated then [Event EventTypeNormal ''Validated'' ''Plan is valid''] else []) s0"
    "h_obj (on_obj (CreateUnknownIfNotExists (FormatRFC3339 X (pw_now w)) PlanLatestResolved) s0) =
       obj\<lparr>p_Status := (p_Status obj)\<lparr>st_Conditions := validated_conds (FormatRFC3339 X (pw_now w)) (p_Conditions obj)\<rparr>\<rparr>"
    "p_Spec (h_obj s0) = p_Spec obj"
proof -
  let ?ts = "FormatRFC3339 X (pw_now w)"
  let ?s = "on_obj (CreateUnknownIfNotExists ?ts PlanSpecValidated) (on_obj (CreateUnknownIfNotExists ?ts PlanComplete) (enter obj))"
  have v: "Validate X (pw_secretGet w) (h_obj ?s) = None"
    using assms(1) Validate_cong [of "h_obj ?s" obj X "pw_secretGet w"] by simp
  have iv: "IsTrue (h_Conditions ?s) PlanSpecValidated = IsTrue (p_Conditions obj) PlanSpecValidated"
    by (simp add: IsTrue_CreateUnknown) (simp add: reads_cong(1) [OF writers_other(4)])
  show ?thesis
  proof (rule that)
    show "plan_status_handler X env cid w obj = resolve_plan X env cid w
      (if \<not> IsTrue (p_Conditions obj) PlanSpecValidated then [Event EventTypeNormal ''Validated'' ''Plan is valid''] else [])
      (on_obj (SetError ?ts PlanSpecValidated ''PlanIsValid'' None) ?s)"
      unfolding plan_status_handler_def Let_def v iv by simp
  qed (simp_all add: validated_conds_def)
qed

lemma status_handler_valid:
  assumes "Validate X (pw_secretGet w) obj = None" "sp_Version (p_Spec obj) \<noteq> []"
  defines "ts \<equiv> FormatRFC3339 X (pw_now w)" and "latest \<equiv> MungeVersion (sp_Version (p_Spec obj))"
  defines "changed \<equiv> \<not> IsTrue (p_Conditions obj) PlanLatestResolved \<or> st_LatestVersion (p_Status obj) \<noteq> latest"
  shows "\<exists>s. plan_status_handler X env cid w obj = return_digest X w
       ((if \<not> IsTrue (p_Conditions obj) PlanSpecValidated then [Event EventTypeNormal ''Validated'' ''Plan is valid''] else []) @
        (if changed then [Event EventTypeNormal ''Resolved'' (''Resolved latest version from '' @ ''Spec.Version'' @ '': '' @ latest)] else [])) s \<and>
     h_obj s = obj\<lparr>p_Status := (p_Status obj)\<lparr>st_LatestVersion := latest,
       st_Conditions := resolved_conds ts changed ''Version'' (validated_conds ts (p_Conditions obj))\<rparr>\<rparr>"
  using assms(1)
proof (rule status_handler_enters [where env = env and cid = cid])
  fix s0
  let ?e = "if \<not> IsTrue (p_Conditions obj) PlanSpecValidated then [Event EventTypeNormal ''Validated'' ''Plan is valid''] else []"
  assume p: "plan_status_handler X env cid w obj = resolve_plan X env cid w ?e s0"
    and o: "h_obj (on_obj (CreateUnknownIfNotExists (FormatRFC3339 X (pw_now w)) PlanLatestResolved) s0) =
       obj\<lparr>p_Status := (p_Status obj)\<lparr>st_Conditions := validated_conds (FormatRFC3339 X (pw_now w)) (p_Conditions obj)\<rparr>\<rparr>"
  define t where "t = on_obj (CreateUnknownIfNotExists ts PlanLatestResolved) s0"
  have ot: "h_obj t = obj\<lparr>p_Status := (p_Status obj)\<lparr>st_Conditions := validated_conds ts (p_Conditions obj)\<rparr>\<rparr>"
    using o unfolding t_def ts_def .
  have "resolve_plan X env cid w ?e s0 = resolved_to X w ?e t latest ''Spec.Version'' ''Version''"
    using assms(2) ot unfolding resolve_plan_def Let_def ts_def [symmetric] t_def [symmetric] by (simp add: latest_def)
  with p resolved_to_eq [of X w ?e t latest "''Spec.Version''" "''Version''"] show ?thesis
    unfolding ot ts_def [symmetric] by (simp add: validated_resolved changed_def)
qed

lemma resolved_conds_reads:
  "findOrNotCreateCond (resolved_conds ts changed reason cs) PlanSpecValidated = findOrNotCreateCond cs PlanSpecValidated"
  "MatchesError (resolved_conds ts changed reason cs) PlanLatestResolved reason None"
  "GetReason (resolved_conds ts changed reason cs) PlanLatestResolved = reason"
  "\<not> changed \<Longrightarrow> findOrNotCreateCond (resolved_conds ts changed reason cs) PlanComplete = findOrNotCreateCond cs PlanComplete"
  "changed \<Longrightarrow> IsFalse (resolved_conds ts changed reason cs) PlanComplete \<and>
     GetReason (resolved_conds ts changed reason cs) PlanComplete = ''Resolved''"
  "findCond cs c \<noteq> None \<Longrightarrow> findCond (resolved_conds ts changed reason cs) c \<noteq> None"
proof -
  show "findOrNotCreateCond (resolved_conds ts changed reason cs) PlanSpecValidated = findOrNotCreateCond cs PlanSpecValidated"
    by (simp add: resolved_conds_def lookup_SetError_other writers_other)
  show "MatchesError (resolved_conds ts changed reason cs) PlanLatestResolved reason None"
    "GetReason (resolved_conds ts changed reason cs) PlanLatestResolved = reason"
    by (simp_all add: resolved_conds_def MatchesError_def SetError_reads)
  show "\<not> changed \<Longrightarrow> findOrNotCreateCond (resolved_conds ts changed reason cs) PlanComplete = findOrNotCreateCond cs PlanComplete"
    by (simp add: resolved_conds_def lookup_SetError_other)
  show "changed \<Longrightarrow> IsFalse (resolved_conds ts changed reason cs) PlanComplete \<and>
     GetReason (resolved_conds ts changed reason cs) PlanComplete = ''Resolved''"
    by (simp add: resolved_conds_def SetError_reads_other)
      (simp add: IsFalse_def getStatus_def GetReason_def SetReason_def SetMessage_def SetFalse_def setStatus_def
        conds.lookup_modify_thrice setValue_Message_def setValue_Status_def touchTS_def)
  show "findCond cs c \<noteq> None \<Longrightarrow> findCond (resolved_conds ts changed reason cs) c \<noteq> None"
    by (cases changed) (simp_all add: resolved_conds_def findCond_SetError writer_defs findCond_with_cond del: not_None_eq)
qed

lemma MatchesError_cong:
  "findOrNotCreateCond cs c = findOrNotCreateCond ds c \<Longrightarrow> MatchesError cs c r e = MatchesError ds c r e"
  using reads_cong [of cs c ds] by (simp add: MatchesError_def Let_def split: option.splits)

lemma IsTrue_of_Matches: "MatchesError cs c r None \<Longrightarrow> IsTrue cs c"
  by (simp add: MatchesError_def)

text \<open>A plan whose conditions say so already is left as it is, but for its hash.\<close>

lemma status_handler_settled:
  assumes "Validate X (pw_secretGet w) obj = None" "sp_Version (p_Spec obj) \<noteq> []"
    and "st_LatestVersion (p_Status obj) = MungeVersion (sp_Version (p_Spec obj))"
    and "findCond (p_Conditions obj) PlanComplete \<noteq> None"
    and "findCond (p_Conditions obj) PlanSpecValidated \<noteq> None"
    and "findCond (p_Conditions obj) PlanLatestResolved \<noteq> None"
    and "MatchesError (p_Conditions obj) PlanSpecValidated ''PlanIsValid'' None"
    and "MatchesError (p_Conditions obj) PlanLatestResolved ''Version'' None"
  shows "\<exists>s. plan_status_handler X env cid w obj = return_digest X w [] s \<and> h_obj s = obj"
proof -
  have t: "IsTrue (p_Conditions obj) PlanSpecValidated" "IsTrue (p_Conditions obj) PlanLatestResolved"
    using assms(7,8) IsTrue_of_Matches by blast+
  have v: "validated_conds ts (p_Conditions obj) = p_Conditions obj" for ts
    unfolding validated_conds_def
    by (simp only: CreateUnknown_present [OF assms(4)] CreateUnknown_present [OF assms(5)]
        SetError_noop [OF assms(5,7)] CreateUnknown_present [OF assms(6)])
  have "resolved_conds ts False ''Version'' (p_Conditions obj) = p_Conditions obj" for ts
    by (simp add: resolved_conds_def SetError_noop [OF assms(6,8)])
  with status_handler_valid [OF assms(1,2), of env cid] t v assms(3) show ?thesis by auto
qed

lemma versioned_status:
  assumes "Validate X (pw_secretGet w) obj = None" "sp_Version (p_Spec obj) \<noteq> []"
    and "plan_status_handler X env cid w obj = h"
  obtains ch where "st_LatestVersion (ho_status h) = MungeVersion (sp_Version (p_Spec obj))"
    "st_Conditions (ho_status h) = resolved_conds (FormatRFC3339 X (pw_now w)) ch ''Version''
       (validated_conds (FormatRFC3339 X (pw_now w)) (p_Conditions obj))"
    "st_Applying (ho_status h) = st_Applying (p_Status obj)"
    "ch \<longleftrightarrow> \<not> (IsTrue (p_Conditions obj) PlanLatestResolved \<and> st_LatestVersion (p_Status obj) = MungeVersion (sp_Version (p_Spec obj)))"
proof -
  let ?ts = "FormatRFC3339 X (pw_now w)"
  obtain s effs ch where h: "h = return_digest X w effs s"
    and s: "h_obj s = obj\<lparr>p_Status := (p_Status obj)\<lparr>st_LatestVersion := MungeVersion (sp_Version (p_Spec obj)),
       st_Conditions := resolved_conds ?ts ch ''Version'' (validated_conds ?ts (p_Conditions obj))\<rparr>\<rparr>"
    and ch: "ch \<longleftrightarrow> \<not> (IsTrue (p_Conditions obj) PlanLatestResolved \<and>
         st_LatestVersion (p_Status obj) = MungeVersion (sp_Version (p_Spec obj)))"
    using status_handler_valid [OF assms(1,2), of env cid] assms(3) by auto
  obtain p e where d: "DigestStatus X (pw_secretGet w) (h_obj s) = (p, e)" by fastforce
  have hp: "ho_status h = p_Status p" by (simp add: h return_digest_simps d)
  show ?thesis using DigestStatus_frame [OF d] s ch by (intro that [of ch]) (simp_all add: hp)
qed

lemma resolved_true:
  "IsTrue (resolved_conds ts ch r (validated_conds ts cs)) PlanSpecValidated" "IsTrue (resolved_conds ts ch r (validated_conds ts cs)) PlanLatestResolved"
  using MatchesError_cong [OF resolved_conds_reads(1)] validated_conds_reads(3) resolved_conds_reads(2) IsTrue_of_Matches by blast+

text \<open>
  C23: a valid plan with a version of its own, whose digest succeeds, is validated and resolved: the
  latest version is the munged version, both conditions are true, the applying list is unchanged,
  and Complete is reset with the reason \<open>Resolved\<close> exactly when the plan was not resolved to this
  version before.
\<close>

theorem versioned_plan_resolved:
  assumes "Validate X (pw_secretGet w) obj = None" "sp_Version (p_Spec obj) \<noteq> []"
    and "plan_status_handler X env cid w obj = h" "ho_err h = None"
  shows "st_LatestVersion (ho_status h) = MungeVersion (sp_Version (p_Spec obj)) \<and>
     IsTrue (st_Conditions (ho_status h)) PlanSpecValidated \<and> IsTrue (st_Conditions (ho_status h)) PlanLatestResolved \<and>
     st_Applying (ho_status h) = st_Applying (p_Status obj) \<and>
     (if IsTrue (p_Conditions obj) PlanLatestResolved \<and>
         st_LatestVersion (p_Status obj) = MungeVersion (sp_Version (p_Spec obj))
      then IsTrue (st_Conditions (ho_status h)) PlanComplete = IsTrue (p_Conditions obj) PlanComplete
      else IsFalse (st_Conditions (ho_status h)) PlanComplete \<and>
           GetReason (st_Conditions (ho_status h)) PlanComplete = ''Resolved'')"
proof -
  let ?ts = "FormatRFC3339 X (pw_now w)"
  let ?vc = "validated_conds ?ts (p_Conditions obj)"
  obtain ch where v: "st_LatestVersion (ho_status h) = MungeVersion (sp_Version (p_Spec obj))"
    "st_Conditions (ho_status h) = resolved_conds ?ts ch ''Version'' ?vc" "st_Applying (ho_status h) = st_Applying (p_Status obj)"
    "ch \<longleftrightarrow> \<not> (IsTrue (p_Conditions obj) PlanLatestResolved \<and> st_LatestVersion (p_Status obj) = MungeVersion (sp_Version (p_Spec obj)))"
    by (rule versioned_status [OF assms(1-3)])
  have "IsTrue (resolved_conds ?ts ch ''Version'' ?vc) PlanComplete = IsTrue (p_Conditions obj) PlanComplete" if "\<not> ch"
    using reads_cong(1) [OF resolved_conds_reads(4) [OF that, of ?ts "''Version''" ?vc]]
      reads_cong(1) [OF validated_conds_reads(2), of ?ts "p_Conditions obj"] IsTrue_CreateUnknown by blast
  then show ?thesis using v resolved_true resolved_conds_reads(5) by auto
qed

lemma sample_valid: "Validate sample g sample_plan = None" "sp_Version (p_Spec sample_plan) \<noteq> []"
  by (simp_all add: Validate_def sample_plan_def sample_spec_def)

lemma sample_digest_ok: "p_Spec p = sample_spec \<Longrightarrow> p_meta p = p_meta sample_plan \<Longrightarrow> snd (DigestStatus X g p) = None"
  by (simp add: DigestStatus_def addToHashFromAnnotation_def sample_spec_def sample_plan_def empty_meta_def)

lemma sample_status_ok: "ho_err (plan_status_handler sample env cid w sample_plan) = None"
proof -
  obtain s effs where s: "plan_status_handler sample env cid w sample_plan = return_digest sample w effs s"
    "p_Spec (h_obj s) = p_Spec sample_plan" "p_meta (h_obj s) = p_meta sample_plan"
    using status_handler_valid [OF sample_valid, where w = w and env = env and cid = cid]
    by (elim exE conjE) simp
  have "p_Spec (h_obj s) = sample_spec" unfolding s(2) by (simp add: sample_plan_def)
  from sample_digest_ok [OF this s(3)] s(1) show ?thesis by (simp add: return_digest_simps)
qed

theorem versioned_plan_resolved_witness:
  "\<exists>h. plan_status_handler sample (\<lambda>_. None) [] ready_world sample_plan = h \<and>
     IsTrue (st_Conditions (ho_status h)) PlanLatestResolved \<and> st_LatestVersion (ho_status h) = ''v1.2-k3s1''"
proof -
  have "MungeVersion (sp_Version (p_Spec sample_plan)) = ''v1.2-k3s1''"
    by (simp add: MungeVersion_def ReplaceAll_char sample_plan_def sample_spec_def)
  with versioned_plan_resolved [OF sample_valid refl sample_status_ok, where w = ready_world and env = "\<lambda>_. None" and cid = "[]"]
  show ?thesis by auto
qed

text \<open>
  C15: the status handler settles on a valid plan with a version in its spec, whose digest annotation, if it has one, names no field
  of the status: when the handler returned no error, then run again on the status it produced, at any later time and as long as the
  secrets are the same, it returns that very status and causes no event and no enqueue, so no further write to the API server
  follows. Plans with a channel are not covered: they poll again once the interval has passed.
\<close>

theorem status_handler_settles:
  assumes "Validate X (pw_secretGet w) obj = None" "sp_Version (p_Spec obj) \<noteq> []"
    and "\<forall>st. included_fields X (obj\<lparr>p_Status := st\<rparr>) = included_fields X obj"
    and "plan_status_handler X env cid w obj = h" "ho_err h = None"
    and "obj' = obj\<lparr>p_Status := ho_status h\<rparr>" "pw_secretGet w' = pw_secretGet w"
  shows "plan_status_handler X env cid w' obj' =
    \<lparr>ho_effects = [], ho_obj = obj', ho_status = p_Status obj', ho_err = None\<rparr>"
proof -
  let ?ts = "FormatRFC3339 X (pw_now w)" and ?g = "pw_secretGet w"
  let ?vc = "validated_conds ?ts (p_Conditions obj)"
  obtain s effs ch where h: "h = return_digest X w effs s"
    and s: "h_obj s = obj\<lparr>p_Status := (p_Status obj)\<lparr>st_LatestVersion := MungeVersion (sp_Version (p_Spec obj)),
       st_Conditions := resolved_conds ?ts ch ''Version'' ?vc\<rparr>\<rparr>"
    using status_handler_valid [OF assms(1,2), of env cid] assms(4) by auto
  let ?rc = "resolved_conds ?ts ch ''Version'' ?vc"
  have ne: "GetReason ?rc PlanLatestResolved \<noteq> ''Error''" by (simp add: resolved_conds_reads(3))
  let ?pre = "MungeVersion (sp_Version (p_Spec obj)) @ sp_ServiceAccountName (p_Spec obj)"
  obtain incl where incl: "included_fields X (obj\<lparr>p_Status := st\<rparr>) = Inr incl" for st
  proof (cases "included_fields X obj")
    case (Inl e)
    then have "isl (addToHashFromAnnotation X [] (h_obj s))" using assms(3) by (simp add: addToHash_fields s)
    moreover have "GetReason (p_Conditions (h_obj s)) PlanLatestResolved \<noteq> ''Error''" by (simp add: s ne)
    ultimately have "snd (DigestStatus X ?g (h_obj s)) \<noteq> None" using digest_errors [of X ?g "h_obj s"] by blast
    with assms(5) show ?thesis by (simp add: h return_digest_simps)
  qed (use assms(3) that in simp)
  obtain hash where ds: "digest_secrets X ?g (p_Namespace obj) (?pre @ incl) (sp_Secrets (p_Spec obj)) = Inr hash"
    and o': "obj' = (h_obj s)\<lparr>p_Status := (p_Status (h_obj s))\<lparr>st_LatestHash := sha224_hex hash\<rparr>\<rparr>"
    using assms(5,6) ne s incl
    by (cases "digest_secrets X ?g (p_Namespace obj) (?pre @ incl) (sp_Secrets (p_Spec obj))")
      (auto simp: h return_digest_simps DigestStatus_def addToHash_fields)
  have f: "p_Spec obj' = p_Spec obj" "p_meta obj' = p_meta obj" "p_Conditions obj' = ?rc"
    "st_LatestVersion (p_Status obj') = MungeVersion (sp_Version (p_Spec obj))" "st_LatestHash (p_Status obj') = sha224_hex hash"
    using o' s by simp_all
  have m: "MatchesError ?rc PlanSpecValidated ''PlanIsValid'' None"
    using MatchesError_cong [OF resolved_conds_reads(1)] validated_conds_reads(3) by blast
  have p: "findCond ?rc c \<noteq> None" if "c \<in> {PlanLatestResolved, PlanSpecValidated, PlanComplete}" for c
    using that validated_conds_reads(4) resolved_conds_reads(6) by blast
  have v: "Validate X (pw_secretGet w') obj' = None" using assms(1,7) Validate_cong [OF f(1,2), of X "pw_secretGet w"] by simp
  have "\<exists>s'. plan_status_handler X env cid w' obj' = return_digest X w' [] s' \<and> h_obj s' = obj'"
    by (rule status_handler_settled [OF v]) (use f assms(2) m p resolved_conds_reads(2) in simp_all)
  then obtain s' where s': "plan_status_handler X env cid w' obj' = return_digest X w' [] s'" "h_obj s' = obj'" by blast
  have "DigestStatus X (pw_secretGet w') obj' = (obj'\<lparr>p_Status := (p_Status obj')\<lparr>st_LatestHash := sha224_hex hash\<rparr>\<rparr>, None)"
    using ds ne f assms(6,7) incl by (simp add: DigestStatus_def addToHash_fields)
  also have "\<dots> = (obj', None)" by (simp flip: f(5))
  finally show ?thesis using s' by (simp add: return_digest_def)
qed

theorem status_handler_settles_witness:
  "\<exists>h obj'. plan_status_handler sample (\<lambda>_. None) [] ready_world sample_plan = h \<and> obj' = sample_plan\<lparr>p_Status := ho_status h\<rparr> \<and>
     plan_status_handler sample (\<lambda>_. None) [] (ready_world\<lparr>pw_now := 99\<rparr>) obj' =
       \<lparr>ho_effects = [], ho_obj = obj', ho_status = p_Status obj', ho_err = None\<rparr>"
proof -
  have a: "\<forall>st. included_fields sample (sample_plan\<lparr>p_Status := st\<rparr>) = included_fields sample sample_plan"
    by (simp add: included_fields_def)
  from status_handler_settles [OF sample_valid a refl sample_status_ok refl, where w = ready_world and
      w' = "ready_world\<lparr>pw_now := 99\<rparr>" and env = "\<lambda>_. None" and cid = "[]"]
  show ?thesis by simp
qed

subsection \<open>Polling a channel\<close>

lemma on_obj_status_frame [simp]:
  "st_Applying (h_status (on_obj f s)) = st_Applying (h_status s)"
  "st_LatestVersion (h_status (on_obj f s)) = st_LatestVersion (h_status s)"
  "st_LatestHash (h_status (on_obj f s)) = st_LatestHash (h_status s)"
  by (simp_all add: on_obj_def Let_def)

lemma getTS_CreateUnknown: "getTS (CreateUnknownIfNotExists ts c cs) c = getTS cs c"
  by (cases "findCond cs c") (simp_all add: CreateUnknownIfNotExists_def getTS_def findOrNotCreateCond_def
      writer_defs with_cond_absent findCond_append setValue_Status_def new_cond_def)

lemma GetMessage_CreateUnknown: "GetMessage (CreateUnknownIfNotExists ts c cs) c = GetMessage cs c"
  by (cases "findCond cs c") (simp_all add: CreateUnknownIfNotExists_def GetMessage_def findOrNotCreateCond_def
      writer_defs with_cond_absent findCond_append setValue_Status_def new_cond_def)

lemma getTS_cong: "findOrNotCreateCond cs c = findOrNotCreateCond ds c \<Longrightarrow> getTS cs c = getTS ds c"
  by (simp add: getTS_def)

lemma validated_updated:
  "GetLastUpdated (validated_conds ts cs) PlanLatestResolved = GetLastUpdated cs PlanLatestResolved"
  using getTS_cong [OF validated_conds_reads(1)] getTS_CreateUnknown by (simp add: GetLastUpdated_def)

text \<open>The plan handlers only ever see a resolution's time when it was first reached.\<close>

lemma resolved_updated:
  assumes "IsTrue cs PlanLatestResolved" "GetMessage cs PlanLatestResolved = []"
  shows "GetLastUpdated (resolved_conds ts changed reason cs) PlanLatestResolved = GetLastUpdated cs PlanLatestResolved"
proof -
  let ?ds = "if changed then SetReason PlanComplete ''Resolved'' (SetMessage ts PlanComplete [] (SetFalse ts PlanComplete cs)) else cs"
  have l: "findOrNotCreateCond ?ds PlanLatestResolved = findOrNotCreateCond cs PlanLatestResolved"
    by (simp add: writers_other)
  obtain c where c: "findOrNotCreateCond cs PlanLatestResolved = Some c" "cond_Status c = ''True''" "cond_Message c = []"
    using assms by (auto simp: IsTrue_def getStatus_def GetMessage_def split: option.splits)
  have "gc_LastUpdateTime (errored ts reason None c) = gc_LastUpdateTime c"
    using c by (simp add: errored_def setValue_Status_def setValue_Message_def)
  then show ?thesis
    using l c by (simp add: resolved_conds_def GetLastUpdated_def getTS_def lookup_SetError_same conds.present_def
        del: if_split_mem1)
qed

text \<open>The state in which a valid plan is when its resolution starts, and what a poll that is not due leaves.\<close>

definition entered :: "string \<Rightarrow> Plan \<Rightarrow> hstate" where
  "entered ts obj = on_obj (CreateUnknownIfNotExists ts PlanLatestResolved) (on_obj (SetError ts PlanSpecValidated ''PlanIsValid'' None)
     (on_obj (CreateUnknownIfNotExists ts PlanSpecValidated) (on_obj (CreateUnknownIfNotExists ts PlanComplete) (enter obj))))"

lemma entered_simps:
  "h_obj (entered ts obj) = obj\<lparr>p_Status := (p_Status obj)\<lparr>st_Conditions := validated_conds ts (p_Conditions obj)\<rparr>\<rparr>"
  "st_Applying (h_status (entered ts obj)) = st_Applying (p_Status obj)"
  "st_LatestVersion (h_status (entered ts obj)) = st_LatestVersion (p_Status obj)"
  "st_LatestHash (h_status (entered ts obj)) = st_LatestHash (p_Status obj)"
  by (simp_all add: entered_def validated_conds_def)

definition valid_events :: "Plan \<Rightarrow> effect list" where
  "valid_events obj = (if \<not> IsTrue (p_Conditions obj) PlanSpecValidated
     then [Event EventTypeNormal ''Validated'' ''Plan is valid''] else [])"

lemma status_handler_channel:
  assumes "Validate X (pw_secretGet w) obj = None" "sp_Version (p_Spec obj) = []" "sp_Channel (p_Spec obj) \<noteq> []"
  shows "\<exists>effs. plan_status_handler X env cid w obj =
    (case poll_wait X env w (entered (FormatRFC3339 X (pw_now w)) obj) of
       Some d \<Rightarrow> return_status (valid_events obj @ [PlanEnqueueAfter (p_Namespace obj) (p_Name obj) d])
         (entered (FormatRFC3339 X (pw_now w)) obj) None
     | None \<Rightarrow>
         (case ResolveChannel (pw_http w) (sp_Channel (p_Spec obj)) (st_LatestVersion (p_Status obj)) cid of
            Inl err \<Rightarrow> return_status effs (entered (FormatRFC3339 X (pw_now w)) obj) (Some err)
          | Inr latest \<Rightarrow> resolved_to X w (valid_events obj) (entered (FormatRFC3339 X (pw_now w)) obj) (MungeVersion latest)
              ''Spec.Channel'' ''Channel''))"
proof -
  let ?ts = "FormatRFC3339 X (pw_now w)"
  let ?s = "on_obj (CreateUnknownIfNotExists ?ts PlanSpecValidated) (on_obj (CreateUnknownIfNotExists ?ts PlanComplete) (enter obj))"
  have v: "Validate X (pw_secretGet w) (h_obj ?s) = None"
    using assms(1) Validate_cong [of "h_obj ?s" obj X "pw_secretGet w"] by simp
  have iv: "IsTrue (h_Conditions ?s) PlanSpecValidated = IsTrue (p_Conditions obj) PlanSpecValidated"
    by (simp add: IsTrue_CreateUnknown) (simp add: reads_cong(1) [OF writers_other(4)])
  show ?thesis
    using assms(2,3)
    unfolding plan_status_handler_def resolve_plan_def Let_def v iv entered_def [symmetric] option.case
    unfolding valid_events_def [symmetric]
    by (cases "poll_wait X env w (entered ?ts obj)";
        cases "ResolveChannel (pw_http w) (sp_Channel (p_Spec obj)) (st_LatestVersion (p_Status obj)) cid")
      (auto simp: entered_simps)
qed

lemma poll_wait_entered:
  "poll_wait X env w (entered ts obj) =
     (if IsTrue (p_Conditions obj) PlanLatestResolved
      then (case ParseRFC3339 X (GetLastUpdated (p_Conditions obj) PlanLatestResolved) of
          None \<Rightarrow> None
        | Some t0 \<Rightarrow> if time_Sub (pw_now w) t0 < PollingInterval X env
            then Some (wrap64 (PollingInterval X env - time_Sub (pw_now w) t0)) else None)
      else None)"
  by (simp add: poll_wait_def entered_simps validated_resolved validated_updated Let_def split: option.splits)

text \<open>
  A valid plan that follows a channel and was resolved less than a polling interval ago is not polled
  again: the handler asks to see the plan again when the interval has passed, reports no error,
  and keeps version, hash and applying list.
\<close>

lemma channel_poll_waits:
  assumes "Validate X (pw_secretGet w) obj = None" "sp_Version (p_Spec obj) = []" "sp_Channel (p_Spec obj) \<noteq> []"
    and "IsTrue (p_Conditions obj) PlanLatestResolved"
    and "ParseRFC3339 X (GetLastUpdated (p_Conditions obj) PlanLatestResolved) = Some t0"
    and "time_Sub (pw_now w) t0 < PollingInterval X env"
  shows "\<exists>h effs. (\<forall>http. plan_status_handler X env cid (w\<lparr>pw_http := http\<rparr>) obj = h) \<and> ho_err h = None \<and>
     ho_effects h = effs @ [PlanEnqueueAfter (p_Namespace obj) (p_Name obj)
       (wrap64 (PollingInterval X env - time_Sub (pw_now w) t0))] \<and>
     st_LatestVersion (ho_status h) = st_LatestVersion (p_Status obj) \<and>
     st_LatestHash (ho_status h) = st_LatestHash (p_Status obj) \<and> st_Applying (ho_status h) = st_Applying (p_Status obj)"
proof -
  let ?e = "valid_events obj"
  let ?q = "PlanEnqueueAfter (p_Namespace obj) (p_Name obj) (wrap64 (PollingInterval X env - time_Sub (pw_now w) t0))"
  let ?h = "return_status (?e @ [?q]) (entered (FormatRFC3339 X (pw_now w)) obj) None"
  have "plan_status_handler X env cid (w\<lparr>pw_http := http\<rparr>) obj = ?h" for http
    using status_handler_channel [of X "w\<lparr>pw_http := http\<rparr>" obj env cid] assms by (auto simp: poll_wait_entered)
  then show ?thesis by (intro exI [of _ ?h] exI [of _ ?e]) (simp add: return_status_def entered_simps)
qed

definition channel_plan :: "string \<Rightarrow> Plan" where
  "channel_plan updated = sample_plan\<lparr>p_Spec := sample_spec\<lparr>sp_Version := [], sp_Channel := ''https://c/stable''\<rparr>,
     p_Status := (p_Status sample_plan)\<lparr>st_Conditions :=
       [(true_cond ''LatestResolved'' ''Channel'')\<lparr>gc_LastUpdateTime := updated\<rparr>]\<rparr>\<rparr>"

lemma channel_plan_simps:
  "Validate sample g (channel_plan u) = None" "sp_Version (p_Spec (channel_plan u)) = []"
  "sp_Channel (p_Spec (channel_plan u)) \<noteq> []" "IsTrue (p_Conditions (channel_plan u)) PlanLatestResolved"
  "GetLastUpdated (p_Conditions (channel_plan u)) PlanLatestResolved = u"
  "GetMessage (p_Conditions (channel_plan u)) PlanLatestResolved = []"
  by (simp_all add: channel_plan_def sample_spec_def Validate_def IsTrue_def getStatus_def GetLastUpdated_def getTS_def
      GetMessage_def findOrNotCreateCond_def true_cond_def new_cond_def PlanLatestResolved_def)

lemma sample_parse: "ParseRFC3339 sample ''100'' = Some (100 * Second)"
proof -
  have "ParseInt ''100'' 64 = Some 100" by code_simp
  then show ?thesis by (simp add: sample_def)
qed

text \<open>
  C34: a poll of the channel does not count as an update: for a plan that is already resolved, a
  successful poll leaves the time of the last update as it was, whatever version the channel
  gives. So once the first interval has passed, every later event of the plan polls the channel
  again, and the plan is not scheduled for a next poll.
\<close>

theorem channel_poll_time_not_refreshed:
  assumes "Validate X (pw_secretGet w) obj = None" "sp_Version (p_Spec obj) = []" "sp_Channel (p_Spec obj) \<noteq> []"
    and "IsTrue (p_Conditions obj) PlanLatestResolved" "GetMessage (p_Conditions obj) PlanLatestResolved = []"
    and "ParseRFC3339 X (GetLastUpdated (p_Conditions obj) PlanLatestResolved) = Some t0"
    and "PollingInterval X env \<le> time_Sub (pw_now w) t0"
    and "ResolveChannel (pw_http w) (sp_Channel (p_Spec obj)) (st_LatestVersion (p_Status obj)) cid = Inr latest"
    and "plan_status_handler X env cid w obj = h"
  shows "st_LatestVersion (ho_status h) = MungeVersion latest \<and>
     GetLastUpdated (st_Conditions (ho_status h)) PlanLatestResolved = GetLastUpdated (p_Conditions obj) PlanLatestResolved \<and>
     (\<forall>e\<in>set (ho_effects h). is_Event e)"
proof -
  let ?ts = "FormatRFC3339 X (pw_now w)"
  have "poll_wait X env w (entered ?ts obj) = None" using assms(4,6,7) by (simp add: poll_wait_entered)
  then have h: "h = resolved_to X w (valid_events obj) (entered ?ts obj) (MungeVersion latest) ''Spec.Channel'' ''Channel''"
    using status_handler_channel [OF assms(1-3), of env cid] assms(8,9) by auto
  have ev: "\<forall>e\<in>set (valid_events obj). is_Event e" by (simp add: valid_events_def)
  obtain effs' s' ch where h': "h = return_digest X w effs' s'" and ev': "\<forall>e\<in>set effs'. is_Event e"
    and s': "h_obj s' = obj\<lparr>p_Status := (p_Status obj)\<lparr>st_LatestVersion := MungeVersion latest,
       st_Conditions := resolved_conds ?ts ch ''Channel'' (validated_conds ?ts (p_Conditions obj))\<rparr>\<rparr>"
    using resolved_to_eq [of X w "valid_events obj" "entered ?ts obj" "MungeVersion latest" "''Spec.Channel''" "''Channel''"] ev
    unfolding h entered_simps by (elim exE conjE) (auto split: if_splits)
  obtain p e where d: "DigestStatus X (pw_secretGet w) (h_obj s') = (p, e)" by fastforce
  have hp: "ho_status h = p_Status p" "ho_effects h = effs'" by (simp_all add: h' return_digest_simps d)
  have "IsTrue (validated_conds ?ts (p_Conditions obj)) PlanLatestResolved"
    "GetMessage (validated_conds ?ts (p_Conditions obj)) PlanLatestResolved = []"
    using assms(4,5) validated_resolved reads_cong(4) [OF validated_conds_reads(1)] GetMessage_CreateUnknown by metis+
  from resolved_updated [OF this] ev' DigestStatus_frame(3,4) [OF d] s' validated_updated show ?thesis
    unfolding hp by simp
qed

theorem channel_poll_time_not_refreshed_witness:
  "\<exists>w h. plan_status_handler sample (\<lambda>_. None) [] w (channel_plan ''100'') = h \<and>
     st_LatestVersion (ho_status h) = ''stable'' \<and>
     GetLastUpdated (st_Conditions (ho_status h)) PlanLatestResolved = ''100'' \<and> pw_now w = 5000 * Second"
proof -
  let ?w = "ready_world\<lparr>pw_now := 5000 * Second, pw_http := \<lparr>http_NewRequest = (\<lambda>u. Inr \<lparr>rq_URL = u, rq_Header = Map.empty\<rparr>),
      http_Do = (\<lambda>rq. Inr \<lparr>rs_StatusCode = 200, rs_Proto = [], rs_Status = [], rs_Location = Inl (ExtError 2 [])\<rparr>)\<rparr>\<rparr>"
  have "path_Base ''https://c/stable'' = ''stable''" "go_div 200 200 = 1" by code_simp+
  then have r: "ResolveChannel (pw_http ?w) (sp_Channel (p_Spec (channel_plan ''100'')))
      (st_LatestVersion (p_Status (channel_plan ''100''))) [] = Inr ''stable''"
    by (simp add: ResolveChannel_def channel_plan_def sample_plan_def)
  have i: "PollingInterval sample (\<lambda>_. None) \<le> time_Sub (pw_now ?w) (100 * Second)"
    by (simp add: PollingInterval_def defaultPollingInterval_def time_Sub_def)
  have "MungeVersion ''stable'' = ''stable''" by (simp add: MungeVersion_def ReplaceAll_char)
  with channel_poll_time_not_refreshed [OF channel_plan_simps(1-4,6) _ i r refl] sample_parse channel_plan_simps(5)
  show ?thesis by (intro exI [of _ ?w] exI) auto
qed

end
