(* ===== verification/PlanController.thy ===== *)
theory PlanController
  imports HandleUpgrade
begin

text \<open>
  \<^verbatim>\<open>pkg/generated/controllers/upgrade.cattle.io/v1/plan.go\<close>: the wrappers the plan handlers run in.
  \<^verbatim>\<open>sync\<close> runs a handler on a copy of the plan and sends a changed status to the API server;
  \<^verbatim>\<open>Handle\<close> passes the generated objects to \<^verbatim>\<open>apply\<close>, once per resource version of the plan.
  Copies are values here. The wrangler condition that both registrations leave empty is the
  parameter \<open>cond\<close> with its two operations.
\<close>

subsection \<open>planStatusHandler.sync\<close>

record status_client =
  sc_UpdateStatus :: "Plan \<Rightarrow> Plan result"
  sc_SetError :: "string \<Rightarrow> go_error option \<Rightarrow> PlanStatus \<Rightarrow> PlanStatus"
  sc_LastUpdated :: "string \<Rightarrow> string \<Rightarrow> PlanStatus \<Rightarrow> PlanStatus"
  sc_timestamp :: string

text \<open>The status to store: the handler's, or the old one when it failed.\<close>

definition sync_status ::
    "('sel, 'req) extern \<Rightarrow> status_client \<Rightarrow> string \<Rightarrow> PlanStatus \<Rightarrow> handled \<Rightarrow> PlanStatus" where
  "sync_status X C cond origStatus h =
     (let newStatus = (if ho_err h \<noteq> None then origStatus else ho_status h)
      in if cond \<noteq> [] then
           (case ho_err h of
              None \<Rightarrow> sc_SetError C cond None newStatus
            | Some err \<Rightarrow>
                if IsConflict X err then sc_SetError C cond None newStatus
                else sc_SetError C cond (Some err) newStatus)
         else newStatus)"

definition sync ::
    "('sel, 'req) extern \<Rightarrow> status_client \<Rightarrow> string \<Rightarrow> (Plan \<Rightarrow> handled) \<Rightarrow> Plan option \<Rightarrow>
     (effect list \<times> Plan option \<times> go_error option)" where
  "sync X C cond handler objp =
     (case objp of
        None \<Rightarrow> ([], None, None)
      | Some obj0 \<Rightarrow>
          (let origStatus = p_Status obj0;
               h = handler obj0;
               newStatus = sync_status X C cond origStatus h
           in if \<not> status_DeepEqual X origStatus newStatus then
                (let newStatus' = (if cond \<noteq> [] then sc_LastUpdated C cond (sc_timestamp C) newStatus else newStatus);
                     obj = (ho_obj h)\<lparr>p_Status := newStatus'\<rparr>
                 in case sc_UpdateStatus C obj of
                      Inl newErr \<Rightarrow>
                        (ho_effects h @ [PlanUpdateStatus obj], Some obj,
                         (case ho_err h of None \<Rightarrow> Some newErr | Some err \<Rightarrow> Some err))
                    | Inr newObj \<Rightarrow> (ho_effects h @ [PlanUpdateStatus obj], Some newObj, ho_err h))
              else (ho_effects h, Some (ho_obj h), ho_err h)))"

subsection \<open>planGeneratingHandler\<close>

text \<open>The resource version of each plan, by key, for which objects were last applied.\<close>

type_synonym seen = "string \<rightharpoonup> string"

definition plan_key :: "Plan \<Rightarrow> string" where
  "plan_key obj = p_Namespace obj @ ''/'' @ p_Name obj"

definition isNewResourceVersion :: "bool \<Rightarrow> seen \<Rightarrow> Plan \<Rightarrow> bool" where
  "isNewResourceVersion UniqueApplyForResourceVersion seen obj =
     (if \<not> UniqueApplyForResourceVersion then True
      else (case seen (plan_key obj) of
          None \<Rightarrow> True
        | Some previous \<Rightarrow> previous \<noteq> om_ResourceVersion (p_meta obj)))"

definition storeResourceVersion :: "bool \<Rightarrow> seen \<Rightarrow> Plan \<Rightarrow> seen" where
  "storeResourceVersion UniqueApplyForResourceVersion seen obj =
     (if \<not> UniqueApplyForResourceVersion then seen
      else seen(plan_key obj \<mapsto> om_ResourceVersion (p_meta obj)))"

text \<open>
  \<^verbatim>\<open>Handle\<close>, as a handler for \<open>sync\<close> that also gives the new \<open>seen\<close>; \<^const>\<open>None\<close> is the panic of the
  generating handler. \<open>apply\<close> is \<^verbatim>\<open>ApplyObjects\<close> of the configured apply.
\<close>

definition Handle ::
    "bool \<Rightarrow> (Plan \<Rightarrow> Job list \<Rightarrow> go_error option) \<Rightarrow> (Plan \<Rightarrow> (Job list \<times> handled) option) \<Rightarrow> seen \<Rightarrow> Plan \<Rightarrow>
     (seen \<times> handled) option" where
  "Handle unique apply generate seen obj =
     (if (case om_DeletionTimestamp (p_meta obj) of None \<Rightarrow> False | Some t \<Rightarrow> \<not> IsZero t)
      then Some (seen, \<lparr>ho_effects = [], ho_obj = obj, ho_status = p_Status obj, ho_err = None\<rparr>)
      else (case generate obj of
          None \<Rightarrow> None
        | Some (objs, h) \<Rightarrow>
            (if ho_err h \<noteq> None then Some (seen, h)
             else if \<not> isNewResourceVersion unique seen (ho_obj h) then Some (seen, h)
             else
               (let h' = h\<lparr>ho_effects := ho_effects h @ [ApplyObjects (ho_obj h) objs]\<rparr>
                in case apply (ho_obj h) objs of
                     Some err \<Rightarrow> Some (seen, h'\<lparr>ho_err := Some err\<rparr>)
                   | None \<Rightarrow> Some (storeResourceVersion unique seen (ho_obj h), h')))))"

text \<open>
  \<^verbatim>\<open>Remove\<close>: a deleted plan is forgotten and an empty set of objects applied for it. The plan it
  names is built from the key with wrangler's \<^verbatim>\<open>kv.RSplit\<close>, the parameter \<open>rsplit\<close>.
\<close>

definition empty_plan :: Plan where
  "empty_plan = \<lparr>p_meta = empty_meta,
     p_Spec = \<lparr>sp_Concurrency = 0, sp_JobActiveDeadlineSecs = None, sp_NodeSelector = None, sp_ServiceAccountName = [],
       sp_Channel = [], sp_Version = [], sp_Secrets = [], sp_Tolerations = [], sp_Exclusive = False, sp_Window = None,
       sp_Prepare = None, sp_Upgrade = None, sp_Cordon = False, sp_Drain = None, sp_ImagePullSecrets = [],
       sp_PostCompleteDelay = None, sp_PriorityClassName = [], sp_PostCompleteLabels = None\<rparr>,
     p_Status = \<lparr>st_Conditions = [], st_LatestVersion = [], st_LatestHash = [], st_Applying = []\<rparr>\<rparr>"

definition Remove ::
    "bool \<Rightarrow> (string \<Rightarrow> string \<Rightarrow> string \<times> string) \<Rightarrow> (Plan \<Rightarrow> Job list \<Rightarrow> go_error option) \<Rightarrow> seen \<Rightarrow>
     string \<Rightarrow> Plan option \<Rightarrow> seen \<times> effect list \<times> go_error option" where
  "Remove unique rsplit apply seen key objp =
     (case objp of
        Some obj \<Rightarrow> (seen, [], None)
      | None \<Rightarrow>
          (let (namespace, name) = rsplit key ''/'';
               obj = empty_plan\<lparr>p_meta := empty_meta\<lparr>om_Namespace := namespace, om_Name := name\<rparr>\<rparr>
           in ((if unique then seen(key := None) else seen), [ApplyObjects obj []], apply obj [])))"

text \<open>The generating handler as it is registered: \<^verbatim>\<open>Handle\<close> inside \<open>sync\<close>.\<close>

definition generating_sync ::
    "('sel, 'req) extern \<Rightarrow> status_client \<Rightarrow> bool \<Rightarrow> (Plan \<Rightarrow> Job list \<Rightarrow> go_error option) \<Rightarrow>
     (Plan \<Rightarrow> (Job list \<times> handled) option) \<Rightarrow> seen \<Rightarrow> Plan \<Rightarrow>
     (seen \<times> effect list \<times> Plan option \<times> go_error option) option" where
  "generating_sync X C unique apply generate seen obj =
     (case Handle unique apply generate seen obj of
        None \<Rightarrow> None
      | Some (seen', h) \<Rightarrow> Some (seen', sync X C [] (\<lambda>_. h) (Some obj)))"

end
