(* ===== verification/Syncing.thy ===== *)
theory Syncing
  imports Resolving PlanController
begin

text \<open>
  What the wrappers of \<^verbatim>\<open>pkg/generated/controllers/upgrade.cattle.io/v1/plan.go\<close> make of the handlers:
  which status reaches the API server, and how often the jobs of a plan are applied.
\<close>

subsection \<open>sync and Handle\<close>

abbreviation is_apply :: "effect \<Rightarrow> bool" where "is_apply e \<equiv> (\<exists>p js. e = ApplyObjects p js)"

text \<open>The deep equality of statuses is equality: lists have no nil of their own here.\<close>

definition status_equality :: "('sel, 'req) extern \<Rightarrow> bool" where
  "status_equality X \<longleftrightarrow> (\<forall>a b. status_DeepEqual X a b \<longleftrightarrow> a = b)"

lemma sync_effects:
  assumes "status_equality X"
  shows "fst (sync X C [] handler (Some obj)) = ho_effects (handler obj) @
    (if ho_err (handler obj) = None \<and> ho_status (handler obj) \<noteq> p_Status obj
     then [PlanUpdateStatus ((ho_obj (handler obj))\<lparr>p_Status := ho_status (handler obj)\<rparr>)] else [])"
  using assms by (simp add: sync_def sync_status_def status_equality_def Let_def split: sum.splits)

lemma generating_frame:
  assumes "plan_generating_handler X env ctl w obj = Some (jobs, h)"
  shows "p_meta (ho_obj h) = p_meta obj" "\<forall>e\<in>set (ho_effects h). \<not> is_apply e"
  using assms by (auto simp: plan_generating_handler_def finish_generating_def return_status_def Let_def split_beta
      split: if_splits sum.splits build_end.splits)

text \<open>
  \<open>sync\<close> writes a status to the API server exactly when the handler succeeded and changed it, and then
  writes the status the handler returned; after an error nothing is written, whatever conditions
  the handler had set, and the handler's error is returned.
\<close>

lemma sync_writes_changes:
  assumes "status_equality X" "sc_UpdateStatus C = Inr"
  shows "sync X C [] handler (Some obj) =
    (let h = handler obj; stored = (ho_obj h)\<lparr>p_Status := ho_status h\<rparr>
     in if ho_err h = None \<and> ho_status h \<noteq> p_Status obj
        then (ho_effects h @ [PlanUpdateStatus stored], Some stored, None)
        else (ho_effects h, Some (ho_obj h), ho_err h))"
  using assms by (auto simp: sync_def sync_status_def status_equality_def Let_def)

definition sample_client :: status_client where
  "sample_client = \<lparr>sc_UpdateStatus = Inr, sc_SetError = (\<lambda>c e s. s), sc_LastUpdated = (\<lambda>c t s. s), sc_timestamp = []\<rparr>"

lemma sample_status_equality: "status_equality sample" by (simp add: status_equality_def)

lemma DigestStatus_missing:
  assumes "GetReason (p_Conditions p) PlanLatestResolved \<noteq> ''Error''"
    and "mindex (p_Annotations p) AnnotationIncludeInDigest = []"
    and "s \<in> set (tracked_secrets p)" "g (p_Namespace p) (ss_Name s) = Inl e"
  shows "snd (DigestStatus X g p) \<noteq> None"
proof -
  have "isl (digest_secrets X g (p_Namespace p) (st_LatestVersion (p_Status p) @ sp_ServiceAccountName (p_Spec p))
      (sp_Secrets (p_Spec p)))"
    unfolding digest_secrets_isl using assms(3,4) by (auto simp: secret_hash_def intro!: bexI [of _ s])
  then obtain e' where "digest_secrets X g (p_Namespace p) (st_LatestVersion (p_Status p) @ sp_ServiceAccountName (p_Spec p))
      (sp_Secrets (p_Spec p)) = Inl e'"
    by (auto simp: isl_def)
  with assms(1,2) show ?thesis by (simp add: DigestStatus_def annotation_absent)
qed

text \<open>
  C36: a tracked secret that does not exist makes the validation fail, but the plan's status never says
  so: the digest that follows fails too, its error makes \<open>sync\<close> drop the Validated condition the
  handler set, and the plan is only retried.
\<close>

theorem missing_secret_not_recorded:
  assumes "status_equality X" "\<And>es. merr_NewErrors X es = None \<longleftrightarrow> es = []"
    and "s \<in> set (tracked_secrets obj)" "pw_secretGet w (p_Namespace obj) (ss_Name s) = Inl e"
    and "GetReason (p_Conditions obj) PlanLatestResolved \<noteq> ''Error''"
    and "mindex (p_Annotations obj) AnnotationIncludeInDigest = []"
  shows "Validate X (pw_secretGet w) obj \<noteq> None \<and>
     ho_err (plan_status_handler X env cid w obj) \<noteq> None \<and>
     (\<forall>p. PlanUpdateStatus p \<notin> set (fst (sync X C [] (plan_status_handler X env cid w) (Some obj))))"
proof -
  let ?ts = "FormatRFC3339 X (pw_now w)"
  let ?s = "on_obj (CreateUnknownIfNotExists ?ts PlanSpecValidated) (on_obj (CreateUnknownIfNotExists ?ts PlanComplete) (enter obj))"
  have "\<not> plan_valid X (pw_secretGet w) obj" using assms(3,4) by (auto simp: plan_valid_def)
  then obtain err where v: "Validate X (pw_secretGet w) obj = Some err" using validate_valid [OF assms(2)] by auto
  have vs: "Validate X (pw_secretGet w) (h_obj ?s) = Some err"
    using v Validate_cong [of "h_obj ?s" obj X "pw_secretGet w"] by simp
  let ?o = "h_obj (on_obj (SetError ?ts PlanSpecValidated ''Error'' (Some err)) ?s)"
  obtain effs where h: "plan_status_handler X env cid w obj = return_digest X w effs (on_obj (SetError ?ts PlanSpecValidated ''Error'' (Some err)) ?s)"
    and ev: "\<forall>e\<in>set effs. is_Event e"
    unfolding plan_status_handler_def Let_def vs by auto
  have "GetReason (p_Conditions ?o) PlanLatestResolved = GetReason (p_Conditions obj) PlanLatestResolved"
    by (simp add: SetError_reads_other) (simp add: reads_cong(3) [OF writers_other(4)])
  then have d: "snd (DigestStatus X (pw_secretGet w) ?o) \<noteq> None"
    using assms(3-6) by (intro DigestStatus_missing [of ?o s]) simp_all
  then show ?thesis using v ev sync_effects [OF assms(1), of C "plan_status_handler X env cid w" obj]
    by (auto simp: h return_digest_simps)
qed

theorem missing_secret_not_recorded_witness:
  "\<exists>obj. Validate sample (pw_secretGet ready_world) obj \<noteq> None \<and>
     (\<forall>p. PlanUpdateStatus p \<notin> set (fst (sync sample sample_client [] (plan_status_handler sample (\<lambda>_. None) [] ready_world) (Some obj))))"
proof -
  let ?sec = "\<lparr>ss_Name = ''s'', ss_Path = [], ss_IgnoreUpdates = False, ss_DefaultMode = None\<rparr>"
  let ?obj = "sample_plan\<lparr>p_Spec := sample_spec\<lparr>sp_Secrets := [?sec]\<rparr>\<rparr>"
  have m: "merr_NewErrors sample es = None \<longleftrightarrow> es = []" for es by (cases es) simp_all
  have "?sec \<in> set (tracked_secrets ?obj)" by simp
  moreover have "pw_secretGet ready_world (p_Namespace ?obj) (ss_Name ?sec) = Inl (ExtError 404 [])"
    by (simp add: ready_world_def)
  moreover have "GetReason (p_Conditions ?obj) PlanLatestResolved \<noteq> ''Error''"
    "mindex (p_Annotations ?obj) AnnotationIncludeInDigest = []"
    by (simp_all add: sample_plan_def empty_meta_def GetReason_def findOrNotCreateCond_def)
  ultimately show ?thesis
    using missing_secret_not_recorded [OF sample_status_equality m, of ?sec ?obj ready_world] by blast
qed

text \<open>
  C25: the generated jobs are applied once per resource version. When the generating handler succeeds on a plan, \<open>Handle\<close> applies
  its jobs exactly if the resource version of the plan is not the one remembered under the key of the plan, in particular for a plan
  not seen before; a successful application is remembered, a failed one is returned as an error and not remembered, so that
  the next run applies again. Once the version is remembered, no run for a plan with the same metadata applies anything, whatever
  happened to the cluster in between.
\<close>

theorem applied_once_per_version:
  assumes "plan_generating_handler X env ctl w obj = Some (jobs, h)" "ho_err h = None"
    and "om_DeletionTimestamp (p_meta obj) = None"
  shows "Handle True apply (plan_generating_handler X env ctl w) seen obj =
      (let tried = h\<lparr>ho_effects := ho_effects h @ [ApplyObjects (ho_obj h) jobs]\<rparr>
       in if seen (plan_key obj) = Some (om_ResourceVersion (p_meta obj)) then Some (seen, h)
          else (case apply (ho_obj h) jobs of
              None \<Rightarrow> Some (seen(plan_key obj \<mapsto> om_ResourceVersion (p_meta obj)), tried)
            | Some err \<Rightarrow> Some (seen, tried\<lparr>ho_err := Some err\<rparr>))) \<and>
    (\<forall>e\<in>set (ho_effects h). \<not> is_apply e) \<and>
    (p_meta obj' = p_meta obj \<longrightarrow>
     Handle True apply' (plan_generating_handler X env ctl w') (seen(plan_key obj \<mapsto> om_ResourceVersion (p_meta obj))) obj' =
       Some (seen', h') \<longrightarrow>
     (\<forall>e\<in>set (ho_effects h'). \<not> is_apply e))"
proof -
  note fr = generating_frame [OF assms(1)]
  have key: "plan_key (ho_obj h) = plan_key obj" using fr(1) by (simp add: plan_key_def)
  have "isNewResourceVersion True seen (ho_obj h) \<longleftrightarrow> seen (plan_key obj) \<noteq> Some (om_ResourceVersion (p_meta obj))"
    by (auto simp: isNewResourceVersion_def key fr(1) split: option.split)
  with assms key fr(1) have "Handle True apply (plan_generating_handler X env ctl w) seen obj =
      (let tried = h\<lparr>ho_effects := ho_effects h @ [ApplyObjects (ho_obj h) jobs]\<rparr>
       in if seen (plan_key obj) = Some (om_ResourceVersion (p_meta obj)) then Some (seen, h)
          else (case apply (ho_obj h) jobs of
              None \<Rightarrow> Some (seen(plan_key obj \<mapsto> om_ResourceVersion (p_meta obj)), tried)
            | Some err \<Rightarrow> Some (seen, tried\<lparr>ho_err := Some err\<rparr>)))"
    by (simp add: Handle_def storeResourceVersion_def Let_def split: option.split)
  moreover have "\<forall>e\<in>set (ho_effects h'). \<not> is_apply e" if m: "p_meta obj' = p_meta obj"
    and r: "Handle True apply' (plan_generating_handler X env ctl w') (seen(plan_key obj \<mapsto> om_ResourceVersion (p_meta obj))) obj' =
       Some (seen', h')"
  proof -
    have "\<not> isNewResourceVersion True (seen(plan_key obj \<mapsto> om_ResourceVersion (p_meta obj))) (ho_obj h1)"
      if "plan_generating_handler X env ctl w' obj' = Some (jobs1, h1)" for jobs1 h1
      using generating_frame(1) [OF that] m by (simp add: isNewResourceVersion_def plan_key_def)
    then obtain jobs1 where "plan_generating_handler X env ctl w' obj' = Some (jobs1, h')"
      using m r assms(3) by (auto simp: Handle_def split: option.splits if_splits)
    from generating_frame(2) [OF this] show ?thesis .
  qed
  ultimately show ?thesis using fr(2) by blast
qed

text \<open>A first run whose application fails, a second that applies again, and a third that does not.\<close>

theorem applied_once_per_version_witness:
  "\<exists>jobs h. jobs \<noteq> [] \<and>
     (let H = (\<lambda>apply. Handle True apply (plan_generating_handler sample (\<lambda>_. None) ''suc'' ready_world));
          tried = h\<lparr>ho_effects := ho_effects h @ [ApplyObjects (ho_obj h) jobs]\<rparr>;
          seen = [plan_key ready_plan \<mapsto> om_ResourceVersion (p_meta ready_plan)]
      in H (\<lambda>p js. Some (NewError ''down'')) Map.empty ready_plan = Some (Map.empty, tried\<lparr>ho_err := Some (NewError ''down'')\<rparr>) \<and>
         H (\<lambda>p js. None) Map.empty ready_plan = Some (seen, tried) \<and> H (\<lambda>p js. None) seen ready_plan = Some (seen, h))"
proof (rule ready_plan_runs)
  fix h let ?jobs = "[the (job_New sample (\<lambda>_. None) ready_plan (sample_node ''a'' ''ha'') ''suc'')]"
  assume g: "plan_generating_handler sample (\<lambda>_. None) ''suc'' ready_world ready_plan = Some (?jobs, h)" "ho_err h = None"
  have "om_DeletionTimestamp (p_meta ready_plan) = None" by (simp add: ready_plan_def sample_plan_def empty_meta_def)
  note once = applied_once_per_version [OF g this]
  show ?thesis
    by (intro exI [of _ ?jobs] exI [of _ h]) (simp add: Let_def once [THEN conjunct1])
qed

end
