(* ===== verification/HandleBatch.thy ===== *)
theory HandleBatch
  imports Effects
begin

text \<open>
  \<^verbatim>\<open>pkg/upgrade/handle_batch.go\<close>: the handler of job events. A finished job labels the node it ran
  on and is kept until its time to live has passed; a failed job marks the plan; a job that does
  not belong to the current state of its plan is deleted.
\<close>

subsection \<open>deleteJob and enqueueOrDelete\<close>

definition deleteJob :: "job_world \<Rightarrow> Job \<Rightarrow> effect list \<times> go_error option" where
  "deleteJob w job =
     ([JobDelete (job_Namespace job) (job_Name job) DeletePropagationBackground],
      jobs_Delete w (job_Namespace job) (job_Name job))"

text \<open>The time to live of a job; \<^const>\<open>None\<close> when the fallback annotation does not parse.\<close>

definition job_ttl_duration :: "Job \<Rightarrow> duration option" where
  "job_ttl_duration job =
     (case js_TTLSecondsAfterFinished (job_Spec job) of
        None \<Rightarrow>
          (case mget (job_Annotations job) AnnotationTTLSecondsAfterFinished of
             None \<Rightarrow> Some 0
           | Some annotation \<Rightarrow>
               (case ParseInt annotation 32 of
                  None \<Rightarrow> None
                | Some fallback \<Rightarrow> Some (wrap64 (Second * fallback))))
      | Some ttl \<Rightarrow> Some (wrap64 (Second * ttl)))"

definition enqueueOrDelete :: "job_world \<Rightarrow> Job \<Rightarrow> instant \<Rightarrow> effect list \<times> go_error option" where
  "enqueueOrDelete w job lastTransitionTime =
     (case job_ttl_duration job of
        None \<Rightarrow> deleteJob w job
      | Some ttlSecondsAfterFinished \<Rightarrow>
          (let interval = time_Sub (now_ttl w) lastTransitionTime
           in if interval < ttlSecondsAfterFinished
              then ([JobEnqueueAfter (job_Namespace job) (job_Name job) (wrap64 (ttlSecondsAfterFinished - interval))], None)
              else deleteJob w job))"

subsection \<open>The branches of the handler\<close>

definition missing_time :: "Cond \<Rightarrow> go_error" where
  "missing_time c = NewError (''condition '' @ quoted c @ '' missing field '' @ quoted ''LastTransitionTime'')"

definition failed_message :: "Job \<Rightarrow> string \<Rightarrow> string" where
  "failed_message obj nodeName =
     ''Job '' @ job_Namespace obj @ ''/'' @ job_Name obj @ '' failed on Node '' @ nodeName @ '': '' @
     GetReason (job_Conditions obj) ConditionFailed @ '': '' @ GetMessage (job_Conditions obj) ConditionFailed"

text \<open>The job has failed: record it in the plan's status.\<close>

definition handle_failed ::
    "('sel, 'req) extern \<Rightarrow> job_world \<Rightarrow> Job \<Rightarrow> Plan \<Rightarrow> string \<Rightarrow> effect list \<times> outcome" where
  "handle_failed X w obj plan nodeName =
     (let failedTime = GetLastTransitionTime (job_Conditions obj) ConditionFailed
      in if IsZero failedTime then ([], Returned (Some (missing_time ConditionFailed)))
         else
           (let message = failed_message obj nodeName;
                plan' = plan\<lparr>p_Status := (p_Status plan)\<lparr>st_Conditions :=
                   SetError (FormatRFC3339 X (now w)) PlanComplete ''JobFailed'' (Some (NewError message))
                     (p_Conditions plan)\<rparr>\<rparr>;
                effs = [Event EventTypeWarning ''JobFailed'' message, PlanUpdateStatus plan']
            in case plans_UpdateStatus w plan' of
                 Inl err \<Rightarrow> (effs, Returned (Some err))
               | Inr _ \<Rightarrow> (let (es, r) = enqueueOrDelete w obj failedTime in (effs @ es, Returned r))))"

text \<open>
  The labels written to the node when the delay has passed: the plan's labels with the two
  variables expanded, then the plan's own label. \<^const>\<open>None\<close> is the panic on a nil label map.
\<close>

definition complete_labels :: "('sel, 'req) extern \<Rightarrow> Plan \<Rightarrow> string \<Rightarrow> string \<Rightarrow> gomap \<Rightarrow> gomap option" where
  "complete_labels X plan planLabel planHash labels =
     (let labelVars = [''LATEST_VERSION'' \<mapsto> st_LatestVersion (p_Status plan),
                       ''LATEST_HASH'' \<mapsto> st_LatestHash (p_Status plan)]
      in case labels of
           None \<Rightarrow> None
         | Some m \<Rightarrow>
             mput (Some (mrange_into (\<lambda>_. True) (\<lambda>v. expansion_Expand X v (MappingFuncFor X labelVars))
                     (sp_PostCompleteLabels (p_Spec plan)) m))
               planLabel planHash)"

definition post_delay :: "Plan \<Rightarrow> duration" where
  "post_delay plan = (case sp_PostCompleteDelay (p_Spec plan) of None \<Rightarrow> 0 | Some d \<Rightarrow> d)"

text \<open>The node becomes schedulable again if the plan cordoned it, whether or not the delay has passed.\<close>

definition uncordon :: "Plan \<Rightarrow> Node \<Rightarrow> Node" where
  "uncordon plan node =
     (if n_Unschedulable node \<and> (sp_Cordon (p_Spec plan) \<or> sp_Drain (p_Spec plan) \<noteq> None)
      then node\<lparr>n_Unschedulable := False\<rparr> else node)"

definition handle_complete ::
    "('sel, 'req) extern \<Rightarrow> job_world \<Rightarrow> Job \<Rightarrow> Plan \<Rightarrow> string \<Rightarrow> Node \<Rightarrow> effect list \<times> outcome" where
  "handle_complete X w obj plan planName node =
     (let completeTime = GetLastTransitionTime (job_Conditions obj) ConditionComplete;
          planLabel = LabelPlanName planName
      in if IsZero completeTime then ([], Returned (Some (missing_time ConditionComplete)))
         else (case mget (job_Labels obj) planLabel of
             None \<Rightarrow> (let (es, r) = enqueueOrDelete w obj completeTime in (es, Returned r))
           | Some planHash \<Rightarrow>
               (let delay = post_delay plan;
                    interval = time_Sub (now w) completeTime;
                    (effs, labelled) =
                      (if interval < delay
                       then ([Event EventTypeNormal ''JobCompleteWaiting''
                               (''Job completed on Node '' @ n_Name node @ '', waiting '' @ Duration_String delay @ '' PostCompleteDelay''),
                              JobEnqueueAfter (job_Namespace obj) (job_Name obj) (wrap64 (delay - interval))],
                             Some node)
                       else ([Event EventTypeNormal ''JobComplete'' (''Job completed on Node '' @ n_Name node)],
                             map_option (\<lambda>l. node\<lparr>n_meta := (n_meta node)\<lparr>om_Labels := l\<rparr>\<rparr>)
                               (complete_labels X plan planLabel planHash (n_Labels node))))
                in case labelled of
                     None \<Rightarrow> (effs, Panicked)
                   | Some node1 \<Rightarrow>
                       (let node2 = uncordon plan node1;
                            effs2 = effs @ [NodeWritten node2, NodeUpdate node2]
                        in case nodes_Update w node2 of
                             Inl err \<Rightarrow> (effs2, Returned (Some err))
                           | Inr _ \<Rightarrow> (let (es, r) = enqueueOrDelete w obj completeTime in (effs2 @ es, Returned r))))))"

text \<open>The check that the job's node is on the applying list, by binary search.\<close>

definition out_of_turn :: "string list \<Rightarrow> string \<Rightarrow> bool" where
  "out_of_turn applying nodeName \<longleftrightarrow>
     (let i = SearchStrings applying nodeName
      in i = length applying \<or> (i < length applying \<and> applying ! i \<noteq> nodeName))"

definition handle_unfinished :: "job_world \<Rightarrow> Job \<Rightarrow> Plan \<Rightarrow> string \<Rightarrow> effect list \<times> outcome" where
  "handle_unfinished w obj plan nodeName =
     (if out_of_turn (st_Applying (p_Status plan)) nodeName
      then (let (es, r) = deleteJob w obj in (es, Returned r))
      else ([], Returned None))"

text \<open>The part of the handler that runs with the plan's enqueue deferred.\<close>

definition handle_current ::
    "('sel, 'req) extern \<Rightarrow> job_world \<Rightarrow> Job \<Rightarrow> Plan \<Rightarrow> string \<Rightarrow> effect list \<times> outcome" where
  "handle_current X w obj plan planName =
     (case mget (job_Labels obj) LabelNode of
        None \<Rightarrow> (let (es, r) = deleteJob w obj in (es, Returned r))
      | Some nodeName \<Rightarrow>
          (case nodes_Cache_Get w nodeName of
             Inl err \<Rightarrow>
               (if IsNotFound X err then (let (es, r) = deleteJob w obj in (es, Returned r))
                else ([], Returned (Some err)))
           | Inr node \<Rightarrow>
               (if IsTrue (job_Conditions obj) ConditionFailed then handle_failed X w obj plan nodeName
                else if IsTrue (job_Conditions obj) ConditionComplete
                then handle_complete X w obj plan planName node
                else handle_unfinished w obj plan nodeName)))"

subsection \<open>The handler\<close>

definition handleJobs_OnChange ::
    "('sel, 'req) extern \<Rightarrow> string \<Rightarrow> job_world \<Rightarrow> Job option \<Rightarrow> effect list \<times> outcome" where
  "handleJobs_OnChange X ctl_Name w objp =
     (case objp of
        None \<Rightarrow> ([], Returned None)
      | Some obj \<Rightarrow>
          (if job_Labels obj = None \<or>
              \<not> sel_Matches X (SelectorFromSet X [LabelController \<mapsto> ctl_Name]) (job_Labels obj)
           then ([], Returned None)
           else (case mget (job_Labels obj) LabelPlan of
               None \<Rightarrow> (let (es, r) = deleteJob w obj in (es, Returned r))
             | Some planName \<Rightarrow>
                 (case mget (job_Labels obj) LabelVersion of
                    None \<Rightarrow> (let (es, r) = deleteJob w obj in (es, Returned r))
                  | Some planVersion \<Rightarrow>
                      (case plans_Get w (job_Namespace obj) planName of
                         Inl err \<Rightarrow>
                           (if IsNotFound X err then (let (es, r) = deleteJob w obj in (es, Returned r))
                            else ([], Returned (Some err)))
                       | Inr plan \<Rightarrow>
                           (if planVersion \<noteq> st_LatestVersion (p_Status plan)
                            then (let (es, r) = deleteJob w obj in (es, Returned r))
                            else
                              (let (es, r) = handle_current X w obj plan planName
                               in (es @ [PlanEnqueue (job_Namespace obj) planName], r))))))))"

end
