(* ===== verification/JobLifecycle.thy ===== *)
theory JobLifecycle
  imports HandleBatch Selection
begin

text \<open>
  What the job handler of \<^verbatim>\<open>pkg/upgrade/handle_batch.go\<close> does with the jobs that the job builder
  made, from their completion to their deletion: who is touched, when the node is labelled, how
  long a job is kept, and what happens on the failure paths.
\<close>

subsection \<open>Reading effects\<close>

fun updated_nodes :: "effect list \<Rightarrow> Node list" where
  "updated_nodes [] = []"
| "updated_nodes (NodeUpdate n # es) = n # updated_nodes es"
| "updated_nodes (_ # es) = updated_nodes es"

fun is_delete :: "effect \<Rightarrow> bool" where
  "is_delete (JobDelete _ _ _) = True"
| "is_delete _ = False"

lemma updated_nodes_append [simp]: "updated_nodes (es @ fs) = updated_nodes es @ updated_nodes fs"
  by (induction es rule: updated_nodes.induct) auto

lemma deleteJob_fst: "fst (deleteJob w job) = [JobDelete (job_Namespace job) (job_Name job) DeletePropagationBackground]"
  by (simp add: deleteJob_def)

lemma enqueueOrDelete_effects:
  obtains (delete) "fst (enqueueOrDelete w job t) = [JobDelete (job_Namespace job) (job_Name job) DeletePropagationBackground]"
  | (later) ttl where "job_ttl_duration job = Some ttl" "time_Sub (now_ttl w) t < ttl"
      "enqueueOrDelete w job t =
         ([JobEnqueueAfter (job_Namespace job) (job_Name job) (wrap64 (ttl - time_Sub (now_ttl w) t))], None)"
proof (cases "job_ttl_duration job")
  case None
  then show ?thesis by (intro delete) (simp add: enqueueOrDelete_def deleteJob_def)
next
  case (Some ttl)
  show ?thesis
  proof (cases "time_Sub (now_ttl w) t < ttl")
    case True
    with Some show ?thesis by (intro later) (simp_all add: enqueueOrDelete_def)
  next
    case False
    with Some show ?thesis by (intro delete) (simp add: enqueueOrDelete_def deleteJob_def)
  qed
qed

lemma enqueueOrDelete_no_update [simp]: "updated_nodes (fst (enqueueOrDelete w job t)) = []"
  by (rule enqueueOrDelete_effects [of w job t]) auto

subsection \<open>A job of the current version\<close>

text \<open>
  The job \<open>obj\<close> belongs to this controller and to \<open>plan\<close> in its latest version, and its node is in the cache.
\<close>

definition current_job ::
    "('sel, 'req) extern \<Rightarrow> string \<Rightarrow> job_world \<Rightarrow> Job \<Rightarrow> Plan \<Rightarrow> string \<Rightarrow> string \<Rightarrow> Node \<Rightarrow> bool" where
  "current_job X ctl w obj plan planName nodeName node \<longleftrightarrow>
     job_Labels obj \<noteq> None \<and>
     sel_Matches X (SelectorFromSet X [LabelController \<mapsto> ctl]) (job_Labels obj) \<and>
     mget (job_Labels obj) LabelPlan = Some planName \<and>
     mget (job_Labels obj) LabelVersion = Some (st_LatestVersion (p_Status plan)) \<and>
     plans_Get w (job_Namespace obj) planName = Inr plan \<and>
     mget (job_Labels obj) LabelNode = Some nodeName \<and> nodes_Cache_Get w nodeName = Inr node"

lemma current_job_OnChange:
  assumes "current_job X ctl w obj plan planName nodeName node"
  shows "handleJobs_OnChange X ctl w (Some obj) =
    (let (es, r) = (if IsTrue (job_Conditions obj) ConditionFailed then handle_failed X w obj plan nodeName
         else if IsTrue (job_Conditions obj) ConditionComplete then handle_complete X w obj plan planName node
         else handle_unfinished w obj plan nodeName)
     in (es @ [PlanEnqueue (job_Namespace obj) planName], r))"
  using assms by (auto simp: current_job_def handleJobs_OnChange_def handle_current_def)

text \<open>
  \<^verbatim>\<open>labels.SelectorFromSet\<close> matches the label sets that contain the given pair, here for the one key it
  is used with.
\<close>

definition controller_selector_ok :: "('sel, 'req) extern \<Rightarrow> bool" where
  "controller_selector_ok X \<longleftrightarrow>
     (\<forall>ctl L. sel_Matches X (SelectorFromSet X [LabelController \<mapsto> ctl]) L \<longleftrightarrow> mget L LabelController = Some ctl)"

lemma controller_selector:
  "controller_selector_ok X \<Longrightarrow>
     sel_Matches X (SelectorFromSet X [LabelController \<mapsto> ctl]) L \<longleftrightarrow> mget L LabelController = Some ctl"
  by (simp add: controller_selector_ok_def)

lemma sample_controller_selector: "controller_selector_ok sample"
  by (auto simp: controller_selector_ok_def sample_def s_matches_def requirement_matches_def split: option.splits)

text \<open>A job built by the job builder is current as long as its plan keeps its version.\<close>

lemma built_job_current:
  assumes "controller_selector_ok X" "job_New X env plan0 node0 ctl = Some job0" "plain_elem (p_Name plan0)"
    and "plans_Get w (p_Namespace plan0) (p_Name plan0) = Inr plan"
    and "st_LatestVersion (p_Status plan) = st_LatestVersion (p_Status plan0)"
    and "nodes_Cache_Get w (n_Name node0) = Inr node"
    and "job_meta obj = job_meta job0"
  shows "current_job X ctl w obj plan (p_Name plan0) (n_Name node0) node"
  using assms(4-6) job_labels_reserved [OF assms(3), of node0 ctl] job_New_fields(1,4) [OF assms(2)]
  unfolding current_job_def assms(7) controller_selector [OF assms(1)] by simp

subsection \<open>Completion\<close>

text \<open>The node as the handler updates it once the delay has passed.\<close>

definition labelled_node :: "('sel, 'req) extern \<Rightarrow> Plan \<Rightarrow> string \<Rightarrow> string \<Rightarrow> (string \<rightharpoonup> string) \<Rightarrow> Node \<Rightarrow> Node" where
  "labelled_node X plan planName planHash m node = uncordon plan
     (node\<lparr>n_meta := (n_meta node)\<lparr>om_Labels := Some
        ((mrange_into (\<lambda>_. True) (\<lambda>v. expansion_Expand X v (MappingFuncFor X
             [''LATEST_VERSION'' \<mapsto> st_LatestVersion (p_Status plan), ''LATEST_HASH'' \<mapsto> st_LatestHash (p_Status plan)]))
           (sp_PostCompleteLabels (p_Spec plan)) m)(LabelPlanName planName \<mapsto> planHash))\<rparr>\<rparr>)"

lemma uncordon_simps [simp]:
  "n_meta (uncordon plan node) = n_meta node"
  "n_Unschedulable (uncordon plan node) \<longleftrightarrow>
     n_Unschedulable node \<and> \<not> (sp_Cordon (p_Spec plan) \<or> sp_Drain (p_Spec plan) \<noteq> None)"
  by (auto simp: uncordon_def)

lemma complete_labels_Some: "complete_labels X plan planLabel planHash (Some m) = Some (Some
    ((mrange_into (\<lambda>_. True) (\<lambda>v. expansion_Expand X v (MappingFuncFor X
       [''LATEST_VERSION'' \<mapsto> st_LatestVersion (p_Status plan), ''LATEST_HASH'' \<mapsto> st_LatestHash (p_Status plan)]))
       (sp_PostCompleteLabels (p_Spec plan)) m)(planLabel \<mapsto> planHash)))"
  by (simp add: complete_labels_def)

lemma handle_complete_labels:
  assumes "GetLastTransitionTime (job_Conditions obj) ConditionComplete = t" "\<not> IsZero t"
    and "mget (job_Labels obj) (LabelPlanName planName) = Some planHash"
    and "post_delay plan \<le> time_Sub (now w) t" "n_Labels node = Some m"
  shows "updated_nodes (fst (handle_complete X w obj plan planName node)) = [labelled_node X plan planName planHash m node]"
    "snd (handle_complete X w obj plan planName node) \<noteq> Panicked"
  using assms
  by (auto simp: handle_complete_def Let_def complete_labels_Some labelled_node_def split: sum.splits prod.splits)
    (metis enqueueOrDelete_no_update fst_conv)

lemma handle_complete_waits:
  assumes "GetLastTransitionTime (job_Conditions obj) ConditionComplete = t" "\<not> IsZero t"
    and "mget (job_Labels obj) (LabelPlanName planName) = Some planHash"
    and "time_Sub (now w) t < post_delay plan"
  shows "updated_nodes (fst (handle_complete X w obj plan planName node)) = [uncordon plan node]"
    "JobEnqueueAfter (job_Namespace obj) (job_Name obj) (wrap64 (post_delay plan - time_Sub (now w) t)) \<in>
       set (fst (handle_complete X w obj plan planName node))"
  using assms
  by (auto simp: handle_complete_def Let_def split: sum.splits prod.splits) (metis enqueueOrDelete_no_update fst_conv)

subsection \<open>A world for the witnesses\<close>

definition finished :: "string \<Rightarrow> instant \<Rightarrow> JobCondition" where
  "finished type t = \<lparr>cond_Type = type, cond_Status = ''True'', cond_Reason = ''r'', cond_Message = ''m'',
     jc_LastProbeTime = 0, jc_LastTransitionTime = t\<rparr>"

definition sample_world :: "instant \<Rightarrow> job_world" where
  "sample_world t = \<lparr>plans_Get = (\<lambda>ns nm. Inr sample_plan), plans_UpdateStatus = Inr,
     nodes_Cache_Get = (\<lambda>nm. Inr ((sample_node ''a'' ''ha'')\<lparr>n_Unschedulable := True\<rparr>)), nodes_Update = Inr,
     jobs_Delete = (\<lambda>ns nm. None), now = t, now_ttl = t\<rparr>"

definition sample_built :: Job where
  "sample_built = the (job_New sample (\<lambda>_. None) sample_plan (sample_node ''a'' ''ha'') ''suc'')"

lemma sample_built: "job_New sample (\<lambda>_. None) sample_plan (sample_node ''a'' ''ha'') ''suc'' = Some sample_built"
  using sample_job [of "\<lambda>_. None" "sample_node ''a'' ''ha''" "''suc''"] by (auto simp: sample_built_def)

lemma sample_plan_plain: "plain_elem (p_Name sample_plan)"
  by (simp add: sample_plan_def empty_meta_def plain_k3s)

lemma sample_current:
  assumes "job_meta obj = job_meta sample_built"
  shows "current_job sample ''suc'' (sample_world t) obj sample_plan ''k3s'' ''a''
     ((sample_node ''a'' ''ha'')\<lparr>n_Unschedulable := True\<rparr>)"
proof -
  have "current_job sample ''suc'' (sample_world t) obj sample_plan (p_Name sample_plan) (n_Name (sample_node ''a'' ''ha''))
     ((sample_node ''a'' ''ha'')\<lparr>n_Unschedulable := True\<rparr>)"
    by (rule built_job_current [OF sample_controller_selector sample_built sample_plan_plain])
      (simp_all add: assms sample_world_def)
  then show ?thesis by (simp add: sample_plan_def sample_node_def empty_meta_def)
qed

lemma finished_reads:
  "IsTrue [finished type t] c \<longleftrightarrow> type = c" "GetLastTransitionTime [finished type t] type = t"
  by (simp_all add: IsTrue_def getStatus_def findOrNotCreateCond_def finished_def GetLastTransitionTime_def
      getLastTransitionTime_def)

lemma conditions_distinct: "ConditionComplete \<noteq> ConditionFailed" "ConditionFailed \<noteq> ConditionComplete"
  by (simp_all add: ConditionComplete_def ConditionFailed_def)

subsection \<open>Properties\<close>

text \<open>
  The handler leaves the jobs of other controllers alone: without the controller label of this
  controller a job causes no effect and no error.
\<close>

lemma jobs_foreign_untouched:
  assumes "controller_selector_ok X" "mget (job_Labels obj) LabelController \<noteq> Some ctl"
  shows "handleJobs_OnChange X ctl w (Some obj) = ([], Returned None)"
  using assms by (simp add: handleJobs_OnChange_def controller_selector)

text \<open>
  A job of this controller that no longer fits its plan is deleted in the background and nothing else
  happens: it names no plan or no version, its plan is gone, or its version is not the plan's
  latest. The handler returns what the deletion returned.
\<close>

lemma jobs_stale_deleted:
  assumes "controller_selector_ok X" "mget (job_Labels obj) LabelController = Some ctl"
    and "mget (job_Labels obj) LabelPlan = None \<or> mget (job_Labels obj) LabelVersion = None \<or>
       (\<exists>planName err. mget (job_Labels obj) LabelPlan = Some planName \<and>
          plans_Get w (job_Namespace obj) planName = Inl err \<and> IsNotFound X err) \<or>
       (\<exists>planName plan. mget (job_Labels obj) LabelPlan = Some planName \<and>
          plans_Get w (job_Namespace obj) planName = Inr plan \<and>
          mget (job_Labels obj) LabelVersion \<noteq> Some (st_LatestVersion (p_Status plan)))"
  shows "handleJobs_OnChange X ctl w (Some obj) =
    ([JobDelete (job_Namespace obj) (job_Name obj) DeletePropagationBackground],
     Returned (jobs_Delete w (job_Namespace obj) (job_Name obj)))"
proof -
  have "job_Labels obj \<noteq> None" using assms(2) by (cases "job_Labels obj") simp_all
  then show ?thesis
    using assms(2,3)
    by (auto simp: handleJobs_OnChange_def controller_selector [OF assms(1)] deleteJob_def split: option.splits sum.splits)
qed

text \<open>
  C13: when a job of the current version has completed and the plan's delay has passed, the handler
  updates its node exactly once: the label of the plan becomes the hash the job carries, the
  plan's completion labels are written with the two variables expanded, every other label stays,
  and a node that the plan cordoned becomes schedulable. The handler does not panic, and the
  node is not eligible again while the plan keeps that hash.
\<close>

theorem completed_job_labels_node:
  assumes "current_job X ctl w obj plan planName nodeName node" "n_Labels node = Some m"
    and "\<not> IsTrue (job_Conditions obj) ConditionFailed" "IsTrue (job_Conditions obj) ConditionComplete"
    and "GetLastTransitionTime (job_Conditions obj) ConditionComplete = t" "\<not> IsZero t"
    and "mget (job_Labels obj) (LabelPlanName planName) = Some planHash"
    and "post_delay plan \<le> time_Sub (now w) t"
  shows "\<exists>node'. updated_nodes (fst (handleJobs_OnChange X ctl w (Some obj))) = [node'] \<and>
     n_Name node' = n_Name node \<and>
     mget (n_Labels node') (LabelPlanName planName) = Some planHash \<and>
     (\<forall>k. k \<noteq> LabelPlanName planName \<and> mget (sp_PostCompleteLabels (p_Spec plan)) k = None \<longrightarrow>
        mget (n_Labels node') k = mget (n_Labels node) k) \<and>
     (\<forall>k v. k \<noteq> LabelPlanName planName \<and> mget (sp_PostCompleteLabels (p_Spec plan)) k = Some v \<longrightarrow>
        mget (n_Labels node') k = Some (expansion_Expand X v (MappingFuncFor X
          [''LATEST_VERSION'' \<mapsto> st_LatestVersion (p_Status plan), ''LATEST_HASH'' \<mapsto> st_LatestHash (p_Status plan)]))) \<and>
     (sp_Cordon (p_Spec plan) \<or> sp_Drain (p_Spec plan) \<noteq> None \<longrightarrow> \<not> n_Unschedulable node') \<and>
     snd (handleJobs_OnChange X ctl w (Some obj)) \<noteq> Panicked \<and>
     (planName = p_Name plan \<and> planHash = st_LatestHash (p_Status plan) \<longrightarrow> \<not> eligible X plan node')"
proof -
  let ?node' = "labelled_node X plan planName planHash m node"
  note hc = handle_complete_labels [OF assms(5-8,2), where X = X]
  have "updated_nodes (fst (handleJobs_OnChange X ctl w (Some obj))) = [?node']"
    "snd (handleJobs_OnChange X ctl w (Some obj)) \<noteq> Panicked"
    using hc assms(3,4) by (simp_all add: current_job_OnChange [OF assms(1)] split_beta Let_def)
  moreover have "mget (n_Labels ?node') (LabelPlanName planName) = Some planHash"
    by (simp add: labelled_node_def)
  moreover have "mget (n_Labels ?node') k = mget (n_Labels node) k"
    if "k \<noteq> LabelPlanName planName" "mget (sp_PostCompleteLabels (p_Spec plan)) k = None" for k
    using that assms(2) by (simp add: labelled_node_def mrange_into_def)
  moreover have "mget (n_Labels ?node') k = Some (expansion_Expand X v (MappingFuncFor X
      [''LATEST_VERSION'' \<mapsto> st_LatestVersion (p_Status plan), ''LATEST_HASH'' \<mapsto> st_LatestHash (p_Status plan)]))"
    if "k \<noteq> LabelPlanName planName" "mget (sp_PostCompleteLabels (p_Spec plan)) k = Some v" for k v
    using that by (simp add: labelled_node_def mrange_into_def)
  ultimately show ?thesis
    by (intro exI [of _ ?node']) (auto simp: eligible_def labelled_node_def)
qed

theorem completed_job_labels_node_witness:
  "\<exists>node'. updated_nodes (fst (handleJobs_OnChange sample ''suc'' (sample_world (50 * Second))
       (Some (sample_built\<lparr>job_Conditions := [finished ConditionComplete (40 * Second)]\<rparr>)))) = [node'] \<and>
     \<not> n_Unschedulable node' \<and> \<not> eligible sample sample_plan node'"
proof -
  let ?obj = "sample_built\<lparr>job_Conditions := [finished ConditionComplete (40 * Second)]\<rparr>"
  let ?node = "(sample_node ''a'' ''ha'')\<lparr>n_Unschedulable := True\<rparr>"
  have c: "current_job sample ''suc'' (sample_world (50 * Second)) ?obj sample_plan ''k3s'' ''a'' ?node"
    by (rule sample_current) simp
  have m: "n_Labels ?node = Some [LabelHostname \<mapsto> ''ha'']" by (simp add: sample_node_def)
  have h: "mget (job_Labels ?obj) (LabelPlanName ''k3s'') = Some ''abc''"
    using job_labels_reserved(6) [OF sample_plan_plain, of "sample_node ''a'' ''ha''" "''suc''"]
    by (simp add: job_New_fields(1) [OF sample_built] sample_plan_def empty_meta_def)
  have d: "post_delay sample_plan \<le> time_Sub (now (sample_world (50 * Second))) (40 * Second)"
    by (simp add: post_delay_def sample_plan_def sample_spec_def sample_world_def time_Sub_def)
  have p: "sp_Cordon (p_Spec sample_plan)" "''k3s'' = p_Name sample_plan" "''abc'' = st_LatestHash (p_Status sample_plan)"
    by (simp_all add: sample_defs)
  have "\<exists>node'. updated_nodes (fst (handleJobs_OnChange sample ''suc'' (sample_world (50 * Second)) (Some ?obj))) = [node'] \<and>
     (sp_Cordon (p_Spec sample_plan) \<or> sp_Drain (p_Spec sample_plan) \<noteq> None \<longrightarrow> \<not> n_Unschedulable node') \<and>
     (''k3s'' = p_Name sample_plan \<and> ''abc'' = st_LatestHash (p_Status sample_plan) \<longrightarrow> \<not> eligible sample sample_plan node')"
    using completed_job_labels_node [OF c m _ _ _ _ h d] by (auto simp: finished_reads conditions_distinct IsZero_def)
  with p show ?thesis by blast
qed

text \<open>
  While the delay of a completed job has not passed, the labels of the node stay as they are (so the
  node keeps its slot), the node already becomes schedulable if the plan cordoned it, and the job
  is scheduled to be seen again when the delay has passed.
\<close>

lemma completed_job_waits:
  assumes "current_job X ctl w obj plan planName nodeName node"
    and "\<not> IsTrue (job_Conditions obj) ConditionFailed" "IsTrue (job_Conditions obj) ConditionComplete"
    and "GetLastTransitionTime (job_Conditions obj) ConditionComplete = t" "\<not> IsZero t"
    and "mget (job_Labels obj) (LabelPlanName planName) = Some planHash"
    and "time_Sub (now w) t < post_delay plan"
  shows "\<exists>node'. updated_nodes (fst (handleJobs_OnChange X ctl w (Some obj))) = [node'] \<and>
     n_meta node' = n_meta node \<and>
     (sp_Cordon (p_Spec plan) \<or> sp_Drain (p_Spec plan) \<noteq> None \<longrightarrow> \<not> n_Unschedulable node') \<and>
     JobEnqueueAfter (job_Namespace obj) (job_Name obj) (wrap64 (post_delay plan - time_Sub (now w) t)) \<in>
       set (fst (handleJobs_OnChange X ctl w (Some obj)))"
  using handle_complete_waits [OF assms(4-7), where X = X and node = node] assms(2,3)
  by (intro exI [of _ "uncordon plan node"]) (auto simp: current_job_OnChange [OF assms(1)] split_beta Let_def)

definition delaying_plan :: Plan where
  "delaying_plan = sample_plan\<lparr>p_Spec := sample_spec\<lparr>sp_PostCompleteDelay := Some (30 * Second)\<rparr>\<rparr>"

definition delaying_world :: "instant \<Rightarrow> job_world" where
  "delaying_world t = (sample_world t)\<lparr>plans_Get := (\<lambda>ns nm. Inr delaying_plan)\<rparr>"

definition delaying_built :: Job where
  "delaying_built = the (job_New sample (\<lambda>_. None) delaying_plan (sample_node ''a'' ''ha'') ''suc'')"

lemma delaying_built: "job_New sample (\<lambda>_. None) delaying_plan (sample_node ''a'' ''ha'') ''suc'' = Some delaying_built"
  using job_New_None_iff [of sample "\<lambda>_. None" delaying_plan "sample_node ''a'' ''ha''" "''suc''"]
  by (auto simp: delaying_built_def delaying_plan_def sample_spec_def)

lemma delaying_plain: "plain_elem (p_Name delaying_plan)"
  by (simp add: delaying_plan_def sample_plan_def empty_meta_def plain_k3s)

lemma delaying_current:
  assumes "job_meta obj = job_meta delaying_built"
  shows "current_job sample ''suc'' (delaying_world t) obj delaying_plan (p_Name delaying_plan) (n_Name (sample_node ''a'' ''ha''))
     ((sample_node ''a'' ''ha'')\<lparr>n_Unschedulable := True\<rparr>)"
  by (rule built_job_current [OF sample_controller_selector delaying_built delaying_plain])
    (simp_all add: assms sample_world_def delaying_world_def)

lemma delaying_delay: "post_delay delaying_plan = 30 * Second"
  by (simp add: post_delay_def delaying_plan_def)

text \<open>
  C29: a failed job of the current version marks its plan: the handler sends the plan's status with the
  Complete condition false, the reason \<open>JobFailed\<close> and a message naming the job, the node and the
  job's own reason, every other condition unchanged; no node is updated.
\<close>

theorem failed_job_marks_plan:
  assumes "current_job X ctl w obj plan planName nodeName node" "IsTrue (job_Conditions obj) ConditionFailed"
    and "\<not> IsZero (GetLastTransitionTime (job_Conditions obj) ConditionFailed)"
  shows "\<exists>plan'. PlanUpdateStatus plan' \<in> set (fst (handleJobs_OnChange X ctl w (Some obj))) \<and>
     IsFalse (p_Conditions plan') PlanComplete \<and> GetReason (p_Conditions plan') PlanComplete = ''JobFailed'' \<and>
     GetMessage (p_Conditions plan') PlanComplete = failed_message obj nodeName \<and>
     (\<forall>c. c \<noteq> PlanComplete \<longrightarrow> findOrNotCreateCond (p_Conditions plan') c = findOrNotCreateCond (p_Conditions plan) c) \<and>
     updated_nodes (fst (handleJobs_OnChange X ctl w (Some obj))) = []"
proof -
  let ?plan' = "plan\<lparr>p_Status := (p_Status plan)\<lparr>st_Conditions :=
     SetError (FormatRFC3339 X (now w)) PlanComplete ''JobFailed'' (Some (NewError (failed_message obj nodeName)))
       (p_Conditions plan)\<rparr>\<rparr>"
  have "PlanUpdateStatus ?plan' \<in> set (fst (handle_failed X w obj plan nodeName))"
    using assms(3) by (simp add: handle_failed_def Let_def split_beta split: sum.splits)
  moreover have "updated_nodes (fst (handle_failed X w obj plan nodeName)) = []"
    using assms(3) by (simp add: handle_failed_def Let_def split_beta split: sum.splits)
  ultimately show ?thesis
    using assms(2) by (intro exI [of _ ?plan'])
      (auto simp: current_job_OnChange [OF assms(1)] split_beta Let_def SetError_reads lookup_SetError_other)
qed

theorem failed_job_marks_plan_witness:
  "\<exists>plan'. PlanUpdateStatus plan' \<in> set (fst (handleJobs_OnChange sample ''suc'' (sample_world (50 * Second))
       (Some (sample_built\<lparr>job_Conditions := [finished ConditionFailed (40 * Second)]\<rparr>)))) \<and>
     IsFalse (p_Conditions plan') PlanComplete"
proof -
  let ?obj = "sample_built\<lparr>job_Conditions := [finished ConditionFailed (40 * Second)]\<rparr>"
  have c: "current_job sample ''suc'' (sample_world (50 * Second)) ?obj sample_plan ''k3s'' ''a''
     ((sample_node ''a'' ''ha'')\<lparr>n_Unschedulable := True\<rparr>)"
    by (rule sample_current) simp
  from failed_job_marks_plan [OF c] show ?thesis by (auto simp: finished_reads IsZero_def)
qed

subsection \<open>Time to live\<close>

lemma built_ttl_duration:
  assumes "job_New X env plan node ctl = Some job" "int32 (job_ttl X env plan)"
    and "js_TTLSecondsAfterFinished (job_Spec obj) \<in> {None, js_TTLSecondsAfterFinished (job_Spec job)}"
    and "job_meta obj = job_meta job"
  shows "job_ttl_duration obj = Some (Second * job_ttl X env plan)"
proof -
  have "wrap64 (Second * job_ttl X env plan) = Second * job_ttl X env plan"
    using assms(2) by (intro wrap64_id) (simp add: int32_iff int64_iff)
  moreover have "mget (job_Annotations obj) AnnotationTTLSecondsAfterFinished = Some (FormatInt (job_ttl X env plan))"
    using labels_contain_cattle(6) job_New_fields(3) [OF assms(1)]
    by (simp add: assms(4) job_annotations_def mrange_into_def annotation_kept_def)
  ultimately show ?thesis
    using assms(3) job_New_fields(6) [OF assms(1)] ParseInt_FormatInt [OF assms(2)]
    by (auto simp: job_ttl_duration_def)
qed

lemma enqueueOrDelete_deletes:
  assumes "e \<in> set (fst (enqueueOrDelete w job t))" "is_delete e" "job_ttl_duration job = Some ttl"
  shows "ttl \<le> time_Sub (now_ttl w) t"
  using assms by (cases "time_Sub (now_ttl w) t < ttl") (auto simp: enqueueOrDelete_def)

lemma enqueueOrDelete_expired:
  "job_ttl_duration job = Some ttl \<Longrightarrow> ttl \<le> time_Sub (now_ttl w) t \<Longrightarrow> enqueueOrDelete w job t = deleteJob w job"
  by (simp add: enqueueOrDelete_def)

text \<open>
  C22: a completed job built for a plan with a delay is deleted by the handler only when more than the
  delay plus 59 seconds have passed since its completion, even if the API server dropped the
  time-to-live field of the job; so a node is never left unlabelled because its job vanished
  before the delay had passed.
\<close>

theorem delayed_job_outlives_delay:
  assumes "controller_selector_ok X" "job_New X env plan node ctl = Some job" "plain_elem (p_Name plan)"
    and "sp_PostCompleteDelay (p_Spec plan) = Some d" "delay_fits d"
    and "plans_Get w (p_Namespace plan) (p_Name plan) = Inr plan" "nodes_Cache_Get w (n_Name node) = Inr node'"
    and "js_TTLSecondsAfterFinished (job_Spec obj) \<in> {None, js_TTLSecondsAfterFinished (job_Spec job)}"
    and "job_meta obj = job_meta job"
    and "\<not> IsTrue (job_Conditions obj) ConditionFailed" "IsTrue (job_Conditions obj) ConditionComplete"
    and "GetLastTransitionTime (job_Conditions obj) ConditionComplete = t"
    and "e \<in> set (fst (handleJobs_OnChange X ctl w (Some obj)))" "is_delete e"
  shows "d + Minute - Second < time_Sub (now_ttl w) t"
proof -
  have cur: "current_job X ctl w obj plan (p_Name plan) (n_Name node) node'"
    using built_job_current [OF assms(1-3,6) refl assms(7,9)] .
  note b = job_ttl_bounds [OF assms(4,5), where X = X and env = env]
  have "e \<in> set (fst (handle_complete X w obj plan (p_Name plan) node'))"
    using assms(10,11,13,14) by (auto simp: current_job_OnChange [OF cur] split_beta Let_def)
  then have "e \<in> set (fst (enqueueOrDelete w obj t))"
    using assms(12,14) by (auto simp: handle_complete_def Let_def split_beta
        split: if_splits option.splits sum.splits)
  then have "Second * job_ttl X env plan \<le> time_Sub (now_ttl w) t"
    using assms(14) built_ttl_duration [OF assms(2) b(2) assms(8,9)] by (rule enqueueOrDelete_deletes)
  moreover have "(d + Minute) div Second * Second > d + Minute - Second"
    using div_mult_mod_eq [of "d + Minute" Second] pos_mod_bound [of Second "d + Minute"] by linarith
  ultimately show ?thesis using b(1) by (smt (verit) mult.commute mult_right_mono)
qed

theorem delayed_job_outlives_delay_witness:
  "\<exists>e\<in>set (fst (handleJobs_OnChange sample ''suc'' (delaying_world (2000 * Second))
       (Some (delaying_built\<lparr>job_Conditions := [finished ConditionComplete (40 * Second)]\<rparr>)))).
     is_delete e \<and> 30 * Second + Minute - Second < time_Sub (2000 * Second) (40 * Second)"
proof -
  let ?obj = "delaying_built\<lparr>job_Conditions := [finished ConditionComplete (40 * Second)]\<rparr>"
  let ?w = "delaying_world (2000 * Second)" and ?node = "(sample_node ''a'' ''ha'')\<lparr>n_Unschedulable := True\<rparr>"
  have c: "current_job sample ''suc'' ?w ?obj delaying_plan (p_Name delaying_plan) (n_Name (sample_node ''a'' ''ha'')) ?node"
    by (rule delaying_current) simp
  have sp: "sp_PostCompleteDelay (p_Spec delaying_plan) = Some (30 * Second)" "delay_fits (30 * Second)"
    by (simp_all add: delaying_plan_def delay_fits_def)
  have ttl: "job_ttl sample (\<lambda>_. None) delaying_plan = 900"
    by (simp add: job_ttl_def delaying_plan_def TTLSecondsAfterFinished_def env_int_def
        defaultTTLSecondsAfterFinished_def wrap64_id int64_iff)
  have td: "job_ttl_duration ?obj = Some (900 * Second)"
    using built_ttl_duration [OF delaying_built, of ?obj] by (simp add: ttl int32_iff)
  let ?e = "JobDelete (job_Namespace ?obj) (job_Name ?obj) DeletePropagationBackground"
  have "900 * Second \<le> time_Sub (now_ttl ?w) (40 * Second)"
    by (simp add: delaying_world_def sample_world_def time_Sub_def)
  from enqueueOrDelete_expired [OF td this] have "?e \<in> set (fst (enqueueOrDelete ?w ?obj (40 * Second)))"
    by (simp add: deleteJob_def)
  then have "?e \<in> set (fst (handle_complete sample ?w ?obj delaying_plan (p_Name delaying_plan) ?node))"
    by (auto simp: handle_complete_def Let_def split_beta finished_reads IsZero_def delaying_world_def sample_world_def
        complete_labels_def sample_node_def split: option.splits)
  then have e: "?e \<in> set (fst (handleJobs_OnChange sample ''suc'' ?w (Some ?obj)))"
    unfolding current_job_OnChange [OF c] split_beta Let_def by (simp add: finished_reads conditions_distinct)
  have "30 * Second + Minute - Second < time_Sub (now_ttl ?w) (40 * Second)"
    by (rule delayed_job_outlives_delay [OF sample_controller_selector delaying_built delaying_plain sp])
      (use e in \<open>auto simp: delaying_world_def sample_world_def finished_reads conditions_distinct\<close>)
  then show ?thesis using e by (intro bexI [OF _ e]) (simp add: delaying_world_def sample_world_def)
qed

subsection \<open>Running jobs\<close>

lemma out_of_turn_sorted: "sorted applying \<Longrightarrow> out_of_turn applying nodeName \<longleftrightarrow> nodeName \<notin> set applying"
  using SearchStrings_found [of applying nodeName] SearchStrings_le [of applying nodeName]
  by (auto simp: out_of_turn_def Let_def)

text \<open>
  C30: a job of the current version that has neither failed nor completed is deleted exactly when its node
  is not on the plan's applying list, provided that list is sorted, as the binary search needs.
\<close>

theorem running_job_out_of_turn:
  assumes "current_job X ctl w obj plan planName nodeName node" "sorted (st_Applying (p_Status plan))"
    and "\<not> IsTrue (job_Conditions obj) ConditionFailed" "\<not> IsTrue (job_Conditions obj) ConditionComplete"
  shows "fst (handleJobs_OnChange X ctl w (Some obj)) =
    (if nodeName \<in> set (st_Applying (p_Status plan)) then []
     else [JobDelete (job_Namespace obj) (job_Name obj) DeletePropagationBackground])
    @ [PlanEnqueue (job_Namespace obj) planName]"
  using assms(3,4) out_of_turn_sorted [OF assms(2)]
  by (simp add: current_job_OnChange [OF assms(1)] handle_unfinished_def deleteJob_def)

theorem running_job_out_of_turn_witness:
  "\<exists>ns nm. fst (handleJobs_OnChange sample ''suc'' (sample_world 9) (Some sample_built)) =
     [JobDelete ns nm ''Background'', PlanEnqueue ns ''k3s'']"
proof -
  have c: "current_job sample ''suc'' (sample_world 9) sample_built sample_plan ''k3s'' ''a''
     ((sample_node ''a'' ''ha'')\<lparr>n_Unschedulable := True\<rparr>)"
    by (rule sample_current) simp
  have "job_Conditions sample_built = []" by (rule job_New_fields(8) [OF sample_built])
  with running_job_out_of_turn [OF c] show ?thesis
    by (simp add: IsTrue_def getStatus_def findOrNotCreateCond_def sample_plan_def)
qed

text \<open>
  The applying list holds the hostnames of nodes, the job's label its node's name: where the two
  differ, the job of a node on the list is deleted as out of turn.
\<close>

definition applying_plan :: Plan where
  "applying_plan = sample_plan\<lparr>p_Status := (p_Status sample_plan)\<lparr>st_Applying := [''ha'']\<rparr>\<rparr>"

lemma hostname_not_node_name:
  assumes "job_New sample env applying_plan (sample_node ''a'' ''ha'') ''suc'' = Some job"
    and "plans_Get w (p_Namespace applying_plan) (p_Name applying_plan) = Inr applying_plan"
    and "nodes_Cache_Get w ''a'' = Inr (sample_node ''a'' ''ha'')"
  shows "Hostname (sample_node ''a'' ''ha'') \<in> set (st_Applying (p_Status applying_plan)) \<and>
    js_Parallelism (job_Spec job) = Some 1 \<and>
    JobDelete (job_Namespace job) (job_Name job) DeletePropagationBackground \<in>
      set (fst (handleJobs_OnChange sample ''suc'' w (Some job)))"
proof -
  have pl: "plain_elem (p_Name applying_plan)" by (simp add: applying_plan_def sample_plan_def empty_meta_def plain_k3s)
  have nm: "n_Name (sample_node ''a'' ''ha'') = ''a''" by (simp add: sample_node_def)
  have c: "current_job sample ''suc'' w job applying_plan (p_Name applying_plan) (n_Name (sample_node ''a'' ''ha''))
      (sample_node ''a'' ''ha'')"
    using built_job_current [OF sample_controller_selector assms(1) pl assms(2) refl _ refl] assms(3) nm by simp
  have "Hostname (sample_node ''a'' ''ha'') = ''ha''" by (simp add: Hostname_def sample_node_def)
  moreover have "out_of_turn (st_Applying (p_Status applying_plan)) ''a''"
    by (subst out_of_turn_sorted) (simp_all add: applying_plan_def)
  ultimately show ?thesis
    using job_New_fields(5,8) [OF assms(1)] nm
    by (simp add: current_job_OnChange [OF c] handle_unfinished_def deleteJob_def IsTrue_def getStatus_def
        findOrNotCreateCond_def job_parallelism_def applying_plan_def)
qed

subsection \<open>All paths\<close>

text \<open>
  For every job of the current version, whatever its conditions and even if the handler fails or
  panics, the last effect is that the plan is enqueued, so a slot that became free is noticed.
\<close>

lemma current_job_enqueues_plan:
  assumes "current_job X ctl w obj plan planName nodeName node"
  shows "\<exists>es. fst (handleJobs_OnChange X ctl w (Some obj)) = es @ [PlanEnqueue (job_Namespace obj) planName]"
  by (auto simp: current_job_OnChange [OF assms] split_beta Let_def)

lemma handle_complete_panics:
  "snd (handle_complete X w obj plan planName node) = Panicked \<Longrightarrow> n_Labels node = None"
  by (cases "n_Labels node") (auto simp: handle_complete_def Let_def split_beta complete_labels_Some
      split: if_splits option.splits sum.splits)

lemma handle_failed_returns: "snd (handle_failed X w obj plan nodeName) \<noteq> Panicked"
  by (simp add: handle_failed_def Let_def split_beta split: sum.splits)

lemma handle_unfinished_returns: "snd (handle_unfinished w obj plan nodeName) \<noteq> Panicked"
  by (simp add: handle_unfinished_def deleteJob_def)

text \<open>
  The handler panics only for a job whose node is in the cache with a nil label map. A node that was
  selected for a plan has a hostname label, so its job never makes the handler panic.
\<close>

lemma handler_panics_only_without_labels:
  assumes "snd (handleJobs_OnChange X ctl w objp) = Panicked"
  shows "\<exists>obj nodeName node. objp = Some obj \<and> mget (job_Labels obj) LabelNode = Some nodeName \<and>
     nodes_Cache_Get w nodeName = Inr node \<and> n_Labels node = None \<and> IsTrue (job_Conditions obj) ConditionComplete"
proof -
  obtain obj plan planName where obj: "objp = Some obj" and hc: "snd (handle_current X w obj plan planName) = Panicked"
    using assms by (auto simp: handleJobs_OnChange_def Let_def split_beta split: option.splits if_splits sum.splits)
  from hc obtain nodeName node where "mget (job_Labels obj) LabelNode = Some nodeName"
    "nodes_Cache_Get w nodeName = Inr node" "IsTrue (job_Conditions obj) ConditionComplete"
    "snd (handle_complete X w obj plan planName node) = Panicked"
    by (auto simp: handle_current_def handle_failed_returns handle_unfinished_returns split_beta Let_def split: option.splits sum.splits if_splits)
  with obj handle_complete_panics show ?thesis by blast
qed

definition bare_node :: Node where
  "bare_node = \<lparr>n_meta = empty_meta\<lparr>om_Name := ''a''\<rparr>, n_Unschedulable = False\<rparr>"

text \<open>
  The node the cache handed out is changed before the API server is asked: when the update fails, the
  cached node nevertheless carries the label of the plan.
\<close>

lemma cached_node_written_despite_error:
  assumes "GetLastTransitionTime (job_Conditions obj) ConditionComplete = t" "\<not> IsZero t"
    and "mget (job_Labels obj) (LabelPlanName planName) = Some planHash"
    and "post_delay plan \<le> time_Sub (now w) t" "n_Labels node = Some m"
    and "\<And>n. nodes_Update w n = Inl err"
  shows "\<exists>node'. NodeWritten node' \<in> set (fst (handle_complete X w obj plan planName node)) \<and>
     mget (n_Labels node') (LabelPlanName planName) = Some planHash \<and>
     snd (handle_complete X w obj plan planName node) = Returned (Some err)"
  using assms by (auto simp: handle_complete_def Let_def complete_labels_Some)

end
