(* ===== verification/Rollout.thy ===== *)
theory Rollout
  imports Syncing JobLifecycle "HOL-Library.Sublist"
begin

text \<open>
  The handlers composed into the rollout of one version of a plan. The state is the plan, the nodes and
  the jobs of the cluster, and what the controller remembers between runs: the resource versions for
  which it applied jobs. A step is one run of a registered handler, of whose writes any may fail to reach the API
  server, a restart of the controller, or something that happens to a job: it progresses (only a running
  job can complete) or disappears. The invariant of the reachable states bounds the number of
  running jobs by the concurrency.
\<close>

subsection \<open>The cluster\<close>

text \<open>
  \<open>cl_seen\<close> is the memory of the generating handler, \<open>cl_versions\<close> the resource versions that the plan has had; they are
  opaque and never used again.
\<close>

record cluster =
  cl_plan :: Plan
  cl_nodes :: "Node list"
  cl_jobs :: "Job list"
  cl_seen :: seen
  cl_versions :: "string set"

definition job_key :: "Job \<Rightarrow> string \<times> string" where
  "job_key j = (job_Namespace j, job_Name j)"

definition job_finished :: "Job \<Rightarrow> bool" where
  "job_finished j \<longleftrightarrow> IsTrue (job_Conditions j) ConditionComplete \<or> IsTrue (job_Conditions j) ConditionFailed"

text \<open>A job runs pods while it is neither paused nor finished.\<close>

definition running :: "Job \<Rightarrow> bool" where
  "running j \<longleftrightarrow> js_Parallelism (job_Spec j) = Some 1 \<and> \<not> job_finished j"

type_synonym apply_jobs = "Job list \<Rightarrow> Job list \<Rightarrow> Job list"

text \<open>
  What the API server does on the writes of the handlers: a status update replaces the status only, an update of a
  node replaces the node of that name, and \<open>merge\<close>, wrangler's apply which the plan handler configures not to
  delete, brings the generated jobs into the existing ones.
\<close>

fun perform :: "apply_jobs \<Rightarrow> cluster \<Rightarrow> effect \<Rightarrow> cluster" where
  "perform merge c (NodeUpdate n) = c\<lparr>cl_nodes := map (\<lambda>m. if n_Name m = n_Name n then n else m) (cl_nodes c)\<rparr>"
| "perform merge c (JobDelete ns nm pr) = c\<lparr>cl_jobs := filter (\<lambda>j. job_key j \<noteq> (ns, nm)) (cl_jobs c)\<rparr>"
| "perform merge c (PlanUpdateStatus p) = c\<lparr>cl_plan := (cl_plan c)\<lparr>p_Status := p_Status p\<rparr>\<rparr>"
| "perform merge c (ApplyObjects p js) = c\<lparr>cl_jobs := merge (cl_jobs c) js\<rparr>"
| "perform merge c _ = c"

abbreviation performs :: "apply_jobs \<Rightarrow> cluster \<Rightarrow> effect list \<Rightarrow> cluster" where
  "performs merge \<equiv> foldl (perform merge)"

text \<open>
  The documented behaviour of wrangler's apply without deletion, on jobs with distinct names: every object
  afterwards is an old one, left as it was, or has the generated labels and parallelism, whatever
  else it carries; every generated object is there, with the status of the object of that name if
  there was one; and names stay distinct.
\<close>

definition enforced :: "Job \<Rightarrow> Job \<Rightarrow> bool" where
  "enforced d j \<longleftrightarrow> job_key j = job_key d \<and> js_Parallelism (job_Spec j) = js_Parallelism (job_Spec d) \<and>
     (\<forall>k v. mget (job_Labels d) k = Some v \<longrightarrow> mget (job_Labels j) k = Some v)"

definition merge_ok :: "apply_jobs \<Rightarrow> bool" where
  "merge_ok merge \<longleftrightarrow> (\<forall>old new. distinct (map job_key old) \<and> distinct (map job_key new) \<longrightarrow>
     distinct (map job_key (merge old new)) \<and>
     (\<forall>j\<in>set (merge old new). j \<in> set old \<or> (\<exists>d\<in>set new. enforced d j)) \<and>
     (\<forall>d\<in>set new. \<exists>j\<in>set (merge old new). enforced d j \<and>
        (\<forall>i\<in>set old. job_key i = job_key d \<longrightarrow> job_Conditions j = job_Conditions i) \<and>
        (job_key d \<notin> job_key ` set old \<longrightarrow> job_Conditions j = [])))"

lemma merge_okD:
  assumes "merge_ok merge" "distinct (map job_key old)" "distinct (map job_key new)"
  shows "distinct (map job_key (merge old new))"
    and "j \<in> set (merge old new) \<Longrightarrow> j \<in> set old \<or> (\<exists>d\<in>set new. enforced d j)"
    and "d \<in> set new \<Longrightarrow> \<exists>j\<in>set (merge old new). enforced d j \<and>
        (\<forall>i\<in>set old. job_key i = job_key d \<longrightarrow> job_Conditions j = job_Conditions i) \<and>
        (job_key d \<notin> job_key ` set old \<longrightarrow> job_Conditions j = [])"
  using assms unfolding merge_ok_def by blast+

text \<open>A stored change of the status gives the plan a new resource version.\<close>

definition with_version :: "string \<Rightarrow> Plan \<Rightarrow> Plan" where
  "with_version rv p = p\<lparr>p_meta := (p_meta p)\<lparr>om_ResourceVersion := rv\<rparr>\<rparr>"

definition stored :: "cluster \<Rightarrow> string \<Rightarrow> cluster \<Rightarrow> cluster" where
  "stored c rv c' =
     (if p_Status (cl_plan c') = p_Status (cl_plan c) then c'
      else c'\<lparr>cl_plan := with_version rv (cl_plan c'), cl_versions := insert rv (cl_versions c')\<rparr>)"

text \<open>What the job handler reads in a cluster; what it is told about its writes is left open.\<close>

definition reads_from :: "cluster \<Rightarrow> job_world \<Rightarrow> bool" where
  "reads_from c w \<longleftrightarrow>
     plans_Get w (p_Namespace (cl_plan c)) (p_Name (cl_plan c)) = Inr (cl_plan c) \<and>
     (\<forall>n\<in>set (cl_nodes c). nodes_Cache_Get w (n_Name n) = Inr n)"

inductive rollout_step ::
    "('sel, 'req) extern \<Rightarrow> environ \<Rightarrow> string \<Rightarrow> string \<Rightarrow> apply_jobs \<Rightarrow> cluster \<Rightarrow> cluster \<Rightarrow> bool"
  for X env ctl clusterID merge where
  resolving: "sync X C [] (plan_status_handler X env clusterID w) (Some (cl_plan c)) = (es, r, err) \<Longrightarrow>
     subseq es' es \<Longrightarrow>
     (\<And>p. PlanUpdateStatus p \<in> set es' \<Longrightarrow> st_LatestHash (p_Status p) = st_LatestHash (p_Status (cl_plan c))) \<Longrightarrow>
     rv \<notin> cl_versions c \<Longrightarrow> rollout_step X env ctl clusterID merge c (stored c rv (performs merge c es'))"
| generating: "node_cache (sel_Matches X) (pw_nodeList w) (cl_nodes c) \<Longrightarrow>
     generating_sync X C True applied (plan_generating_handler X env ctl w) (cl_seen c) (cl_plan c) = Some (seen', es, r, err) \<Longrightarrow>
     subseq es' es \<Longrightarrow>
     (\<And>p js. ApplyObjects p js \<in> set es \<Longrightarrow> applied p js = None \<Longrightarrow> ApplyObjects p js \<in> set es') \<Longrightarrow>
     rv \<notin> cl_versions c \<Longrightarrow>
     rollout_step X env ctl clusterID merge c ((stored c rv (performs merge c es'))\<lparr>cl_seen := seen'\<rparr>)"
| job_event: "j \<in> set (cl_jobs c) \<Longrightarrow> reads_from c w \<Longrightarrow>
     subseq es' (fst (handleJobs_OnChange X ctl w (Some j))) \<Longrightarrow> rv \<notin> cl_versions c \<Longrightarrow>
     rollout_step X env ctl clusterID merge c (stored c rv (performs merge c es'))"
| restarted: "rollout_step X env ctl clusterID merge c (c\<lparr>cl_seen := Map.empty\<rparr>)"
| job_progress: "cl_jobs c = as @ j # bs \<Longrightarrow> \<not> job_finished j \<Longrightarrow> (IsTrue cs ConditionComplete \<Longrightarrow> running j) \<Longrightarrow>
     rollout_step X env ctl clusterID merge c (c\<lparr>cl_jobs := as @ j\<lparr>job_Conditions := cs\<rparr> # bs\<rparr>)"
| job_gone: "cl_jobs c = as @ j # bs \<Longrightarrow> rollout_step X env ctl clusterID merge c (c\<lparr>cl_jobs := as @ bs\<rparr>)"

text \<open>The states of a rollout that starts without jobs and with nothing in progress.\<close>

inductive reachable ::
    "('sel, 'req) extern \<Rightarrow> environ \<Rightarrow> string \<Rightarrow> string \<Rightarrow> apply_jobs \<Rightarrow> Plan \<Rightarrow> Node list \<Rightarrow> cluster \<Rightarrow> bool"
  for X env ctl clusterID merge plan0 nodes0 where
  start: "st_Applying (p_Status plan0) = [] \<Longrightarrow>
     reachable X env ctl clusterID merge plan0 nodes0 \<lparr>cl_plan = plan0, cl_nodes = nodes0, cl_jobs = [],
       cl_seen = Map.empty, cl_versions = {om_ResourceVersion (p_meta plan0)}\<rparr>"
| step: "reachable X env ctl clusterID merge plan0 nodes0 c \<Longrightarrow> rollout_step X env ctl clusterID merge c c' \<Longrightarrow>
     reachable X env ctl clusterID merge plan0 nodes0 c'"

subsection \<open>The invariant\<close>

text \<open>The job of a node, as the handlers recognise it: by its name and its labels.\<close>

definition job_name_on :: "('sel, 'req) extern \<Rightarrow> Plan \<Rightarrow> Node \<Rightarrow> string" where
  "job_name_on X plan n = SafeConcatName X [''apply'', p_Name plan, ''on'', hd (SplitN2 (n_Name n) (CHR ''.'')),
     ''with'', st_LatestHash (p_Status plan)]"

definition own_job :: "('sel, 'req) extern \<Rightarrow> Plan \<Rightarrow> Node \<Rightarrow> Job \<Rightarrow> bool" where
  "own_job X plan n j \<longleftrightarrow> job_key j = (p_Namespace plan, job_name_on X plan n) \<and>
     mget (job_Labels j) LabelPlan = Some (p_Name plan) \<and> mget (job_Labels j) LabelNode = Some (n_Name n) \<and>
     mget (job_Labels j) (LabelPlanName (p_Name plan)) = Some (st_LatestHash (p_Status plan))"

lemma own_job_New:
  assumes "job_New X env plan n ctl = Some d" "plain_elem (p_Name plan)" "enforced d j"
  shows "own_job X plan n j"
  using job_New_fields(1,4,9) [OF assms(1)] job_labels_reserved(3,4,6) [OF assms(2), of n ctl] assms(3)
  by (simp add: own_job_def job_key_def enforced_def job_name_on_def)

text \<open>The parts of a plan that a rollout keeps.\<close>

definition same_rollout :: "Plan \<Rightarrow> Plan \<Rightarrow> bool" where
  "same_rollout p q \<longleftrightarrow> p_Spec p = p_Spec q \<and> p_Name p = p_Name q \<and> p_Namespace p = p_Namespace q \<and>
     om_DeletionTimestamp (p_meta p) = om_DeletionTimestamp (p_meta q) \<and> st_LatestHash (p_Status p) = st_LatestHash (p_Status q)"

lemma same_rollout_refl [simp]: "same_rollout p p"
  by (simp add: same_rollout_def)

lemma with_version_simps [simp]:
  "p_Spec (with_version rv p) = p_Spec p" "p_Status (with_version rv p) = p_Status p" "p_Name (with_version rv p) = p_Name p"
  "p_Namespace (with_version rv p) = p_Namespace p" "om_ResourceVersion (p_meta (with_version rv p)) = rv"
  "om_DeletionTimestamp (p_meta (with_version rv p)) = om_DeletionTimestamp (p_meta p)" "plan_key (with_version rv p) = plan_key p"
  "same_rollout (with_version rv p) q \<longleftrightarrow> same_rollout p q" "is_applying (with_version rv p) = is_applying p"
  by (simp_all add: with_version_def same_rollout_def plan_key_def is_applying_def fun_eq_iff)

lemma stored_simps [simp]:
  "cl_nodes (stored c rv c') = cl_nodes c'" "cl_jobs (stored c rv c') = cl_jobs c'" "cl_seen (stored c rv c') = cl_seen c'"
  "p_Status (cl_plan (stored c rv c')) = p_Status (cl_plan c')" "same_rollout (cl_plan (stored c rv c')) q = same_rollout (cl_plan c') q"
  "is_applying (cl_plan (stored c rv c')) = is_applying (cl_plan c')"
  by (simp_all add: stored_def)

lemma same_rollout_cong:
  assumes "same_rollout p q"
  shows "eligible X p = eligible X q" "own_job X p = own_job X q" "job_name_on X p = job_name_on X q"
  using assms by (auto simp: same_rollout_def own_job_def job_name_on_def eligible_def fun_eq_iff split: sum.splits)

abbreviation node_ids :: "Node list \<Rightarrow> (string \<times> string) list" where
  "node_ids nodes \<equiv> map (\<lambda>n. (n_Name n, Hostname n)) nodes"

definition job_ok :: "('sel, 'req) extern \<Rightarrow> Plan \<Rightarrow> cluster \<Rightarrow> Job \<Rightarrow> bool" where
  "job_ok X plan0 c j \<longleftrightarrow> (\<exists>n\<in>set (cl_nodes c). own_job X plan0 n j \<and>
     (running j \<longrightarrow> eligible X plan0 n \<and> is_applying (cl_plan c) n))"

text \<open>\<open>D\<close> names nodes that are done with the version: they must not become eligible again.\<close>

definition rollout_inv :: "('sel, 'req) extern \<Rightarrow> Plan \<Rightarrow> Node list \<Rightarrow> string set \<Rightarrow> cluster \<Rightarrow> bool" where
  "rollout_inv X plan0 nodes0 D c \<longleftrightarrow>
     same_rollout (cl_plan c) plan0 \<and> node_ids (cl_nodes c) = node_ids nodes0 \<and>
     int (length (st_Applying (p_Status (cl_plan c)))) \<le> sp_Concurrency (p_Spec plan0) \<and>
     (\<forall>n\<in>set (cl_nodes c). n_Name n \<in> D \<longrightarrow> \<not> eligible X plan0 n) \<and>
     distinct (map job_key (cl_jobs c)) \<and> (\<forall>j\<in>set (cl_jobs c). job_ok X plan0 c j)"

text \<open>Neither the memory of the controller nor the resource version matters for it.\<close>

lemma rollout_inv_memory [simp]:
  "rollout_inv X plan0 nodes0 D (stored c rv c') = rollout_inv X plan0 nodes0 D c'"
  "rollout_inv X plan0 nodes0 D (c\<lparr>cl_seen := seen\<rparr>) = rollout_inv X plan0 nodes0 D c"
  by (simp_all add: rollout_inv_def job_ok_def)

text \<open>
  What a rollout needs of the cluster and the plan: node names and hostnames are distinct, the names of the
  jobs tell the nodes apart, and the plan does not rewrite the hostname label of a node.
\<close>

definition rollout_ok :: "('sel, 'req) extern \<Rightarrow> Plan \<Rightarrow> Node list \<Rightarrow> bool" where
  "rollout_ok X plan nodes \<longleftrightarrow>
     distinct (map n_Name nodes) \<and> distinct (map Hostname nodes) \<and> distinct (map (job_name_on X plan) nodes) \<and>
     plain_elem (p_Name plan) \<and> 0 \<le> sp_Concurrency (p_Spec plan) \<and>
     mget (sp_PostCompleteLabels (p_Spec plan)) LabelHostname = None"

lemma rollout_ok_nodes:
  assumes "node_ids nodes = node_ids nodes0" "rollout_ok X plan nodes0"
  shows "rollout_ok X plan nodes"
proof -
  have "map n_Name nodes = map n_Name nodes0" "map Hostname nodes = map Hostname nodes0"
    using arg_cong [OF assms(1), of "map fst"] arg_cong [OF assms(1), of "map snd"] by (simp_all add: comp_def)
  moreover have "map (job_name_on X plan) nodes = map (job_name_on X plan) nodes0"
    using arg_cong [OF calculation(1), of "map (\<lambda>s. SafeConcatName X [''apply'', p_Name plan, ''on'',
      hd (SplitN2 s (CHR ''.'')), ''with'', st_LatestHash (p_Status plan)])"]
    by (simp add: comp_def job_name_on_def [abs_def])
  ultimately show ?thesis using assms(2) unfolding rollout_ok_def by metis
qed

lemma distinct_map_eq: "distinct (map f xs) \<Longrightarrow> x \<in> set xs \<Longrightarrow> y \<in> set xs \<Longrightarrow> f x = f y \<Longrightarrow> x = y"
  by (auto simp: distinct_map dest: inj_onD)

text \<open>A job belongs to one node, and a node has one job.\<close>

lemma own_job_node:
  "rollout_ok X plan nodes \<Longrightarrow> own_job X plan n j \<Longrightarrow> own_job X plan m j \<Longrightarrow> n \<in> set nodes \<Longrightarrow> m \<in> set nodes \<Longrightarrow> n = m"
  by (auto simp: rollout_ok_def own_job_def dest: distinct_map_eq)

lemma own_job_job:
  "distinct (map job_key jobs) \<Longrightarrow> own_job X plan n j \<Longrightarrow> own_job X plan n i \<Longrightarrow> j \<in> set jobs \<Longrightarrow> i \<in> set jobs \<Longrightarrow> j = i"
  by (auto simp: own_job_def intro: distinct_map_eq)

subsection \<open>The writes keep the invariant\<close>

lemma inv_jobs:
  assumes "rollout_inv X plan0 nodes0 D c" "distinct (map job_key js)"
    "\<And>j. j \<in> set js \<Longrightarrow> j \<notin> set (cl_jobs c) \<Longrightarrow> job_ok X plan0 c j"
  shows "rollout_inv X plan0 nodes0 D (c\<lparr>cl_jobs := js\<rparr>)"
  using assms unfolding rollout_inv_def job_ok_def by auto

lemma inv_delete: "rollout_inv X plan0 nodes0 D c \<Longrightarrow> rollout_inv X plan0 nodes0 D (perform merge c (JobDelete ns nm pr))"
  by (auto simp: rollout_inv_def [of X plan0 nodes0 D c] intro!: inv_jobs distinct_map_filter)

lemma inv_status:
  assumes "rollout_inv X plan0 nodes0 D c" "st_LatestHash (p_Status p) = st_LatestHash (p_Status (cl_plan c))"
    "int (length (st_Applying (p_Status p))) \<le> sp_Concurrency (p_Spec plan0)"
    "\<And>n. n \<in> set (cl_nodes c) \<Longrightarrow> eligible X plan0 n \<Longrightarrow> is_applying (cl_plan c) n \<Longrightarrow> is_applying p n"
  shows "rollout_inv X plan0 nodes0 D (perform merge c (PlanUpdateStatus p))"
  using assms by (fastforce simp: rollout_inv_def same_rollout_def job_ok_def is_applying_def)

lemma inv_node:
  assumes "rollout_inv X plan0 nodes0 D c" "rollout_ok X plan0 nodes0"
    and m: "m \<in> set (cl_nodes c)" "n_Name n = n_Name m" "Hostname n = Hostname m"
    and el: "eligible X plan0 n \<Longrightarrow> eligible X plan0 m"
    and idle: "\<And>j. j \<in> set (cl_jobs c) \<Longrightarrow> own_job X plan0 m j \<Longrightarrow> \<not> running j"
  shows "rollout_inv X plan0 nodes0 D (perform merge c (NodeUpdate n))"
proof -
  let ?f = "\<lambda>x. if n_Name x = n_Name n then n else x"
  have ids: "node_ids (cl_nodes c) = node_ids nodes0" using assms(1) by (simp add: rollout_inv_def)
  have d: "distinct (map n_Name (cl_nodes c))"
    using rollout_ok_nodes [OF ids assms(2)] by (simp add: rollout_ok_def)
  have "n_Name x = n_Name n \<Longrightarrow> x = m" if "x \<in> set (cl_nodes c)" for x
    using distinct_map_eq [OF d that m(1)] m(2) by simp
  then have f: "n_Name (?f x) = n_Name x" "Hostname (?f x) = Hostname x" "x \<noteq> m \<Longrightarrow> ?f x = x" if "x \<in> set (cl_nodes c)" for x
    using that m(3) by auto
  have "node_ids (map ?f (cl_nodes c)) = node_ids (cl_nodes c)" using f by simp
  moreover have "job_ok X plan0 (c\<lparr>cl_nodes := map ?f (cl_nodes c)\<rparr>) j" if j: "j \<in> set (cl_jobs c)" for j
  proof -
    obtain x where x: "x \<in> set (cl_nodes c)" "own_job X plan0 x j" "running j \<longrightarrow> eligible X plan0 x \<and> is_applying (cl_plan c) x"
      using assms(1) j by (auto simp: rollout_inv_def job_ok_def)
    have "own_job X plan0 (?f x) j" using x(2) f(1) [OF x(1)] by (simp add: own_job_def job_name_on_def)
    moreover have "running j \<longrightarrow> ?f x = x" using x idle [OF j] f(3) [OF x(1)] by blast
    ultimately show ?thesis using x unfolding job_ok_def by (intro bexI [of _ "?f x"]) auto
  qed
  moreover have "\<forall>x\<in>set (map ?f (cl_nodes c)). n_Name x \<in> D \<longrightarrow> \<not> eligible X plan0 x"
    using assms(1) m(1,2) el by (auto simp: rollout_inv_def)
  ultimately show ?thesis using assms(1) ids by (simp add: rollout_inv_def)
qed

lemma inv_apply:
  assumes "rollout_inv X plan0 nodes0 D c" "merge_ok merge" "distinct (map job_key js)"
    "\<And>d j. d \<in> set js \<Longrightarrow> enforced d j \<Longrightarrow> job_ok X plan0 c j"
  shows "rollout_inv X plan0 nodes0 D (perform merge c (ApplyObjects p js))"
proof -
  have d: "distinct (map job_key (cl_jobs c))" using assms(1) by (simp add: rollout_inv_def)
  note m = merge_okD [OF assms(2) d assms(3)]
  show ?thesis unfolding perform.simps using m(2) assms(4) by (intro inv_jobs [OF assms(1) m(1)]) blast
qed

text \<open>Only four kinds of effects are writes, so only those matter.\<close>

fun is_write :: "effect \<Rightarrow> bool" where
  "is_write (NodeUpdate _) = True"
| "is_write (JobDelete _ _ _) = True"
| "is_write (PlanUpdateStatus _) = True"
| "is_write (ApplyObjects _ _) = True"
| "is_write _ = False"

lemma performs_writes: "performs merge c es = performs merge c (filter is_write es)"
proof (induction es arbitrary: c)
  case (Cons e es)
  then show ?case by (cases e) simp_all
qed simp

lemma subseq_single: "subseq es [e] \<Longrightarrow> es = [] \<or> es = [e]"
  by (cases es) (auto dest: subseq_Cons' simp: list_emb_Nil2 split: if_splits)

text \<open>A handler that writes at most one thing and then at most one other.\<close>

lemma inv_two_writes:
  assumes "filter is_write es = xs @ ys" "subseq es' es" "rollout_inv X plan0 nodes0 D c"
    and "\<And>us. subseq us xs \<Longrightarrow> rollout_inv X plan0 nodes0 D (performs merge c us)"
    and "\<And>us vs. subseq us xs \<Longrightarrow> subseq vs ys \<Longrightarrow> rollout_inv X plan0 nodes0 D (performs merge c us) \<Longrightarrow>
       rollout_inv X plan0 nodes0 D (performs merge (performs merge c us) vs)"
  shows "rollout_inv X plan0 nodes0 D (performs merge c es')"
proof -
  obtain us vs where "subseq us xs" "subseq vs ys" "filter is_write es' = us @ vs"
    using subseq_filter [OF assms(2), of is_write] assms(1) by (auto elim: subseq_appendE)
  with assms(4,5) show ?thesis by (subst performs_writes) simp
qed

subsection \<open>The status handler\<close>

lemma return_digest_frame:
  "st_Applying (ho_status (return_digest X w effs s)) = st_Applying (p_Status (h_obj s))"
  "ho_effects (return_digest X w effs s) = effs"
  using DigestStatus_frame(5) [of X "pw_secretGet w" "h_obj s"]
  by (auto simp: return_digest_def split: prod.splits)

lemma resolved_to_frame:
  "st_Applying (ho_status (resolved_to X w effs s latest field reason)) = st_Applying (p_Status (h_obj s))"
  "filter is_write (ho_effects (resolved_to X w effs s latest field reason)) = filter is_write effs"
  unfolding resolved_to_def Let_def return_digest_frame by simp_all

lemma resolve_plan_frame:
  assumes "st_Applying (h_status s) = st_Applying (p_Status (h_obj s))"
  shows "st_Applying (ho_status (resolve_plan X env cid w effs s)) = st_Applying (p_Status (h_obj s))"
    "filter is_write (ho_effects (resolve_plan X env cid w effs s)) = filter is_write effs"
  using assms unfolding resolve_plan_def Let_def
  by (auto simp: return_digest_frame resolved_to_frame return_status_def split: option.splits sum.splits)

lemma status_handler_frame:
  "st_Applying (ho_status (plan_status_handler X env cid w obj)) = st_Applying (p_Status obj)"
  "filter is_write (ho_effects (plan_status_handler X env cid w obj)) = []"
  unfolding plan_status_handler_def Let_def
  by (auto simp: return_digest_frame resolve_plan_frame split: option.splits)

lemma sync_writes:
  "\<exists>ws. filter is_write (fst (sync X C [] handler (Some obj))) = filter is_write (ho_effects (handler obj)) @ ws \<and>
     (ws = [] \<or> (\<exists>p. ws = [PlanUpdateStatus p] \<and>
        p_Status p = (if ho_err (handler obj) = None then ho_status (handler obj) else p_Status obj)))"
  by (auto simp: sync_def sync_status_def Let_def split: sum.splits)

lemma inv_resolving:
  assumes "rollout_inv X plan0 nodes0 D c" "sync X C [] (plan_status_handler X env cid w) (Some (cl_plan c)) = (es, r, err)"
    and "subseq es' es"
    and "\<And>p. PlanUpdateStatus p \<in> set es' \<Longrightarrow> st_LatestHash (p_Status p) = st_LatestHash (p_Status (cl_plan c))"
  shows "rollout_inv X plan0 nodes0 D (performs merge c es')"
proof -
  obtain ws where ws: "filter is_write es = ws" "ws = [] \<or> (\<exists>p. ws = [PlanUpdateStatus p] \<and>
      st_Applying (p_Status p) = st_Applying (p_Status (cl_plan c)))"
    using sync_writes [of X C "plan_status_handler X env cid w" "cl_plan c"] assms(2)
      status_handler_frame [of X env cid w "cl_plan c"] by (auto split: if_splits)
  then have "filter is_write es' = [] \<or> (\<exists>p. filter is_write es' = [PlanUpdateStatus p] \<and>
      st_Applying (p_Status p) = st_Applying (p_Status (cl_plan c)))"
    using subseq_filter [OF assms(3), of is_write] subseq_single by fastforce
  then show ?thesis
  proof
    assume "filter is_write es' = []"
    then show ?thesis using assms(1) by (subst performs_writes) simp
  next
    assume "\<exists>p. filter is_write es' = [PlanUpdateStatus p] \<and> st_Applying (p_Status p) = st_Applying (p_Status (cl_plan c))"
    then obtain p where p: "filter is_write es' = [PlanUpdateStatus p]" "st_Applying (p_Status p) = st_Applying (p_Status (cl_plan c))"
      by blast
    have "PlanUpdateStatus p \<in> set (filter is_write es')" using p(1) by simp
    then have "PlanUpdateStatus p \<in> set es'" by simp
    from inv_status [OF assms(1) assms(4) [OF this]] p(2) assms(1) show ?thesis
      by (subst performs_writes) (simp add: p(1) rollout_inv_def is_applying_def)
  qed
qed

subsection \<open>The generating handler\<close>

lemma generating_effects:
  assumes "plan_generating_handler X env ctl w obj = Some (jobs, h)"
  shows "filter is_write (ho_effects h) = []"
  using assms by (auto simp: plan_generating_handler_def finish_generating_def return_status_def Let_def split_beta
      split: if_splits sum.splits build_end.splits)

lemma Handle_cases:
  assumes "Handle unique applied generate seen obj = Some (seen', h')"
  obtains (skipped) "ho_effects h' = []" "ho_status h' = p_Status obj" "ho_err h' = None"
  | (unapplied) objs where "generate obj = Some (objs, h')"
  | (applied) objs h where "generate obj = Some (objs, h)" "ho_err h = None"
      "ho_effects h' = ho_effects h @ [ApplyObjects (ho_obj h) objs]" "ho_status h' = ho_status h"
proof (cases "case om_DeletionTimestamp (p_meta obj) of None \<Rightarrow> False | Some t \<Rightarrow> \<not> IsZero t")
  case True
  with assms show ?thesis by (intro skipped) (auto simp: Handle_def)
next
  case False
  with assms obtain objs h where g: "generate obj = Some (objs, h)" by (auto simp: Handle_def split: option.splits)
  show ?thesis
  proof (cases "ho_err h \<noteq> None \<or> \<not> isNewResourceVersion unique seen (ho_obj h)")
    case True
    with False g assms show ?thesis by (intro unapplied) (auto simp: Handle_def split: if_splits)
  next
    case f: False
    with False g assms show ?thesis
      by (intro applied [OF g]) (auto simp: Handle_def Let_def split: option.splits)
  qed
qed

text \<open>The writes of a run: the objects of a handler that succeeded, then its status.\<close>

lemma generating_sync_writes:
  assumes "generating_sync X C True applied (plan_generating_handler X env ctl w) seen obj = Some (seen', es, r, err)"
  shows "\<exists>xs ys. filter is_write es = xs @ ys \<and>
     (xs = [] \<or> (\<exists>p jobs h. xs = [ApplyObjects p jobs] \<and>
        plan_generating_handler X env ctl w obj = Some (jobs, h) \<and> ho_err h = None)) \<and>
     (ys = [] \<or> (\<exists>p. ys = [PlanUpdateStatus p] \<and> (p_Status p = p_Status obj \<or>
        (\<exists>jobs h. plan_generating_handler X env ctl w obj = Some (jobs, h) \<and> ho_err h = None \<and> p_Status p = ho_status h))))"
proof -
  obtain h where h: "Handle True applied (plan_generating_handler X env ctl w) seen obj = Some (seen', h)"
    and es: "es = fst (sync X C [] (\<lambda>_. h) (Some obj))"
    using assms by (auto simp: generating_sync_def split: option.splits)
  obtain ys where ys: "filter is_write es = filter is_write (ho_effects h) @ ys"
    "ys = [] \<or> (\<exists>p. ys = [PlanUpdateStatus p] \<and> p_Status p = (if ho_err h = None then ho_status h else p_Status obj))"
    using sync_writes [of X C "\<lambda>_. h" obj] es by auto
  from h show ?thesis
  proof (cases rule: Handle_cases)
    case skipped
    with ys show ?thesis by (intro exI [of _ "[]"] exI [of _ ys]) auto
  next
    case (unapplied objs)
    with ys generating_effects [OF unapplied] show ?thesis
      by (intro exI [of _ "[]"] exI [of _ ys]) (auto split: if_splits)
  next
    case (applied objs h0)
    with ys(1) generating_effects [OF applied(1)] have "filter is_write es = [ApplyObjects (ho_obj h0) objs] @ ys" by simp
    with ys(2) applied show ?thesis
      by (intro exI [of _ "[ApplyObjects (ho_obj h0) objs]"] exI [of _ ys]) (auto split: if_splits)
  qed
qed

lemma select_distinct:
  assumes "labels_ok X" "node_cache (sel_Matches X) nodeList nodes" "SelectConcurrentNodes X nodeList plan = Inr sel"
    and "distinct nodes"
  shows "distinct sel"
proof -
  obtain hs ws where hs: "mset hs = mset (held X plan nodes)" and ws: "mset ws = mset (waiting X plan nodes)"
    and eq: "sel = sort_key n_Name (hs @ take (nat (sp_Concurrency (p_Spec plan) - int (length hs)))
       (sort_key (candidate_sum plan) ws))"
    by (rule select_core [OF assms(1-3)])
  have "distinct hs" "distinct ws"
    using assms(4) hs ws mset_eq_imp_distinct_iff [OF hs] mset_eq_imp_distinct_iff [OF ws] by simp_all
  moreover have "set hs \<inter> set (take k (sort_key (candidate_sum plan) ws)) = {}" for k
    using set_eq_of_mset [OF hs] set_eq_of_mset [OF ws] set_room [of k "candidate_sum plan" ws] by auto
  ultimately show ?thesis unfolding eq by simp
qed

lemma held_bound:
  assumes "distinct (map Hostname nodes)"
  shows "length (held X plan nodes) \<le> length (st_Applying (p_Status plan))"
proof -
  have "distinct (map Hostname (held X plan nodes))" using assms by (rule distinct_map_filter)
  then have "length (held X plan nodes) = card (set (map Hostname (held X plan nodes)))"
    by (metis distinct_card length_map)
  also have "\<dots> \<le> card (set (st_Applying (p_Status plan)))"
    by (rule card_mono) (auto simp: is_applying_def)
  finally show ?thesis using card_length le_trans by blast
qed

text \<open>What a run without an error gives: jobs for selected nodes and the list of the selected nodes.\<close>

lemma generating_result:
  assumes "plan_generating_handler X env ctl w obj = Some (jobs, h)" "ho_err h = None"
  obtains (none) "jobs = []" "st_Applying (ho_status h) = st_Applying (p_Status obj)"
      "st_LatestHash (ho_status h) = st_LatestHash (p_Status obj)"
  | (some) sel where "SelectConcurrentNodes X (pw_nodeList w) obj = Inr sel" "\<forall>n\<in>set sel. buildable X env ctl obj n"
      "jobs = map (\<lambda>n. the (job_New X env obj n ctl)) sel" "st_Applying (ho_status h) = map Hostname sel"
      "st_LatestHash (ho_status h) = st_LatestHash (p_Status obj)"
  using assms
proof (cases rule: generating_ok_cases)
  case not_ready
  then show ?thesis by (intro none) (simp_all add: return_status_def on_obj_frame)
next
  case (built sel)
  show ?thesis
  proof (cases "map Hostname sel \<noteq> [] \<and> must_wait X w obj")
    case True
    with built(4) show ?thesis
      by (intro none) (auto simp: finish_generating_def return_status_def on_obj_frame Let_def split: if_splits)
  next
    case False
    show ?thesis
    proof (cases "sel = []")
      case True
      with built(4) show ?thesis by (intro some [of "[]"]) (auto simp: finish_generating_def Let_def built(2))
    next
      case ne: False
      with False finish_go(1,2,6) [OF _ _ built(4)] show ?thesis by (intro some [OF built(2,3)]) auto
    qed
  qed
qed

lemma new_keys_distinct:
  assumes inv: "rollout_inv X plan0 nodes0 D c" and ok: "rollout_ok X plan0 nodes0" "labels_ok X"
    and cache: "node_cache (sel_Matches X) nodeList (cl_nodes c)" and sel: "SelectConcurrentNodes X nodeList (cl_plan c) = Inr sel"
    and b: "\<forall>n\<in>set sel. buildable X env ctl (cl_plan c) n"
  shows "distinct (map job_key (map (\<lambda>n. the (job_New X env (cl_plan c) n ctl)) sel))"
proof -
  have same: "same_rollout (cl_plan c) plan0" and ids: "node_ids (cl_nodes c) = node_ids nodes0"
    using inv by (simp_all add: rollout_inv_def)
  note nodes = rollout_ok_nodes [OF ids ok(1)]
  have "distinct (cl_nodes c)" using nodes by (auto simp: rollout_ok_def distinct_map)
  then have "distinct (map (job_name_on X plan0) sel)"
    using select_distinct [OF ok(2) cache sel] nodes select_subset [OF ok(2) cache sel]
    by (auto simp: rollout_ok_def distinct_map intro: inj_on_subset)
  moreover have "job_key (the (job_New X env (cl_plan c) n ctl)) = (p_Namespace (cl_plan c), job_name_on X plan0 n)"
    if "n \<in> set sel" for n
    using b that job_New_fields(4,9) [of X env "cl_plan c" n ctl] same_rollout_cong(3) [OF same, of X]
    by (auto simp: buildable_def job_key_def job_name_on_def fun_eq_iff)
  ultimately show ?thesis by (auto simp: distinct_map inj_on_def)
qed

text \<open>The jobs of a run fit the cluster, and so does its list of nodes.\<close>

lemma generated_jobs_fit:
  assumes inv: "rollout_inv X plan0 nodes0 D c" and ok: "rollout_ok X plan0 nodes0" "labels_ok X"
    and cache: "node_cache (sel_Matches X) (pw_nodeList w) (cl_nodes c)"
    and run: "plan_generating_handler X env ctl w (cl_plan c) = Some (jobs, h)" "ho_err h = None"
  shows "distinct (map job_key jobs)" and "\<And>d j. d \<in> set jobs \<Longrightarrow> enforced d j \<Longrightarrow> job_ok X plan0 c j"
proof -
  have same: "same_rollout (cl_plan c) plan0" and ids: "node_ids (cl_nodes c) = node_ids nodes0"
    using inv by (simp_all add: rollout_inv_def)
  note nodes = rollout_ok_nodes [OF ids ok(1)]
  have "distinct (map job_key jobs) \<and> (\<forall>d\<in>set jobs. \<forall>j. enforced d j \<longrightarrow> job_ok X plan0 c j)"
    using run
  proof (cases rule: generating_result)
    case (some sel)
    have sub: "n \<in> set (cl_nodes c) \<and> eligible X plan0 n" if "n \<in> set sel" for n
      using select_subset [OF ok(2) cache some(1) that] same_rollout_cong(1) [OF same, of X] by simp
    have new: "job_New X env (cl_plan c) n ctl = Some (the (job_New X env (cl_plan c) n ctl))" if "n \<in> set sel" for n
      using some(2) that by (auto simp: buildable_def)
    have "distinct (map job_key jobs)" unfolding some(3) by (rule new_keys_distinct [OF inv ok cache some(1,2)])
    moreover have "job_ok X plan0 c j" if n: "n \<in> set sel" and e: "enforced (the (job_New X env (cl_plan c) n ctl)) j" for n j
    proof -
      have pl: "plain_elem (p_Name (cl_plan c))" using ok(1) same by (simp add: rollout_ok_def same_rollout_def)
      have "own_job X plan0 n j" using own_job_New [OF new [OF n] pl e] same_rollout_cong(2) [OF same, of X] by simp
      moreover have "running j \<Longrightarrow> is_applying (cl_plan c) n"
        using e job_New_fields(5) [OF new [OF n]]
        by (auto simp: running_def enforced_def job_parallelism_def is_applying_def split: if_splits)
      ultimately show ?thesis using sub [OF n] unfolding job_ok_def by blast
    qed
    ultimately show ?thesis by (auto simp: some(3))
  qed simp
  then show "distinct (map job_key jobs)" "\<And>d j. d \<in> set jobs \<Longrightarrow> enforced d j \<Longrightarrow> job_ok X plan0 c j" by blast+
qed

lemma generated_status_fits:
  assumes inv: "rollout_inv X plan0 nodes0 D c" and ok: "rollout_ok X plan0 nodes0" "labels_ok X"
    and cache: "node_cache (sel_Matches X) (pw_nodeList w) (cl_nodes c)"
    and run: "plan_generating_handler X env ctl w (cl_plan c) = Some (jobs, h)" "ho_err h = None"
  shows "st_LatestHash (ho_status h) = st_LatestHash (p_Status (cl_plan c))"
    and "int (length (st_Applying (ho_status h))) \<le> sp_Concurrency (p_Spec plan0)"
    and "\<And>n. n \<in> set (cl_nodes c) \<Longrightarrow> eligible X plan0 n \<Longrightarrow> is_applying (cl_plan c) n \<Longrightarrow>
       Hostname n \<in> set (st_Applying (ho_status h))"
proof -
  have same: "same_rollout (cl_plan c) plan0" and ids: "node_ids (cl_nodes c) = node_ids nodes0"
    and len: "int (length (st_Applying (p_Status (cl_plan c)))) \<le> sp_Concurrency (p_Spec plan0)"
    using inv by (simp_all add: rollout_inv_def)
  have hosts: "distinct (map Hostname (cl_nodes c))"
    using rollout_ok_nodes [OF ids ok(1)] by (simp add: rollout_ok_def)
  have "st_LatestHash (ho_status h) = st_LatestHash (p_Status (cl_plan c)) \<and>
    int (length (st_Applying (ho_status h))) \<le> sp_Concurrency (p_Spec plan0) \<and>
    (\<forall>n\<in>set (cl_nodes c). eligible X plan0 n \<and> is_applying (cl_plan c) n \<longrightarrow> Hostname n \<in> set (st_Applying (ho_status h)))"
    using run
  proof (cases rule: generating_result)
    case none
    with len show ?thesis by (auto simp: is_applying_def)
  next
    case (some sel)
    have "int (length sel) \<le> sp_Concurrency (p_Spec plan0)"
      using select_length [OF ok(2) cache some(1)] held_bound [OF hosts, of X "cl_plan c"] len same
      by (simp add: same_rollout_def)
    moreover have "n \<in> set sel" if "n \<in> set (cl_nodes c)" "eligible X plan0 n" "is_applying (cl_plan c) n" for n
      using select_keeps_held [OF ok(2) cache some(1) that(1) _ that(3)] that(2) same_rollout_cong(1) [OF same, of X] by simp
    ultimately show ?thesis using some(4,5) by auto
  qed
  then show "st_LatestHash (ho_status h) = st_LatestHash (p_Status (cl_plan c))"
    "int (length (st_Applying (ho_status h))) \<le> sp_Concurrency (p_Spec plan0)"
    "\<And>n. n \<in> set (cl_nodes c) \<Longrightarrow> eligible X plan0 n \<Longrightarrow> is_applying (cl_plan c) n \<Longrightarrow>
       Hostname n \<in> set (st_Applying (ho_status h))" by blast+
qed

lemma inv_generating:
  assumes inv: "rollout_inv X plan0 nodes0 D c" and ok: "rollout_ok X plan0 nodes0" "labels_ok X" "merge_ok merge"
    and cache: "node_cache (sel_Matches X) (pw_nodeList w) (cl_nodes c)"
    and run: "generating_sync X C True applied (plan_generating_handler X env ctl w) seen (cl_plan c) = Some (seen', es, r, err)"
    and sub: "subseq es' es"
  shows "rollout_inv X plan0 nodes0 D (performs merge c es')"
proof -
  let ?run = "plan_generating_handler X env ctl w (cl_plan c)"
  note app = generated_jobs_fit [OF inv ok(1,2) cache] and upd = generated_status_fits [OF inv ok(1,2) cache]
  obtain xs ys where xy: "filter is_write es = xs @ ys"
    "xs = [] \<or> (\<exists>p jobs h. xs = [ApplyObjects p jobs] \<and> ?run = Some (jobs, h) \<and> ho_err h = None)"
    "ys = [] \<or> (\<exists>p. ys = [PlanUpdateStatus p] \<and> (p_Status p = p_Status (cl_plan c) \<or>
       (\<exists>jobs h. ?run = Some (jobs, h) \<and> ho_err h = None \<and> p_Status p = ho_status h)))"
    using generating_sync_writes [OF run] by blast
  have x: "(\<exists>js. performs merge c us = c\<lparr>cl_jobs := js\<rparr>) \<and> rollout_inv X plan0 nodes0 D (performs merge c us)"
    if us: "subseq us xs" for us
  proof (cases "us = []")
    case True
    then show ?thesis using inv by (auto intro: exI [of _ "cl_jobs c"])
  next
    case False
    then obtain p jobs h where "us = [ApplyObjects p jobs]" "?run = Some (jobs, h)" "ho_err h = None"
      using us xy(2) subseq_single by fastforce
    then show ?thesis using inv_apply [OF inv ok(3) app] by auto
  qed
  have y: "rollout_inv X plan0 nodes0 D (performs merge c' vs)"
    if vs: "subseq vs ys" and inv': "rollout_inv X plan0 nodes0 D c'" and c': "c' = c\<lparr>cl_jobs := js\<rparr>" for vs c' js
  proof (cases "vs = []")
    case False
    then obtain p where p: "vs = [PlanUpdateStatus p]" "p_Status p = p_Status (cl_plan c) \<or>
       (\<exists>jobs h. ?run = Some (jobs, h) \<and> ho_err h = None \<and> p_Status p = ho_status h)"
      using vs xy(3) subseq_single by fastforce
    have "rollout_inv X plan0 nodes0 D (perform merge c' (PlanUpdateStatus p))"
      using p(2)
    proof
      assume "p_Status p = p_Status (cl_plan c)"
      with inv' c' show ?thesis by simp
    next
      assume "\<exists>jobs h. ?run = Some (jobs, h) \<and> ho_err h = None \<and> p_Status p = ho_status h"
      then obtain jobs h where g: "?run = Some (jobs, h)" "ho_err h = None" "p_Status p = ho_status h" by blast
      show ?thesis
        using upd [OF g(1,2)] c' g(3) by (intro inv_status [OF inv']) (simp_all add: is_applying_def)
    qed
    then show ?thesis by (simp add: p(1))
  qed (use inv' in simp)
  show ?thesis using x y by (intro inv_two_writes [OF xy(1) sub inv]) blast+
qed

subsection \<open>The job handler\<close>

lemma Hostname_cong:
  "n_Name n = n_Name m \<Longrightarrow> mget (n_Labels n) LabelHostname = mget (n_Labels m) LabelHostname \<Longrightarrow> Hostname n = Hostname m"
  by (cases "n_Labels n"; cases "n_Labels m") (auto simp: Hostname_def split: option.splits)

text \<open>
  The writes for a job of a node of the cluster: at most a status of the plan that only differs in its conditions, or
  an update of the job's own node once the job is complete, and then at most a deletion.
\<close>

definition deletes :: "Job \<Rightarrow> effect list set" where
  "deletes j = {[]} \<union> {[JobDelete (job_Namespace j) (job_Name j) pr] | pr. True}"

inductive job_writes :: "('sel, 'req) extern \<Rightarrow> Plan \<Rightarrow> Node \<Rightarrow> Job \<Rightarrow> effect list \<Rightarrow> bool" for X plan n j where
  no_write: "ys \<in> deletes j \<Longrightarrow> job_writes X plan n j ys"
| plan_write: "st_LatestHash (p_Status p) = st_LatestHash (p_Status plan) \<Longrightarrow>
     st_Applying (p_Status p) = st_Applying (p_Status plan) \<Longrightarrow> ys \<in> deletes j \<Longrightarrow> job_writes X plan n j (PlanUpdateStatus p # ys)"
| node_write: "IsTrue (job_Conditions j) ConditionComplete \<Longrightarrow> n_Name n' = n_Name n \<Longrightarrow> Hostname n' = Hostname n \<Longrightarrow>
     (eligible X plan n' \<Longrightarrow> eligible X plan n) \<Longrightarrow> ys \<in> deletes j \<Longrightarrow> job_writes X plan n j (NodeUpdate n' # ys)"

lemma deletesI [simp, intro]: "[] \<in> deletes j" "[JobDelete (job_Namespace j) (job_Name j) pr] \<in> deletes j"
  by (auto simp: deletes_def)

lemma enqueueOrDelete_writes [simp, intro]: "filter is_write (fst (enqueueOrDelete w j t)) \<in> deletes j"
  by (rule enqueueOrDelete_effects [of w j t]) simp_all

lemma deleteJob_writes [simp, intro]: "filter is_write (fst (deleteJob w j)) \<in> deletes j"
  by (simp add: deleteJob_def)

lemma failed_writes: "job_writes X plan n j (filter is_write (fst (handle_failed X w j plan nodeName)))"
  by (auto simp: handle_failed_def Let_def split_beta split: sum.splits intro: no_write plan_write)

lemma complete_writes:
  assumes "plain_elem (p_Name plan)" "mget (sp_PostCompleteLabels (p_Spec plan)) LabelHostname = None"
    and "IsTrue (job_Conditions j) ConditionComplete"
    and "mget (job_Labels j) (LabelPlanName (p_Name plan)) = Some (st_LatestHash (p_Status plan))"
  shows "job_writes X plan n j (filter is_write (fst (handle_complete X w j plan (p_Name plan) n)))"
proof -
  have h: "Hostname (labelled_node X plan (p_Name plan) planHash m n) = Hostname n" if "n_Labels n = Some m" for planHash m
    using that assms(2) LabelPlanName_distinct(6) [OF assms(1)]
    by (intro Hostname_cong) (simp_all add: labelled_node_def mrange_into_def)
  have u: "Hostname (uncordon plan n) = Hostname n" "eligible X plan (uncordon plan n) \<Longrightarrow> eligible X plan n"
    by (rule Hostname_cong) (simp_all add: eligible_def split: sum.splits)
  have l: "\<not> eligible X plan (labelled_node X plan (p_Name plan) (st_LatestHash (p_Status plan)) m n)" for m
    by (simp add: eligible_def labelled_node_def)
  show ?thesis
  proof (cases "n_Labels n")
    case None
    with u assms(4) show ?thesis
      by (auto simp: handle_complete_def Let_def split_beta complete_labels_def
          split: sum.splits option.splits intro: no_write node_write [OF assms(3)])
  next
    case (Some m)
    with u h [OF Some] l [of m] assms(4) show ?thesis
      by (auto simp: handle_complete_def Let_def split_beta complete_labels_Some labelled_node_def
          split: sum.splits option.splits intro: no_write node_write [OF assms(3)])
  qed
qed

lemma unfinished_writes: "job_writes X plan n j (filter is_write (fst (handle_unfinished w j plan nodeName)))"
  by (auto simp: handle_unfinished_def split_beta intro!: no_write)

lemma OnChange_writes:
  assumes own: "own_job X plan0 n j" "n \<in> set (cl_nodes c)" and same: "same_rollout (cl_plan c) plan0"
    and ok: "rollout_ok X plan0 nodes0" and reads: "reads_from c w"
  shows "job_writes X (cl_plan c) n j (filter is_write (fst (handleJobs_OnChange X ctl w (Some j))))"
proof -
  have pl: "plain_elem (p_Name (cl_plan c))" "mget (sp_PostCompleteLabels (p_Spec (cl_plan c))) LabelHostname = None"
    using ok same by (simp_all add: rollout_ok_def same_rollout_def)
  have get: "plans_Get w (job_Namespace j) (p_Name (cl_plan c)) = Inr (cl_plan c)" "nodes_Cache_Get w (n_Name n) = Inr n"
    "mget (job_Labels j) LabelPlan = Some (p_Name (cl_plan c))" "mget (job_Labels j) LabelNode = Some (n_Name n)"
    "mget (job_Labels j) (LabelPlanName (p_Name (cl_plan c))) = Some (st_LatestHash (p_Status (cl_plan c)))"
    using own same reads by (auto simp: reads_from_def own_job_def job_key_def same_rollout_def)
  have cur: "job_writes X (cl_plan c) n j (filter is_write (fst (handle_current X w j (cl_plan c) (p_Name (cl_plan c)))))"
    by (auto simp: handle_current_def get complete_writes [OF pl _ get(5)] failed_writes unfinished_writes)
  then show ?thesis
    by (auto simp: handleJobs_OnChange_def get split_beta Let_def split: option.splits intro!: no_write)
qed

text \<open>The status of the plan is written for a failed job only.\<close>

lemma enqueueOrDelete_plain: "e \<in> set (fst (enqueueOrDelete w j t)) \<Longrightarrow> e \<noteq> PlanUpdateStatus p"
  by (rule enqueueOrDelete_effects [of w j t]) auto

lemma complete_plain: "e \<in> set (fst (handle_complete X w j plan planName n)) \<Longrightarrow> e \<noteq> PlanUpdateStatus p"
  using enqueueOrDelete_plain [of e w j]
  by (auto simp: handle_complete_def Let_def split_beta split: option.splits sum.splits if_splits)

lemma OnChange_plan_write:
  "PlanUpdateStatus p \<in> set (fst (handleJobs_OnChange X ctl w (Some j))) \<Longrightarrow> IsTrue (job_Conditions j) ConditionFailed"
  using complete_plain
  by (fastforce simp: handleJobs_OnChange_def handle_current_def handle_unfinished_def deleteJob_def Let_def split_beta
      split: option.splits sum.splits if_splits)

lemma subseq_deletes: "subseq us ys \<Longrightarrow> ys \<in> deletes j \<Longrightarrow> us \<in> deletes j"
  by (auto simp: deletes_def dest!: subseq_single)

lemma inv_deletes: "rollout_inv X plan0 nodes0 D c \<Longrightarrow> ys \<in> deletes j \<Longrightarrow> rollout_inv X plan0 nodes0 D (performs merge c ys)"
  using inv_delete by (fastforce simp: deletes_def simp del: perform.simps)

lemma inv_job_event:
  assumes inv: "rollout_inv X plan0 nodes0 D c" and ok: "rollout_ok X plan0 nodes0"
    and j: "j \<in> set (cl_jobs c)" and reads: "reads_from c w"
    and sub: "subseq es' (fst (handleJobs_OnChange X ctl w (Some j)))"
  shows "rollout_inv X plan0 nodes0 D (performs merge c es')"
proof -
  let ?es = "fst (handleJobs_OnChange X ctl w (Some j))"
  have same: "same_rollout (cl_plan c) plan0" and jobs: "distinct (map job_key (cl_jobs c))"
    and len: "int (length (st_Applying (p_Status (cl_plan c)))) \<le> sp_Concurrency (p_Spec plan0)"
    using inv by (simp_all add: rollout_inv_def)
  obtain n where n: "n \<in> set (cl_nodes c)" "own_job X plan0 n j"
    using inv j by (auto simp: rollout_inv_def job_ok_def)
  have step: "rollout_inv X plan0 nodes0 D (performs merge c es')"
    if "filter is_write ?es = x # ys" "ys \<in> deletes j" "rollout_inv X plan0 nodes0 D (perform merge c x)" for x ys
  proof (rule inv_two_writes [where xs = "[x]" and ys = ys, OF _ sub inv])
    show "filter is_write ?es = [x] @ ys" using that(1) by simp
    show "rollout_inv X plan0 nodes0 D (performs merge c us)" if "subseq us [x]" for us
      using subseq_single [OF that] inv \<open>rollout_inv X plan0 nodes0 D (perform merge c x)\<close> by auto
    show "rollout_inv X plan0 nodes0 D (performs merge (performs merge c us) vs)"
      if "subseq vs ys" "rollout_inv X plan0 nodes0 D (performs merge c us)" for us vs
      by (rule inv_deletes [OF that(2) subseq_deletes [OF that(1) \<open>ys \<in> deletes j\<close>]])
  qed
  from OnChange_writes [OF n(2,1) same ok reads, of ctl] show ?thesis
  proof cases
    case no_write
    then show ?thesis
      using inv_deletes [OF inv] subseq_deletes [OF subseq_filter [OF sub]] by (subst performs_writes) blast
  next
    case (plan_write p ys)
    with len show ?thesis by (intro step [OF plan_write(1,4) inv_status [OF inv]]) (auto simp: is_applying_def)
  next
    case (node_write n' ys)
    have "\<not> running i" if "i \<in> set (cl_jobs c)" "own_job X plan0 n i" for i
      using own_job_job [OF jobs that(2) n(2) that(1) j] node_write(2) by (simp add: running_def job_finished_def)
    with node_write same_rollout_cong(1) [OF same, of X] show ?thesis
      by (intro step [OF node_write(1,6) inv_node [OF inv ok n(1)]]) auto
  qed
qed

subsection \<open>The reachable states\<close>

lemma inv_progress:
  assumes "rollout_inv X plan0 nodes0 D c" "cl_jobs c = as @ j # bs" "\<not> job_finished j"
  shows "rollout_inv X plan0 nodes0 D (c\<lparr>cl_jobs := as @ j\<lparr>job_Conditions := cs\<rparr> # bs\<rparr>)"
proof (rule inv_jobs [OF assms(1)])
  show "distinct (map job_key (as @ j\<lparr>job_Conditions := cs\<rparr> # bs))"
    using assms(1,2) by (auto simp: rollout_inv_def job_key_def)
  fix i assume i: "i \<in> set (as @ j\<lparr>job_Conditions := cs\<rparr> # bs)" "i \<notin> set (cl_jobs c)"
  then have eq: "i = j\<lparr>job_Conditions := cs\<rparr>" using assms(2) by auto
  obtain n where n: "n \<in> set (cl_nodes c)" "own_job X plan0 n j" "running j \<longrightarrow> eligible X plan0 n \<and> is_applying (cl_plan c) n"
    using assms(1,2) by (auto simp: rollout_inv_def job_ok_def)
  have "running i \<Longrightarrow> running j" using assms(3) eq by (simp add: running_def)
  moreover have "own_job X plan0 n i" using n(2) eq by (simp add: own_job_def job_key_def)
  ultimately show "job_ok X plan0 c i" using n unfolding job_ok_def by blast
qed

lemma inv_step:
  assumes "rollout_step X env ctl clusterID merge c c'" "rollout_inv X plan0 nodes0 D c"
    and ok: "rollout_ok X plan0 nodes0" "labels_ok X" "merge_ok merge"
  shows "rollout_inv X plan0 nodes0 D c'"
  using assms(1)
proof cases
  case resolving
  then show ?thesis using inv_resolving [OF assms(2)] by simp
next
  case generating
  then show ?thesis using inv_generating [OF assms(2) ok] by simp
next
  case job_event
  then show ?thesis using inv_job_event [OF assms(2) ok(1)] by simp
next
  case job_progress
  then show ?thesis using inv_progress [OF assms(2)] by simp
next
  case restarted
  then show ?thesis using assms(2) by simp
next
  case (job_gone as j bs)
  then show ?thesis using assms(2) by (auto simp: rollout_inv_def job_ok_def)
qed

lemma reachable_inv:
  assumes "reachable X env ctl clusterID merge plan0 nodes0 c"
    and ok: "rollout_ok X plan0 nodes0" "labels_ok X" "merge_ok merge"
  shows "rollout_inv X plan0 nodes0 {} c"
  using assms(1)
proof induction
  case start
  then show ?case using ok(1) by (simp add: rollout_inv_def same_rollout_def rollout_ok_def)
next
  case (step c c')
  then show ?case using inv_step [OF _ _ ok] by blast
qed

text \<open>The running jobs of a state that satisfies the invariant occupy distinct places of the applying list.\<close>

lemma running_bound:
  assumes inv: "rollout_inv X plan0 nodes0 D c" and ok: "rollout_ok X plan0 nodes0"
  shows "length (filter running (cl_jobs c)) \<le> length (st_Applying (p_Status (cl_plan c)))"
proof -
  let ?run = "filter running (cl_jobs c)" and ?on = "\<lambda>j. SOME n. n \<in> set (cl_nodes c) \<and> own_job X plan0 n j"
  have ids: "node_ids (cl_nodes c) = node_ids nodes0" and jobs: "distinct (map job_key (cl_jobs c))"
    using inv by (simp_all add: rollout_inv_def)
  note nodes = rollout_ok_nodes [OF ids ok]
  have on: "?on j \<in> set (cl_nodes c) \<and> own_job X plan0 (?on j) j \<and> is_applying (cl_plan c) (?on j)" if j: "j \<in> set ?run" for j
  proof -
    obtain n where n: "n \<in> set (cl_nodes c)" "own_job X plan0 n j" "is_applying (cl_plan c) n"
      using inv j by (auto simp: rollout_inv_def job_ok_def)
    then have s: "?on j \<in> set (cl_nodes c) \<and> own_job X plan0 (?on j) j"
      by (intro someI [of "\<lambda>n. n \<in> set (cl_nodes c) \<and> own_job X plan0 n j" n]) simp
    with own_job_node [OF nodes _ n(2)] n show ?thesis by blast
  qed
  have "inj_on (\<lambda>j. Hostname (?on j)) (set ?run)"
  proof (rule inj_onI)
    fix j i assume ji: "j \<in> set ?run" "i \<in> set ?run" "Hostname (?on j) = Hostname (?on i)"
    then have "?on j = ?on i"
      using on nodes distinct_map_eq [of Hostname "cl_nodes c"] by (simp add: rollout_ok_def)
    then show "j = i" using own_job_job [OF jobs, of X plan0 "?on j" j i] on [OF ji(1)] on [OF ji(2)] ji by auto
  qed
  then have "card (set ?run) \<le> card (set (st_Applying (p_Status (cl_plan c))))"
    using on by (intro card_inj_on_le [where f = "\<lambda>j. Hostname (?on j)"]) (auto simp: is_applying_def)
  moreover have "distinct ?run" using jobs by (auto simp: distinct_map)
  ultimately show ?thesis
    using card_length [of "st_Applying (p_Status (cl_plan c))"] distinct_card [of ?run] by simp
qed

end
