(* ===== verification/Progress.thy ===== *)
theory Progress
  imports Rollout
begin

text \<open>
  A rollout that nothing disturbs: every write succeeds, every job completes and none is removed from outside, and
  the controller is not restarted. Its steps are steps of the rollout. From a state in which every node that is worked
  on has its running job, or whose resource version has not been applied yet, there are such steps that complete the rollout; that
  every fair run of them does is shown in the theory \<open>Liveness\<close>.
\<close>

subsection \<open>A pass of the generating handler\<close>

text \<open>
  What a plan needs in order to be carried out: the selectors and jobs can be built, the window, if there is one,
  opens at some time, and the delay is one that can pass.
\<close>

definition plan_runs :: "('sel, 'req) extern \<Rightarrow> environ \<Rightarrow> string \<Rightarrow> Plan \<Rightarrow> bool" where
  "plan_runs X env ctl plan \<longleftrightarrow>
     (\<forall>p. same_rollout p plan \<longrightarrow> selectors_ok X p) \<and> (\<forall>n. buildable X env ctl plan n) \<and>
     1 \<le> sp_Concurrency (p_Spec plan) \<and> om_DeletionTimestamp (p_meta plan) = None \<and>
     (\<forall>window. sp_Window (p_Spec plan) = Some window \<longrightarrow> (\<exists>t. TimeWindowSpec_Contains X window t)) \<and>
     int64 (post_delay plan)"

definition third_party_ok :: "('sel, 'req) extern \<Rightarrow> bool" where
  "third_party_ok X \<longleftrightarrow> labels_ok X \<and> status_equality X \<and> controller_selector_ok X"

definition accepting :: status_client where
  "accepting = \<lparr>sc_UpdateStatus = Inr, sc_SetError = (\<lambda>c e s. s), sc_LastUpdated = (\<lambda>c t s. s), sc_timestamp = []\<rparr>"

lemma window_opens:
  assumes "\<forall>window. sp_Window (p_Spec plan) = Some window \<longrightarrow> (\<exists>t. TimeWindowSpec_Contains X window t)"
  obtains t where "\<And>w. pw_now w = t \<Longrightarrow> \<not> must_wait X w plan"
  using assms by (cases "sp_Window (p_Spec plan)") (auto simp: must_wait_def)

text \<open>What the end of a pass leaves; of the conditions only Complete may differ.\<close>

lemma finish_result:
  assumes "finish_generating X w (enter obj) (map Hostname sel) (map f sel) = (jobs, h)"
  shows "ho_err h = None" "jobs = map f (if must_wait X w obj then [] else sel)"
    "st_Applying (ho_status h) = map Hostname (if must_wait X w obj then [] else sel)"
    "st_LatestHash (ho_status h) = st_LatestHash (p_Status obj)" "st_LatestVersion (ho_status h) = st_LatestVersion (p_Status obj)"
    "c \<noteq> PlanComplete \<Longrightarrow> findOrNotCreateCond (st_Conditions (ho_status h)) c = findOrNotCreateCond (p_Conditions obj) c"
    "sel = [] \<Longrightarrow> IsTrue (st_Conditions (ho_status h)) PlanComplete"
    "sel \<noteq> [] \<Longrightarrow> st_Applying (p_Status obj) = map Hostname sel \<Longrightarrow> ho_status h = p_Status obj"
proof -
  have "st_Applying (p_Status obj) = []" if "must_wait X w obj" using that by (simp add: must_wait_def split: option.splits)
  with assms show "ho_err h = None" "jobs = map f (if must_wait X w obj then [] else sel)"
    "st_Applying (ho_status h) = map Hostname (if must_wait X w obj then [] else sel)"
    "st_LatestHash (ho_status h) = st_LatestHash (p_Status obj)" "st_LatestVersion (ho_status h) = st_LatestVersion (p_Status obj)"
    "sel \<noteq> [] \<Longrightarrow> st_Applying (p_Status obj) = map Hostname sel \<Longrightarrow> ho_status h = p_Status obj"
    by (auto simp: finish_generating_def Let_def return_status_def on_obj_frame split: if_splits)
  have "findOrNotCreateCond (st_Conditions (h_status (on_obj (SetError ts PlanComplete r e) (enter obj)))) c =
      findOrNotCreateCond (p_Conditions obj) c" if "c \<noteq> PlanComplete" for ts r e
    using that by (simp add: on_obj_def enter_def Let_def lookup_SetError_other)
  with assms show "c \<noteq> PlanComplete \<Longrightarrow> findOrNotCreateCond (st_Conditions (ho_status h)) c = findOrNotCreateCond (p_Conditions obj) c"
    by (auto simp: finish_generating_def Let_def return_status_def writers_other lookup_SetError_other split: if_splits)
  show "sel = [] \<Longrightarrow> IsTrue (st_Conditions (ho_status h)) PlanComplete"
    using assms finish_done(3) by simp
qed

subsection \<open>Steps that nothing disturbs\<close>

inductive calm_step :: "('sel, 'req) extern \<Rightarrow> environ \<Rightarrow> string \<Rightarrow> apply_jobs \<Rightarrow> cluster \<Rightarrow> cluster \<Rightarrow> bool"
  for X env ctl merge where
  calm_pass: "node_cache (sel_Matches X) (pw_nodeList w) (cl_nodes c) \<Longrightarrow>
     generating_sync X accepting True (\<lambda>_ _. None) (plan_generating_handler X env ctl w) (cl_seen c) (cl_plan c) =
       Some (seen', es, r, err) \<Longrightarrow>
     rv \<notin> cl_versions c \<Longrightarrow> calm_step X env ctl merge c ((stored c rv (performs merge c es))\<lparr>cl_seen := seen'\<rparr>)"
| calm_completion: "cl_jobs c = as @ j # bs \<Longrightarrow> running j \<Longrightarrow>
     calm_step X env ctl merge c (c\<lparr>cl_jobs := as @ j\<lparr>job_Conditions := [finished ConditionComplete t]\<rparr> # bs\<rparr>)"
| calm_job_event: "j \<in> set (cl_jobs c) \<Longrightarrow> reads_from c w \<Longrightarrow> rv \<notin> cl_versions c \<Longrightarrow>
     plans_UpdateStatus w = Inr \<Longrightarrow> nodes_Update w = Inr \<Longrightarrow> jobs_Delete w = (\<lambda>_ _. None) \<Longrightarrow>
     calm_step X env ctl merge c (stored c rv (performs merge c (fst (handleJobs_OnChange X ctl w (Some j)))))"

lemma calm_is_step:
  assumes "calm_step X env ctl merge c c'"
  shows "rollout_step X env ctl clusterID merge c c'"
  using assms
proof cases
  case (calm_pass w seen' es r err rv)
  then show ?thesis
    by (auto intro: generating [where C = accepting and applied = "\<lambda>_ _. None", OF _ _ subseq_order.order_refl])
next
  case (calm_completion as j bs t)
  then show ?thesis by (auto simp: running_def intro: job_progress)
next
  case (calm_job_event j w rv)
  then show ?thesis by (auto intro: job_event [OF _ _ subseq_order.order_refl])
qed

lemma calm_steps: "(calm_step X env ctl merge)\<^sup>*\<^sup>* c c' \<Longrightarrow> (rollout_step X env ctl clusterID merge)\<^sup>*\<^sup>* c c'"
  by (rule rtranclp_mono [THEN predicate2D]) (auto intro: calm_is_step)

text \<open>
  The same steps with clocks that behave: a job completes at some time other than the zero time, the handler reads the clock
  twice within 59 seconds, and not before the completion it looks at. A pass is named by whether the window lets it
  start something, the event of a job by whether the delay since the completion has passed.
\<close>

datatype occurrence = Pass bool | Job_completed | Job_handled Job bool

abbreviation completion_time :: "Job \<Rightarrow> instant" where
  "completion_time j \<equiv> GetLastTransitionTime (job_Conditions j) ConditionComplete"

inductive prompt_step :: "('sel, 'req) extern \<Rightarrow> environ \<Rightarrow> string \<Rightarrow> apply_jobs \<Rightarrow> occurrence \<Rightarrow> cluster \<Rightarrow> cluster \<Rightarrow> bool"
  for X env ctl merge where
  prompt_pass: "node_cache (sel_Matches X) (pw_nodeList w) (cl_nodes c) \<Longrightarrow>
     generating_sync X accepting True (\<lambda>_ _. None) (plan_generating_handler X env ctl w) (cl_seen c) (cl_plan c) =
       Some (seen', es, r, err) \<Longrightarrow>
     rv \<notin> cl_versions c \<Longrightarrow>
     prompt_step X env ctl merge (Pass (\<not> must_wait X w (cl_plan c))) c ((stored c rv (performs merge c es))\<lparr>cl_seen := seen'\<rparr>)"
| prompt_completion: "cl_jobs c = as @ j # bs \<Longrightarrow> running j \<Longrightarrow> t \<noteq> 0 \<Longrightarrow>
     prompt_step X env ctl merge Job_completed c
       (c\<lparr>cl_jobs := as @ j\<lparr>job_Conditions := [finished ConditionComplete t]\<rparr> # bs\<rparr>)"
| prompt_event: "j \<in> set (cl_jobs c) \<Longrightarrow> reads_from c w \<Longrightarrow> rv \<notin> cl_versions c \<Longrightarrow>
     plans_UpdateStatus w = Inr \<Longrightarrow> nodes_Update w = Inr \<Longrightarrow> jobs_Delete w = (\<lambda>_ _. None) \<Longrightarrow>
     now w \<le> now_ttl w \<Longrightarrow> now_ttl w - now w \<le> Minute - Second \<Longrightarrow>
     (IsTrue (job_Conditions j) ConditionComplete \<Longrightarrow> completion_time j \<le> now w) \<Longrightarrow>
     prompt_step X env ctl merge (Job_handled j (post_delay (cl_plan c) \<le> time_Sub (now w) (completion_time j))) c
       (stored c rv (performs merge c (fst (handleJobs_OnChange X ctl w (Some j)))))"

definition prompt :: "('sel, 'req) extern \<Rightarrow> environ \<Rightarrow> string \<Rightarrow> apply_jobs \<Rightarrow> cluster \<Rightarrow> cluster \<Rightarrow> bool" where
  "prompt X env ctl merge c c' \<longleftrightarrow> (\<exists>a. prompt_step X env ctl merge a c c')"

lemma promptI: "prompt_step X env ctl merge a c c' \<Longrightarrow> prompt X env ctl merge c c'"
  by (auto simp: prompt_def)

lemma prompt_is_calm: "prompt_step X env ctl merge a c c' \<Longrightarrow> calm_step X env ctl merge c c'"
  by (erule prompt_step.cases) (auto intro: calm_pass calm_completion calm_job_event)

lemma prompt_steps: "(prompt X env ctl merge)\<^sup>*\<^sup>* c c' \<Longrightarrow> (calm_step X env ctl merge)\<^sup>*\<^sup>* c c'"
  by (rule rtranclp_mono [THEN predicate2D]) (auto simp: prompt_def intro: prompt_is_calm)

subsection \<open>Resource versions\<close>

text \<open>The generating handler applies the jobs of a plan it has not seen in this version.\<close>

definition fresh :: "cluster \<Rightarrow> bool" where
  "fresh c \<longleftrightarrow> isNewResourceVersion True (cl_seen c) (cl_plan c)"

definition versions_ok :: "cluster \<Rightarrow> bool" where
  "versions_ok c \<longleftrightarrow> finite (cl_versions c) \<and> om_ResourceVersion (p_meta (cl_plan c)) \<in> cl_versions c \<and>
     ran (cl_seen c) \<subseteq> cl_versions c"

lemma new_version: "finite (V :: string set) \<Longrightarrow> \<exists>rv. rv \<notin> V"
  by (rule ex_new_if_finite [OF infinite_UNIV_listI])

lemma performs_memory [simp]:
  "cl_seen (performs merge c es) = cl_seen c" "cl_versions (performs merge c es) = cl_versions c"
  "p_meta (cl_plan (performs merge c es)) = p_meta (cl_plan c)"
proof -
  have "cl_seen (performs merge c es) = cl_seen c \<and> cl_versions (performs merge c es) = cl_versions c \<and>
     p_meta (cl_plan (performs merge c es)) = p_meta (cl_plan c)"
  proof (induction es arbitrary: c)
    case (Cons e es)
    then show ?case by (cases e) simp_all
  qed simp
  then show "cl_seen (performs merge c es) = cl_seen c" "cl_versions (performs merge c es) = cl_versions c"
    "p_meta (cl_plan (performs merge c es)) = p_meta (cl_plan c)" by simp_all
qed

lemma versions_ok_stored:
  assumes "versions_ok c" "cl_versions c' = cl_versions c" "p_meta (cl_plan c') = p_meta (cl_plan c)" "ran (cl_seen c') \<subseteq> cl_versions c"
  shows "versions_ok (stored c rv c')"
  using assms by (auto simp: versions_ok_def stored_def with_version_def)

lemma Handle_seen:
  assumes "Handle True applied (plan_generating_handler X env ctl w) seen obj = Some (seen', h')"
  shows "seen' = seen \<or> seen' = seen(plan_key obj \<mapsto> om_ResourceVersion (p_meta obj))"
proof -
  have "plan_key (ho_obj h) = plan_key obj" "p_meta (ho_obj h) = p_meta obj"
    if "plan_generating_handler X env ctl w obj = Some (objs, h)" for objs h
    using generating_frame(1) [OF that] by (simp_all add: plan_key_def)
  then show ?thesis
    using assms by (auto simp: Handle_def storeResourceVersion_def Let_def split: if_splits option.splits)
qed

lemma versions_ok_step:
  assumes "rollout_step X env ctl clusterID merge c c'" "versions_ok c"
  shows "versions_ok c'"
proof -
  have ran: "ran (cl_seen c) \<subseteq> cl_versions c" using assms(2) by (simp add: versions_ok_def)
  show ?thesis using assms(1)
  proof cases
    case (generating w C applied seen' es r err es' rv)
    then obtain h where "Handle True applied (plan_generating_handler X env ctl w) (cl_seen c) (cl_plan c) = Some (seen', h)"
      by (auto simp: generating_sync_def split: option.splits)
    then have "ran seen' \<subseteq> cl_versions c"
      using Handle_seen assms(2) by (fastforce simp: versions_ok_def ran_def split: if_splits)
    moreover have "(stored c rv (performs merge c es'))\<lparr>cl_seen := seen'\<rparr> = stored c rv ((performs merge c es')\<lparr>cl_seen := seen'\<rparr>)"
      by (simp add: stored_def)
    ultimately show ?thesis using generating(1) versions_ok_stored [OF assms(2)] by simp
  next
    case resolving
    then show ?thesis using ran by (simp add: versions_ok_stored [OF assms(2)])
  next
    case job_event
    then show ?thesis using ran by (simp add: versions_ok_stored [OF assms(2)])
  qed (use assms(2) in \<open>auto simp: versions_ok_def\<close>)
qed

lemma reachable_versions: "reachable X env ctl clusterID merge plan0 nodes0 c \<Longrightarrow> versions_ok c"
proof (induction rule: reachable.induct)
  case start
  show ?case by (simp add: versions_ok_def)
next
  case (step c c')
  then show ?case using versions_ok_step by blast
qed

subsection \<open>A pass\<close>

text \<open>The state after a pass that selected \<open>sel\<close> and stored \<open>st\<close>.\<close>

definition passed ::
    "('sel, 'req) extern \<Rightarrow> environ \<Rightarrow> string \<Rightarrow> apply_jobs \<Rightarrow> cluster \<Rightarrow> Node list \<Rightarrow> PlanStatus \<Rightarrow> string \<Rightarrow> cluster" where
  "passed X env ctl merge c sel st rv =
     (stored c rv (c\<lparr>cl_plan := (cl_plan c)\<lparr>p_Status := st\<rparr>,
        cl_jobs := (if fresh c then merge (cl_jobs c) (map (\<lambda>n. the (job_New X env (cl_plan c) n ctl)) sel) else cl_jobs c)\<rparr>))
     \<lparr>cl_seen := (cl_seen c)(plan_key (cl_plan c) \<mapsto> om_ResourceVersion (p_meta (cl_plan c)))\<rparr>"

lemma passed_simps [simp]:
  "cl_nodes (passed X env ctl merge c sel st rv) = cl_nodes c"
  "cl_jobs (passed X env ctl merge c sel st rv) =
     (if fresh c then merge (cl_jobs c) (map (\<lambda>n. the (job_New X env (cl_plan c) n ctl)) sel) else cl_jobs c)"
  "p_Status (cl_plan (passed X env ctl merge c sel st rv)) = st"
  by (simp_all add: passed_def)

lemma fresh_passed:
  "rv \<notin> cl_versions c \<Longrightarrow> versions_ok c \<Longrightarrow> fresh (passed X env ctl merge c sel st rv) \<longleftrightarrow> st \<noteq> p_Status (cl_plan c)"
  by (auto simp: fresh_def passed_def stored_def isNewResourceVersion_def versions_ok_def plan_key_def with_version_def)

text \<open>Every pass over a ready plan is of this kind: it starts the selected nodes, or none while it has to wait for the window.\<close>

lemma pass_outcome:
  assumes X: "third_party_ok X" and run: "plan_runs X env ctl (cl_plan c)" and ready: "plan_ready (cl_plan c)"
    and cache: "node_cache (sel_Matches X) (pw_nodeList w) (cl_nodes c)"
  defines "started \<equiv> (\<lambda>sel. if must_wait X w (cl_plan c) then [] else sel)"
  obtains seen' es r err sel st where
    "generating_sync X accepting True (\<lambda>_ _. None) (plan_generating_handler X env ctl w) (cl_seen c) (cl_plan c) = Some (seen', es, r, err)"
    "SelectConcurrentNodes X (pw_nodeList w) (cl_plan c) = Inr sel"
    "\<forall>rv. (stored c rv (performs merge c es))\<lparr>cl_seen := seen'\<rparr> = passed X env ctl merge c (started sel) st rv"
    "st_Applying st = map Hostname (started sel)" "st_LatestHash st = st_LatestHash (p_Status (cl_plan c))"
    "st_LatestVersion st = st_LatestVersion (p_Status (cl_plan c))"
    "IsTrue (st_Conditions st) PlanSpecValidated" "IsTrue (st_Conditions st) PlanLatestResolved"
    "sel = [] \<longrightarrow> IsTrue (st_Conditions st) PlanComplete"
    "sel \<noteq> [] \<and> st_Applying (p_Status (cl_plan c)) = map Hostname sel \<longrightarrow> st = p_Status (cl_plan c)"
proof -
  let ?p = "cl_plan c" and ?job = "\<lambda>n. the (job_New X env (cl_plan c) n ctl)"
  have "selectors_ok X ?p" using run by (simp add: plan_runs_def)
  then obtain sel where sel: "SelectConcurrentNodes X (pw_nodeList w) ?p = Inr sel" using select_total [OF cache] by blast
  have b: "\<forall>n\<in>set sel. buildable X env ctl ?p n" using run by (simp add: plan_runs_def)
  obtain jobs h where fg: "finish_generating X w (enter ?p) (map Hostname sel) (map ?job sel) = (jobs, h)" by fastforce
  have g: "plan_generating_handler X env ctl w ?p = Some (jobs, h)" using generating_built [OF ready sel b] fg by simp
  note h = finish_result [OF fg, folded started_def]
  have m: "p_meta (ho_obj h) = p_meta ?p" "plan_key (ho_obj h) = plan_key ?p"
    using generating_frame(1) [OF g] by (simp_all add: plan_key_def)
  let ?h' = "if fresh c then h\<lparr>ho_effects := ho_effects h @ [ApplyObjects (ho_obj h) jobs]\<rparr> else h"
  let ?seen = "(cl_seen c)(plan_key ?p \<mapsto> om_ResourceVersion (p_meta ?p))"
  have "\<not> fresh c \<Longrightarrow> ?seen = cl_seen c"
    by (auto simp: fresh_def isNewResourceVersion_def fun_eq_iff split: option.splits)
  moreover have "isNewResourceVersion True (cl_seen c) (ho_obj h) = fresh c"
    by (simp add: fresh_def isNewResourceVersion_def m split: option.split)
  ultimately have hd: "Handle True (\<lambda>_ _. None) (plan_generating_handler X env ctl w) (cl_seen c) ?p = Some (?seen, ?h')"
    using run by (simp add: Handle_def g h(1) plan_runs_def storeResourceVersion_def m)
  obtain es r err where es: "sync X accepting [] (\<lambda>_. ?h') (Some ?p) = (es, r, err)" by (metis prod_cases3)
  have "filter is_write es = (if fresh c then [ApplyObjects (ho_obj h) jobs] else []) @
      (if ho_status h \<noteq> p_Status ?p then [PlanUpdateStatus ((ho_obj h)\<lparr>p_Status := ho_status h\<rparr>)] else [])"
    using X sync_effects [of X accepting "\<lambda>_. ?h'" ?p] generating_effects [OF g] h(1) by (auto simp: third_party_ok_def es)
  then have "performs merge c es = c\<lparr>cl_plan := ?p\<lparr>p_Status := ho_status h\<rparr>,
      cl_jobs := (if fresh c then merge (cl_jobs c) (map ?job (started sel)) else cl_jobs c)\<rparr>"
    by (subst performs_writes) (simp add: h(2) started_def split: if_split)
  then have p: "(stored c rv (performs merge c es))\<lparr>cl_seen := ?seen\<rparr> = passed X env ctl merge c (started sel) (ho_status h) rv" for rv
    by (simp add: passed_def)
  have sy: "generating_sync X accepting True (\<lambda>_ _. None) (plan_generating_handler X env ctl w) (cl_seen c) ?p = Some (?seen, es, r, err)"
    by (simp add: generating_sync_def hd es)
  have "c \<noteq> PlanComplete \<Longrightarrow> IsTrue (st_Conditions (ho_status h)) c = IsTrue (p_Conditions ?p) c" for c
    using reads_cong(1) [OF h(6)] by simp
  then have "IsTrue (st_Conditions (ho_status h)) PlanSpecValidated" "IsTrue (st_Conditions (ho_status h)) PlanLatestResolved"
    using ready by simp_all
  with h sel p sy show ?thesis by (intro that [of ?seen es r err sel "ho_status h"]) (simp_all add: started_def)
qed

lemma pass:
  assumes X: "third_party_ok X" and run: "plan_runs X env ctl (cl_plan c)" and ready: "plan_ready (cl_plan c)"
    and v: "versions_ok c"
  obtains sel st rv where "prompt_step X env ctl merge (Pass True) c (passed X env ctl merge c sel st rv)" "rv \<notin> cl_versions c"
    "SelectConcurrentNodes X (cache_List X (cl_nodes c)) (cl_plan c) = Inr sel"
    "st_Applying st = map Hostname sel" "st_LatestHash st = st_LatestHash (p_Status (cl_plan c))"
    "st_LatestVersion st = st_LatestVersion (p_Status (cl_plan c))" "plan_ready (cl_plan (passed X env ctl merge c sel st rv))"
    "sel = [] \<Longrightarrow> IsTrue (st_Conditions st) PlanComplete"
    "sel \<noteq> [] \<Longrightarrow> st_Applying (p_Status (cl_plan c)) = map Hostname sel \<Longrightarrow> st = p_Status (cl_plan c)"
proof -
  obtain rv where rv: "rv \<notin> cl_versions c" using new_version v by (auto simp: versions_ok_def)
  obtain t where t: "\<And>w. pw_now w = t \<Longrightarrow> \<not> must_wait X w (cl_plan c)"
    using window_opens run unfolding plan_runs_def by blast
  define w where "w = \<lparr>pw_secretGet = undefined, pw_nodeList = cache_List X (cl_nodes c), pw_http = undefined, pw_now = t\<rparr>"
  have cache: "node_cache (sel_Matches X) (pw_nodeList w) (cl_nodes c)" by (simp add: w_def model_cache.node_cache_axioms)
  have nw: "\<not> must_wait X w (cl_plan c)" by (rule t) (simp add: w_def)
  obtain seen' es r err sel st where
    s: "generating_sync X accepting True (\<lambda>_ _. None) (plan_generating_handler X env ctl w) (cl_seen c) (cl_plan c) = Some (seen', es, r, err)"
    and o: "SelectConcurrentNodes X (pw_nodeList w) (cl_plan c) = Inr sel"
    "\<forall>rv. (stored c rv (performs merge c es))\<lparr>cl_seen := seen'\<rparr> = passed X env ctl merge c sel st rv"
    "st_Applying st = map Hostname sel" "st_LatestHash st = st_LatestHash (p_Status (cl_plan c))"
    "st_LatestVersion st = st_LatestVersion (p_Status (cl_plan c))"
    "IsTrue (st_Conditions st) PlanSpecValidated" "IsTrue (st_Conditions st) PlanLatestResolved"
    "sel = [] \<longrightarrow> IsTrue (st_Conditions st) PlanComplete"
    "sel \<noteq> [] \<and> st_Applying (p_Status (cl_plan c)) = map Hostname sel \<longrightarrow> st = p_Status (cl_plan c)"
    by (rule pass_outcome [OF X run ready cache, where merge = merge, unfolded if_not_P [OF nw]])
  from prompt_pass [OF cache s rv, of merge] o nw rv
  show ?thesis by (intro that [of sel st rv]) (simp_all add: w_def)
qed

text \<open>After a pass every selected node has its job, unfinished if the one before was.\<close>

lemma pass_job:
  assumes inv: "rollout_inv X plan0 nodes0 D c" and ok: "rollout_ok X plan0 nodes0" "labels_ok X" "merge_ok merge"
    and run: "plan_runs X env ctl (cl_plan c)"
    and sel: "SelectConcurrentNodes X (cache_List X (cl_nodes c)) (cl_plan c) = Inr sel" "n \<in> set sel"
    and open_jobs: "\<And>i. i \<in> set (cl_jobs c) \<Longrightarrow> own_job X plan0 n i \<Longrightarrow> \<not> job_finished i"
  obtains d j where "job_New X env (cl_plan c) n ctl = Some d" "enforced d j" "\<not> job_finished j" "own_job X plan0 n j"
    "j \<in> set (merge (cl_jobs c) (map (\<lambda>n. the (job_New X env (cl_plan c) n ctl)) sel))"
proof -
  let ?new = "map (\<lambda>n. the (job_New X env (cl_plan c) n ctl)) sel"
  note cache = model_cache.node_cache_axioms [of X "cl_nodes c"]
  have same: "same_rollout (cl_plan c) plan0" and ids: "node_ids (cl_nodes c) = node_ids nodes0"
    and jobs: "distinct (map job_key (cl_jobs c))"
    using inv by (simp_all add: rollout_inv_def)
  note nodes = rollout_ok_nodes [OF ids ok(1)]
  have b: "\<forall>n\<in>set sel. buildable X env ctl (cl_plan c) n" using run by (simp add: plan_runs_def)
  obtain d where d: "job_New X env (cl_plan c) n ctl = Some d" using b sel(2) by (auto simp: buildable_def)
  have pl: "plain_elem (p_Name (cl_plan c))" using ok(1) same by (simp add: rollout_ok_def same_rollout_def)
  have own: "own_job X plan0 n j" if "enforced d j" for j
    using own_job_New [OF d pl that] same_rollout_cong(2) [OF same, of X] by simp
  have n: "n \<in> set (cl_nodes c)" using select_subset [OF ok(2) cache sel] by simp
  have "distinct (map job_key ?new)" by (rule new_keys_distinct [OF inv ok(1,2) cache sel(1) b])
  note m = merge_okD(3) [OF ok(3) jobs this]
  have "d \<in> set ?new" using d sel(2) by force
  from m [OF this] obtain j where j: "j \<in> set (merge (cl_jobs c) ?new)" "enforced d j"
    "\<forall>i\<in>set (cl_jobs c). job_key i = job_key d \<longrightarrow> job_Conditions j = job_Conditions i"
    "job_key d \<notin> job_key ` set (cl_jobs c) \<longrightarrow> job_Conditions j = []" by blast
  have "\<not> job_finished j"
  proof (cases "job_key d \<in> job_key ` set (cl_jobs c)")
    case True
    then obtain i where i: "i \<in> set (cl_jobs c)" "job_key i = job_key d" by force
    then obtain x where x: "x \<in> set (cl_nodes c)" "own_job X plan0 x i" using inv by (auto simp: rollout_inv_def job_ok_def)
    have "job_name_on X plan0 x = job_name_on X plan0 n"
      using x(2) own [OF j(2)] i(2) j(2) by (simp add: own_job_def enforced_def)
    then have "x = n" using nodes distinct_map_eq [of "job_name_on X plan0", OF _ x(1) n] by (simp add: rollout_ok_def)
    then show ?thesis using open_jobs [OF i(1)] x(2) j(3) i by (simp add: job_finished_def)
  next
    case False
    with j(4) show ?thesis by (simp add: job_finished_def IsTrue_def getStatus_def findOrNotCreateCond_def)
  qed
  with d j own show ?thesis by (intro that) auto
qed

subsection \<open>Completing one node\<close>

lemma updated_node_effect: "x \<in> set (updated_nodes es) \<Longrightarrow> NodeUpdate x \<in> set es"
  by (induction es rule: updated_nodes.induct) auto

lemma plan_runs_cong: "same_rollout p q \<Longrightarrow> plan_runs X env ctl q \<Longrightarrow> plan_runs X env ctl p"
  using buildable_cong [of p q X env ctl] by (auto simp: plan_runs_def same_rollout_def post_delay_def)

text \<open>Answers to the job handler in a cluster, at a given time.\<close>

definition world_at :: "instant \<Rightarrow> cluster \<Rightarrow> job_world" where
  "world_at t c = \<lparr>plans_Get = (\<lambda>ns nm. Inr (cl_plan c)), plans_UpdateStatus = Inr,
     nodes_Cache_Get = (\<lambda>nm. case List.find (\<lambda>n. n_Name n = nm) (cl_nodes c) of None \<Rightarrow> Inl (ExtError 404 nm) | Some n \<Rightarrow> Inr n),
     nodes_Update = Inr, jobs_Delete = (\<lambda>ns nm. None), now = t, now_ttl = t\<rparr>"

lemma find_name: "distinct (map n_Name nodes) \<Longrightarrow> n \<in> set nodes \<Longrightarrow> List.find (\<lambda>m. n_Name m = n_Name n) nodes = Some n"
  by (induction nodes) auto

lemma world_at_reads: "distinct (map n_Name (cl_nodes c)) \<Longrightarrow> reads_from c (world_at t c)"
  by (simp add: reads_from_def world_at_def find_name)

lemma handled_completion:
  assumes X: "controller_selector_ok X" and d: "job_New X env plan n0 ctl = Some d" and e: "enforced d j"
    and pl: "plain_elem (p_Name plan)" and same: "same_rollout (cl_plan c) plan"
    and v: "st_LatestVersion (p_Status (cl_plan c)) = st_LatestVersion (p_Status plan)"
    and n: "n \<in> set (cl_nodes c)" "n_Name n = n_Name n0" "n_Labels n = Some m" "distinct (map n_Name (cl_nodes c))"
    and j: "job_Conditions j = [finished ConditionComplete 1]" and delay: "int64 (post_delay plan)"
  shows "NodeUpdate (labelled_node X (cl_plan c) (p_Name plan) (st_LatestHash (p_Status plan)) m n) \<in>
    set (fst (handleJobs_OnChange X ctl (world_at (1 + max 0 (post_delay plan)) c) (Some j)))"
proof -
  let ?w = "world_at (1 + max 0 (post_delay plan)) c"
  have l: "mget (job_Labels j) k = Some v" if "job_labels plan n0 ctl k = Some v" for k v
    using e that job_New_fields(1) [OF d] by (simp add: enforced_def)
  note labels = l [OF job_labels_reserved(1) [OF pl]] l [OF job_labels_reserved(3) [OF pl]] l [OF job_labels_reserved(4) [OF pl]]
    l [OF job_labels_reserved(5) [OF pl]] l [OF job_labels_reserved(6) [OF pl]]
  have "current_job X ctl ?w j (cl_plan c) (p_Name plan) (n_Name n0) n"
    using labels v n find_name [OF n(4,1)]
    by (cases "job_Labels j") (simp_all add: current_job_def controller_selector [OF X] world_at_def)
  note run = current_job_OnChange [OF this]
  have "post_delay (cl_plan c) \<le> time_Sub (now ?w) 1"
    using same delay by (auto simp: same_rollout_def post_delay_def world_at_def time_Sub_def int64_iff)
  from handle_complete_labels(1) [OF _ _ labels(5) this n(3), where X = X]
  have "updated_nodes (fst (handle_complete X ?w j (cl_plan c) (p_Name plan) n)) =
      [labelled_node X (cl_plan c) (p_Name plan) (st_LatestHash (p_Status plan)) m n]"
    by (simp add: j finished_reads IsZero_def)
  then have "NodeUpdate (labelled_node X (cl_plan c) (p_Name plan) (st_LatestHash (p_Status plan)) m n) \<in>
      set (fst (handle_complete X ?w j (cl_plan c) (p_Name plan) n))"
    by (intro updated_node_effect) simp
  then show ?thesis by (simp add: run j finished_reads conditions_distinct split_beta)
qed

lemma filter_map_less:
  assumes "x \<in> set xs" "P x" "\<not> P (f x)" "\<And>y. y \<in> set xs \<Longrightarrow> P (f y) \<Longrightarrow> P y"
  shows "length (filter P (map f xs)) < length (filter P xs)"
proof -
  have le: "length (filter P (map f ys)) \<le> length (filter P ys)" if "set ys \<subseteq> set xs" for ys
    using that assms(4) by (induction ys) auto
  obtain as bs where xs: "xs = as @ x # bs" using assms(1) by (meson split_list)
  have "length (filter P (map f as)) \<le> length (filter P as)" "length (filter P (map f bs)) \<le> length (filter P bs)"
    using le [of as] le [of bs] xs by auto
  with assms(2,3) show ?thesis by (simp add: xs)
qed

subsection \<open>States that nothing has disturbed\<close>

text \<open>
  The node has a running job that was generated for this version; and a state in which the jobs of the nodes that
  need the version are unfinished and, once the resource version has been applied, those that are worked on run.
\<close>

definition started :: "('sel, 'req) extern \<Rightarrow> environ \<Rightarrow> string \<Rightarrow> Plan \<Rightarrow> cluster \<Rightarrow> Node \<Rightarrow> bool" where
  "started X env ctl plan0 c n \<longleftrightarrow> (\<exists>j\<in>set (cl_jobs c). running j \<and> own_job X plan0 n j \<and>
     (\<exists>p d. same_rollout p plan0 \<and> st_LatestVersion (p_Status (cl_plan c)) = st_LatestVersion (p_Status p) \<and>
        job_New X env p n ctl = Some d \<and> enforced d j))"

definition undisturbed :: "('sel, 'req) extern \<Rightarrow> environ \<Rightarrow> string \<Rightarrow> Plan \<Rightarrow> cluster \<Rightarrow> bool" where
  "undisturbed X env ctl plan0 c \<longleftrightarrow>
     (\<forall>n\<in>set (cl_nodes c). eligible X plan0 n \<longrightarrow> (\<forall>j\<in>set (cl_jobs c). own_job X plan0 n j \<longrightarrow> \<not> job_finished j)) \<and>
     (fresh c \<or> (\<forall>n\<in>set (cl_nodes c). eligible X plan0 n \<and> is_applying (cl_plan c) n \<longrightarrow> started X env ctl plan0 c n))"

lemma started_jobs:
  "started X env ctl plan0 c n \<Longrightarrow>
     (\<And>j. j \<in> set (cl_jobs c) \<Longrightarrow> own_job X plan0 n j \<Longrightarrow> running j \<Longrightarrow> j \<in> set (cl_jobs c')) \<Longrightarrow>
     st_LatestVersion (p_Status (cl_plan c')) = st_LatestVersion (p_Status (cl_plan c)) \<Longrightarrow> started X env ctl plan0 c' n"
  unfolding started_def by metis

lemma pass_started:
  assumes inv: "rollout_inv X plan0 nodes0 D c" and ok: "rollout_ok X plan0 nodes0" "labels_ok X" "merge_ok merge"
    and run: "plan_runs X env ctl (cl_plan c)" and u: "undisturbed X env ctl plan0 c" and "fresh c"
    and sel: "SelectConcurrentNodes X (cache_List X (cl_nodes c)) (cl_plan c) = Inr sel" "n \<in> set sel"
    and "is_applying (cl_plan c) n" "st_LatestVersion st = st_LatestVersion (p_Status (cl_plan c))"
  shows "started X env ctl plan0 (passed X env ctl merge c sel st rv) n"
proof -
  have same: "same_rollout (cl_plan c) plan0" using inv by (simp add: rollout_inv_def)
  have n: "n \<in> set (cl_nodes c)" "eligible X plan0 n"
    using select_subset [OF ok(2) model_cache.node_cache_axioms sel] same_rollout_cong(1) [OF same, of X] by simp_all
  obtain d j where j: "job_New X env (cl_plan c) n ctl = Some d" "enforced d j" "\<not> job_finished j" "own_job X plan0 n j"
    "j \<in> set (merge (cl_jobs c) (map (\<lambda>n. the (job_New X env (cl_plan c) n ctl)) sel))"
    by (rule pass_job [OF inv ok run sel]) (use u n in \<open>auto simp: undisturbed_def\<close>)
  moreover have "running j"
    using j(2,3) job_New_fields(5) [OF j(1)] assms(10) by (auto simp: running_def enforced_def job_parallelism_def is_applying_def)
  ultimately show ?thesis using \<open>fresh c\<close> same assms(11) unfolding started_def by auto
qed

lemma pass_undisturbed:
  assumes inv: "rollout_inv X plan0 nodes0 D c" and ok: "rollout_ok X plan0 nodes0" "labels_ok X" "merge_ok merge"
    and run: "plan_runs X env ctl (cl_plan c)" and u: "undisturbed X env ctl plan0 c" and v: "versions_ok c" "rv \<notin> cl_versions c"
    and inv': "rollout_inv X plan0 nodes0 D (passed X env ctl merge c sel st rv)"
    and sel: "SelectConcurrentNodes X (cache_List X (cl_nodes c)) (cl_plan c) = Inr sel"
    and st: "st_Applying st = map Hostname sel" "st_LatestVersion st = st_LatestVersion (p_Status (cl_plan c))"
  shows "undisturbed X env ctl plan0 (passed X env ctl merge c sel st rv)"
proof -
  let ?c = "passed X env ctl merge c sel st rv" and ?new = "map (\<lambda>n. the (job_New X env (cl_plan c) n ctl)) sel"
  note cache = model_cache.node_cache_axioms [of X "cl_nodes c"]
  have same: "same_rollout (cl_plan c) plan0" and ids: "node_ids (cl_nodes c) = node_ids nodes0"
    and jobs: "distinct (map job_key (cl_jobs c))"
    using inv by (simp_all add: rollout_inv_def)
  note nodes = rollout_ok_nodes [OF ids ok(1)]
  have pl: "plain_elem (p_Name (cl_plan c))" using ok(1) same by (simp add: rollout_ok_def same_rollout_def)
  have b: "\<forall>n\<in>set sel. buildable X env ctl (cl_plan c) n" using run by (simp add: plan_runs_def)
  have open_jobs: "\<not> job_finished j" if n: "n \<in> set (cl_nodes c)" "eligible X plan0 n" and j: "own_job X plan0 n j" "j \<in> set (cl_jobs ?c)" for n j
  proof (cases "j \<in> set (cl_jobs c)")
    case True
    then show ?thesis using u n j by (auto simp: undisturbed_def)
  next
    case False
    with j(2) have f: "fresh c" by (auto split: if_splits)
    have "distinct (map job_key ?new)" by (rule new_keys_distinct [OF inv ok(1,2) cache sel b])
    from merge_okD(2) [OF ok(3) jobs this, of j] obtain m where m: "m \<in> set sel" "enforced (the (job_New X env (cl_plan c) m ctl)) j"
      using j(2) False f by auto
    then obtain d where d: "job_New X env (cl_plan c) m ctl = Some d" "enforced d j" using b by (auto simp: buildable_def)
    have "own_job X plan0 m j" using own_job_New [OF d(1) pl d(2)] same_rollout_cong(2) [OF same, of X] by simp
    moreover have "m \<in> set (cl_nodes c)" using select_subset [OF ok(2) cache sel m(1)] by simp
    ultimately have "m = n" using own_job_node [OF nodes _ j(1)] n(1) by blast
    with m have ns: "n \<in> set sel" by simp
    have open_old: "\<not> job_finished i" if "i \<in> set (cl_jobs c)" "own_job X plan0 n i" for i
      using u n that by (auto simp: undisturbed_def)
    obtain d' i where i: "\<not> job_finished i" "own_job X plan0 n i" "i \<in> set (merge (cl_jobs c) ?new)"
      by (rule pass_job [OF inv ok run sel ns open_old])
    then have "i = j" using own_job_job [OF _ i(2) j(1), of "cl_jobs ?c"] inv' j(2) f by (auto simp: rollout_inv_def)
    with i(1) show ?thesis by simp
  qed
  have "fresh ?c \<or> (\<forall>n\<in>set (cl_nodes c). eligible X plan0 n \<and> is_applying (cl_plan ?c) n \<longrightarrow> started X env ctl plan0 ?c n)"
  proof (cases "st = p_Status (cl_plan c)")
    case True
    have "started X env ctl plan0 ?c n" if n: "n \<in> set (cl_nodes c)" "eligible X plan0 n" "is_applying (cl_plan ?c) n" for n
    proof -
      have ap: "is_applying (cl_plan c) n" using n(3) True by (simp add: is_applying_def)
      have ns: "n \<in> set sel"
        using select_keeps_held [OF ok(2) cache sel n(1) _ ap] n(2) same_rollout_cong(1) [OF same, of X] by simp
      show ?thesis
      proof (cases "fresh c")
        case True
        then show ?thesis by (rule pass_started [OF inv ok run u _ sel ns ap st(2)])
      next
        case False
        then have "started X env ctl plan0 c n" using u n ap by (auto simp: undisturbed_def)
        then show ?thesis by (rule started_jobs) (use False st(2) in auto)
      qed
    qed
    then show ?thesis by blast
  next
    case False
    then show ?thesis using fresh_passed [OF v(2,1)] by blast
  qed
  with open_jobs show ?thesis by (simp add: undisturbed_def)
qed

subsection \<open>The rollout completes\<close>

lemma calm_inv:
  assumes "(calm_step X env ctl merge)\<^sup>*\<^sup>* c c'" "rollout_inv X plan0 nodes0 D c" "versions_ok c"
    and ok: "rollout_ok X plan0 nodes0" "labels_ok X" "merge_ok merge"
  shows "rollout_inv X plan0 nodes0 D c'" "versions_ok c'"
  using assms(1-3)
proof (induction rule: rtranclp_induct)
  case (step c1 c2)
  have r: "rollout_step X env ctl [] merge c1 c2" by (rule calm_is_step [OF step.hyps(2)])
  {
    case 1
    then show ?case using inv_step [OF r _ ok] step.IH by blast
  next
    case 2
    then show ?case using versions_ok_step [OF r] step.IH by blast
  }
qed simp_all

lemmas prompt_inv = calm_inv [OF prompt_steps]

text \<open>It stays undisturbed when a node no longer needs the version and its job goes.\<close>

lemma undisturbed_without:
  assumes inv: "rollout_inv X plan0 nodes0 D c" and ok: "rollout_ok X plan0 nodes0" and u: "undisturbed X env ctl plan0 c"
    and n: "n \<in> set (cl_nodes c)" "own_job X plan0 n j"
    and left: "\<And>x. x \<in> set nodes' \<Longrightarrow> eligible X plan0 x \<Longrightarrow> x \<in> set (cl_nodes c) \<and> x \<noteq> n"
    and js: "\<And>i. i \<in> set js \<Longrightarrow> i \<in> set (cl_jobs c) \<or> own_job X plan0 n i"
    and keep: "\<And>i. i \<in> set (cl_jobs c) \<Longrightarrow> i \<noteq> j \<Longrightarrow> i \<in> set js"
  shows "undisturbed X env ctl plan0 (c\<lparr>cl_nodes := nodes', cl_jobs := js\<rparr>)" (is "undisturbed X env ctl plan0 ?c'")
  unfolding undisturbed_def
proof (intro conjI ballI impI)
  have ids: "node_ids (cl_nodes c) = node_ids nodes0" using inv by (simp add: rollout_inv_def)
  have other: "\<not> own_job X plan0 n i" if "own_job X plan0 x i" "x \<in> set (cl_nodes c)" "x \<noteq> n" for x i
    using own_job_node [OF rollout_ok_nodes [OF ids ok] that(1) _ that(2) n(1)] that(3) by blast
  {
    fix x i assume x: "x \<in> set (cl_nodes ?c')" "eligible X plan0 x" and i: "i \<in> set (cl_jobs ?c')" "own_job X plan0 x i"
    have x': "x \<in> set (cl_nodes c)" "x \<noteq> n" using left [of x] x by simp_all
    then have "i \<in> set (cl_jobs c)" using js [of i] i other [OF i(2) x'] by auto
    then show "\<not> job_finished i" using u x x' i(2) by (auto simp: undisturbed_def)
  }
  have "started X env ctl plan0 ?c' x"
    if "\<not> fresh c" and x: "x \<in> set (cl_nodes ?c')" "eligible X plan0 x" "is_applying (cl_plan ?c') x" for x
  proof (rule started_jobs)
    have x': "x \<in> set (cl_nodes c)" "x \<noteq> n" using left [of x] x by simp_all
    with u x that(1) show "started X env ctl plan0 c x" by (auto simp: undisturbed_def)
    show "i \<in> set (cl_jobs ?c')" if "i \<in> set (cl_jobs c)" "own_job X plan0 x i" for i
      using keep [OF that(1)] other [OF that(2) x'] n(2) by auto
  qed simp
  then show "fresh ?c' \<or> (\<forall>x\<in>set (cl_nodes ?c'). eligible X plan0 x \<and> is_applying (cl_plan ?c') x \<longrightarrow> started X env ctl plan0 ?c' x)"
    by (cases "fresh c") (auto simp: fresh_def)
qed

lemma job_writes_node: "job_writes X plan n j es \<Longrightarrow> NodeUpdate l \<in> set es \<Longrightarrow> \<exists>ys\<in>deletes j. es = NodeUpdate l # ys"
  by (erule job_writes.cases) (auto simp: deletes_def)

lemma performs_deletes:
  assumes "ys \<in> deletes j"
  obtains js where "performs merge c ys = c\<lparr>cl_jobs := js\<rparr>" "js = cl_jobs c \<or> js = filter (\<lambda>i. job_key i \<noteq> job_key j) (cl_jobs c)"
proof (cases "ys = []")
  case False
  with assms obtain pr where "ys = [JobDelete (job_Namespace j) (job_Name j) pr]" by (auto simp: deletes_def)
  then show ?thesis by (intro that [of "filter (\<lambda>i. job_key i \<noteq> job_key j) (cl_jobs c)"]) (simp_all add: job_key_def)
qed (simp add: that [of "cl_jobs c"])

text \<open>The job of a node completes and its event is handled after the delay: one eligible node less.\<close>

lemma finish_node:
  assumes X: "controller_selector_ok X" and ok: "rollout_ok X plan0 nodes0" and run: "plan_runs X env ctl plan0"
    and inv: "rollout_inv X plan0 nodes0 D c" and v: "versions_ok c" and u: "undisturbed X env ctl plan0 c"
    and n: "n \<in> set (cl_nodes c)" "eligible X plan0 n" "started X env ctl plan0 c n"
  obtains c' where "(prompt X env ctl merge)\<^sup>*\<^sup>* c c'" "cl_plan c' = cl_plan c" "undisturbed X env ctl plan0 c'"
    "length (filter (eligible X plan0) (cl_nodes c')) < length (filter (eligible X plan0) (cl_nodes c))"
proof -
  let ?step = "prompt X env ctl merge"
  obtain j p d where j: "j \<in> set (cl_jobs c)" "running j" "own_job X plan0 n j"
    and p: "same_rollout p plan0" "st_LatestVersion (p_Status (cl_plan c)) = st_LatestVersion (p_Status p)"
    and d: "job_New X env p n ctl = Some d" "enforced d j"
    using n(3) unfolding started_def by blast
  let ?j = "j\<lparr>job_Conditions := [finished ConditionComplete 1]\<rparr>"
  obtain as bs where jobs: "cl_jobs c = as @ j # bs" using j(1) by (meson split_list)
  let ?c = "c\<lparr>cl_jobs := as @ ?j # bs\<rparr>"
  have s1: "?step c ?c" by (rule promptI, rule prompt_completion [OF jobs j(2)]) simp
  have same: "same_rollout (cl_plan c) plan0" and ids: "node_ids (cl_nodes c) = node_ids nodes0" and keys: "distinct (map job_key (cl_jobs c))"
    using inv by (simp_all add: rollout_inv_def)
  note nodes = rollout_ok_nodes [OF ids ok]
  obtain m where m: "n_Labels n = Some m" using n(2) by (cases "n_Labels n") (auto simp: eligible_def)
  let ?l = "labelled_node X (cl_plan c) (p_Name p) (st_LatestHash (p_Status p)) m n"
  let ?w = "world_at (1 + max 0 (post_delay p)) ?c" let ?es = "fst (handleJobs_OnChange X ctl ?w (Some ?j))"
  have cp: "same_rollout (cl_plan ?c) p" "p_Name p = p_Name plan0" "st_LatestHash (p_Status p) = st_LatestHash (p_Status plan0)"
    "post_delay p = post_delay plan0"
    using same p(1) by (simp_all add: same_rollout_def post_delay_def)
  have pd: "int64 (post_delay p)" "plain_elem (p_Name p)"
    using run nodes by (simp_all only: cp(2,4) plan_runs_def rollout_ok_def)
  have e: "enforced d ?j" using d(2) by (simp add: enforced_def job_key_def)
  have dn: "distinct (map n_Name (cl_nodes ?c))" using nodes by (simp add: rollout_ok_def)
  have reads: "reads_from ?c ?w" by (rule world_at_reads [OF dn])
  have pc: "cl_plan ?c = cl_plan c" and jin: "?j \<in> set (cl_jobs ?c)" by auto
  have "NodeUpdate ?l \<in> set ?es"
    using handled_completion [OF X d(1) e pd(2) cp(1) _ _ refl m dn _ pd(1)] p(2) n(1) unfolding pc by simp
  then have upd: "NodeUpdate ?l \<in> set (filter is_write ?es)" by simp
  have own: "own_job X plan0 n ?j" using j(3) by (simp add: own_job_def job_key_def)
  have "n \<in> set (cl_nodes ?c)" "same_rollout (cl_plan ?c) plan0" using n(1) same by simp_all
  from OnChange_writes [OF own this ok reads, of ctl]
  obtain ys where ys: "filter is_write ?es = NodeUpdate ?l # ys" "ys \<in> deletes ?j"
    using job_writes_node [OF _ upd] by blast
  let ?f = "\<lambda>x. if n_Name x = n_Name ?l then ?l else x"
  obtain js where c': "performs merge ?c ?es = ?c\<lparr>cl_nodes := map ?f (cl_nodes c), cl_jobs := js\<rparr>"
    and js: "js = cl_jobs ?c \<or> js = filter (\<lambda>i. job_key i \<noteq> job_key j) (cl_jobs ?c)"
  proof -
    let ?d = "perform merge ?c (NodeUpdate ?l)"
    obtain js where js: "performs merge ?d ys = ?d\<lparr>cl_jobs := js\<rparr>"
      "js = cl_jobs ?d \<or> js = filter (\<lambda>i. job_key i \<noteq> job_key ?j) (cl_jobs ?d)"
      by (rule performs_deletes [OF ys(2)])
    have "performs merge ?c ?es = performs merge ?d ys" by (subst performs_writes) (simp only: ys(1) foldl.simps)
    with js show ?thesis by (intro that [of js]) (simp_all add: job_key_def)
  qed
  let ?c' = "?c\<lparr>cl_nodes := map ?f (cl_nodes c), cl_jobs := js\<rparr>"
  obtain rv where rv: "rv \<notin> cl_versions ?c" using new_version v by (auto simp: versions_ok_def)
  have s2: "?step ?c ?c'"
    using promptI [OF prompt_event [OF jin reads rv, of X env ctl merge]] c'
    by (simp add: world_at_def stored_def finished_reads IsZero_def)
  have nl: "n_Name ?l = n_Name n" by (simp add: labelled_node_def)
  have el: "\<not> eligible X plan0 ?l" by (simp add: eligible_def labelled_node_def cp)
  have less: "length (filter (eligible X plan0) (map ?f (cl_nodes c))) < length (filter (eligible X plan0) (cl_nodes c))"
  proof (rule filter_map_less [where x = n, OF n(1)])
    show "eligible X plan0 n" by (rule n(2))
    show "\<not> eligible X plan0 (?f n)" using el unfolding nl by simp
    show "eligible X plan0 y" if "eligible X plan0 (?f y)" for y
      using that el by (cases "n_Name y = n_Name ?l") simp_all
  qed
  have "undisturbed X env ctl plan0 (c\<lparr>cl_nodes := map ?f (cl_nodes c), cl_jobs := js\<rparr>)"
  proof (rule undisturbed_without [OF inv ok u n(1) j(3)])
    show "x \<in> set (cl_nodes c) \<and> x \<noteq> n" if "x \<in> set (map ?f (cl_nodes c))" "eligible X plan0 x" for x
      using that el nl by (auto split: if_splits)
    show "i \<in> set (cl_jobs c) \<or> own_job X plan0 n i" if "i \<in> set js" for i
      using js that own jobs by (auto split: if_splits)
    show "i \<in> set js" if "i \<in> set (cl_jobs c)" "i \<noteq> j" for i
    proof -
      have "job_key i \<noteq> job_key j" using distinct_map_eq [OF keys that(1) j(1)] that(2) by blast
      with js that jobs show ?thesis by auto
    qed
  qed
  moreover have "?step\<^sup>*\<^sup>* c ?c'" using s1 s2 by (meson r_into_rtranclp rtranclp.rtrancl_into_rtrancl)
  ultimately show ?thesis using less by (intro that [of ?c']) simp_all
qed

text \<open>Two passes start a job on some eligible node.\<close>

lemma start_node:
  assumes X: "third_party_ok X" and ok: "rollout_ok X plan0 nodes0" "merge_ok merge" and run: "plan_runs X env ctl plan0"
    and inv: "rollout_inv X plan0 nodes0 D c" and v: "versions_ok c" and u: "undisturbed X env ctl plan0 c"
    and ready: "plan_ready (cl_plan c)" and some: "\<exists>n\<in>set (cl_nodes c). eligible X plan0 n"
  obtains c' n where "(prompt X env ctl merge)\<^sup>*\<^sup>* c c'" "plan_ready (cl_plan c')" "cl_nodes c' = cl_nodes c"
    "undisturbed X env ctl plan0 c'" "n \<in> set (cl_nodes c)" "eligible X plan0 n" "started X env ctl plan0 c' n"
proof -
  let ?step = "prompt X env ctl merge"
  have L: "labels_ok X" using X by (simp add: third_party_ok_def)
  note cache = model_cache.node_cache_axioms [of X] and inv_steps = prompt_inv [OF r_into_rtranclp _ _ ok(1) L ok(2)]
  have run': "plan_runs X env ctl (cl_plan c')" if "rollout_inv X plan0 nodes0 D c'" for c'
    using that plan_runs_cong [OF _ run] by (auto simp: rollout_inv_def)
  have same: "same_rollout (cl_plan c) plan0" using inv by (simp add: rollout_inv_def)
  obtain sel st rv where p: "prompt_step X env ctl merge (Pass True) c (passed X env ctl merge c sel st rv)" "rv \<notin> cl_versions c"
    "SelectConcurrentNodes X (cache_List X (cl_nodes c)) (cl_plan c) = Inr sel"
    "st_Applying st = map Hostname sel" "st_LatestVersion st = st_LatestVersion (p_Status (cl_plan c))"
    "plan_ready (cl_plan (passed X env ctl merge c sel st rv))"
    using pass [OF X run' [OF inv] ready v] by metis
  let ?c1 = "passed X env ctl merge c sel st rv"
  note inv1 = inv_steps [OF promptI [OF p(1)] inv v]
  have u1: "undisturbed X env ctl plan0 ?c1"
    by (rule pass_undisturbed [OF inv ok(1) L ok(2) run' [OF inv] u v p(2) inv1(1) p(3,4,5)])
  have "0 < length (filter (eligible X (cl_plan c)) (cl_nodes c))"
    using some same_rollout_cong(1) [OF same, of X] by (simp add: filter_empty_conv)
  moreover have "1 \<le> sp_Concurrency (p_Spec (cl_plan c))" using run same by (simp add: plan_runs_def same_rollout_def)
  ultimately have "0 < int (length sel)" using select_length [OF L cache p(3)] by linarith
  then obtain n where n: "n \<in> set sel" by (cases sel) auto
  have nn: "n \<in> set (cl_nodes c)" "eligible X plan0 n"
    using select_subset [OF L cache p(3) n] same_rollout_cong(1) [OF same, of X] by simp_all
  have ap: "is_applying (cl_plan ?c1) n" using p(4) n by (simp add: is_applying_def)
  show ?thesis
  proof (cases "fresh ?c1")
    case False
    then have "started X env ctl plan0 ?c1 n" using u1 nn ap by (auto simp: undisturbed_def)
    with p(2-) promptI [OF p(1)] u1 nn show ?thesis by (intro that [of ?c1 n]) auto
  next
    case True
    obtain sel2 st2 rv2 where q: "prompt_step X env ctl merge (Pass True) ?c1 (passed X env ctl merge ?c1 sel2 st2 rv2)" "rv2 \<notin> cl_versions ?c1"
      "SelectConcurrentNodes X (cache_List X (cl_nodes ?c1)) (cl_plan ?c1) = Inr sel2"
      "st_Applying st2 = map Hostname sel2" "st_LatestVersion st2 = st_LatestVersion (p_Status (cl_plan ?c1))"
      "plan_ready (cl_plan (passed X env ctl merge ?c1 sel2 st2 rv2))"
      using pass [OF X run' [OF inv1(1)] p(6) inv1(2)] by metis
    let ?c2 = "passed X env ctl merge ?c1 sel2 st2 rv2"
    have same1: "same_rollout (cl_plan ?c1) plan0" using inv1(1) by (simp only: rollout_inv_def)
    have n2: "n \<in> set sel2"
      using select_keeps_held [OF L cache q(3) _ _ ap] nn same_rollout_cong(1) [OF same1, of X] by simp
    have "started X env ctl plan0 ?c2 n"
      by (rule pass_started [OF inv1(1) ok(1) L ok(2) run' [OF inv1(1)] u1 True q(3) n2 ap q(5)])
    moreover have "undisturbed X env ctl plan0 ?c2"
      by (rule pass_undisturbed [OF inv1(1) ok(1) L ok(2) run' [OF inv1(1)] u1 inv1(2) q(2)
          inv_steps(1) [OF promptI [OF q(1)] inv1] q(3,4,5)])
    moreover have "?step\<^sup>*\<^sup>* c ?c2" using promptI [OF p(1)] promptI [OF q(1)] by (meson r_into_rtranclp rtranclp.rtrancl_into_rtrancl)
    ultimately show ?thesis using q(6) nn by (intro that [of ?c2 n]) auto
  qed
qed

lemma prompt_completes:
  assumes X: "third_party_ok X" and ok: "rollout_ok X plan0 nodes0" "merge_ok merge" and run: "plan_runs X env ctl plan0"
    and "rollout_inv X plan0 nodes0 D c" "versions_ok c" "undisturbed X env ctl plan0 c" "plan_ready (cl_plan c)"
  shows "\<exists>c'. (prompt X env ctl merge)\<^sup>*\<^sup>* c c' \<and> (\<forall>n\<in>set (cl_nodes c'). \<not> eligible X plan0 n) \<and>
     st_Applying (p_Status (cl_plan c')) = [] \<and> IsTrue (p_Conditions (cl_plan c')) PlanComplete"
  using assms(5-8)
proof (induction "length (filter (eligible X plan0) (cl_nodes c))" arbitrary: c rule: less_induct)
  case less
  let ?step = "prompt X env ctl merge"
  have L: "labels_ok X" "controller_selector_ok X" using X by (simp_all add: third_party_ok_def)
  note inv_steps = prompt_inv [OF _ _ _ ok(1) L(1) ok(2)]
  show ?case
  proof (cases "\<exists>n\<in>set (cl_nodes c). eligible X plan0 n")
    case True
    obtain c1 n where c1: "?step\<^sup>*\<^sup>* c c1" "plan_ready (cl_plan c1)" "cl_nodes c1 = cl_nodes c" "undisturbed X env ctl plan0 c1"
      and n: "n \<in> set (cl_nodes c)" "eligible X plan0 n" "started X env ctl plan0 c1 n"
      by (rule start_node [OF X ok run less.prems True])
    note i1 = inv_steps [OF c1(1) less.prems(1,2)]
    obtain c2 where c2: "?step\<^sup>*\<^sup>* c1 c2" "cl_plan c2 = cl_plan c1" "undisturbed X env ctl plan0 c2"
      "length (filter (eligible X plan0) (cl_nodes c2)) < length (filter (eligible X plan0) (cl_nodes c1))"
      by (rule finish_node [OF L(2) ok(1) run i1 c1(4) _ n(2,3)]) (use n(1) c1(3) in auto)
    note i2 = inv_steps [OF c2(1) i1]
    have "plan_ready (cl_plan c2)" using c1(2) c2(2) by simp
    from less.hyps [OF c2(4) [unfolded c1(3)] i2 c2(3) this] show ?thesis
      using rtranclp_trans [OF c1(1)] rtranclp_trans [OF c2(1)] by metis
  next
    case False
    have same: "same_rollout (cl_plan c) plan0" using less.prems(1) by (simp add: rollout_inv_def)
    obtain sel st rv where p: "prompt_step X env ctl merge (Pass True) c (passed X env ctl merge c sel st rv)"
      "SelectConcurrentNodes X (cache_List X (cl_nodes c)) (cl_plan c) = Inr sel"
      "st_Applying st = map Hostname sel" "sel = [] \<Longrightarrow> IsTrue (st_Conditions st) PlanComplete"
      using pass [OF X plan_runs_cong [OF same run] less.prems(4,2)] by metis
    have "sel = []"
      using select_subset [OF L(1) model_cache.node_cache_axioms p(2)] False same_rollout_cong(1) [OF same, of X] by (cases sel) auto
    with p False show ?thesis
      by (intro exI [of _ "passed X env ctl merge c sel st rv"] conjI r_into_rtranclp [where r = ?step, OF promptI [OF p(1)]]) auto
  qed
qed

lemma calm_completes:
  assumes "third_party_ok X" "rollout_ok X plan0 nodes0" "merge_ok merge" "plan_runs X env ctl plan0"
    and "rollout_inv X plan0 nodes0 D c" "versions_ok c" "undisturbed X env ctl plan0 c" "plan_ready (cl_plan c)"
  shows "\<exists>c'. (calm_step X env ctl merge)\<^sup>*\<^sup>* c c' \<and> (\<forall>n\<in>set (cl_nodes c'). \<not> eligible X plan0 n) \<and>
     st_Applying (p_Status (cl_plan c')) = [] \<and> IsTrue (p_Conditions (cl_plan c')) PlanComplete"
  using prompt_completes [OF assms] prompt_steps by blast

text \<open>After a restart, and with the finished jobs out of the way, nothing is disturbed.\<close>

lemma clear_finished:
  "(rollout_step X env ctl clusterID merge)\<^sup>*\<^sup>* (c\<lparr>cl_jobs := as @ bs\<rparr>) (c\<lparr>cl_jobs := as @ filter (\<lambda>j. \<not> job_finished j) bs\<rparr>)"
proof (induction bs arbitrary: as)
  case (Cons j bs)
  show ?case
  proof (cases "job_finished j")
    case True
    have "rollout_step X env ctl clusterID merge (c\<lparr>cl_jobs := as @ j # bs\<rparr>) ((c\<lparr>cl_jobs := as @ j # bs\<rparr>)\<lparr>cl_jobs := as @ bs\<rparr>)"
      by (rule job_gone [where j = j]) simp
    with Cons [of as] True show ?thesis by (auto intro: converse_rtranclp_into_rtranclp)
  next
    case False
    with Cons [of "as @ [j]"] show ?thesis by simp
  qed
qed simp

lemma recovers:
  obtains c' where "(rollout_step X env ctl clusterID merge)\<^sup>*\<^sup>* c c'" "undisturbed X env ctl plan0 c'" "cl_plan c' = cl_plan c"
proof
  let ?c = "c\<lparr>cl_jobs := filter (\<lambda>j. \<not> job_finished j) (cl_jobs c)\<rparr>"
  have "(rollout_step X env ctl clusterID merge)\<^sup>*\<^sup>* c ?c"
    using clear_finished [where c = c and as = "[]" and bs = "cl_jobs c"] by simp
  then show "(rollout_step X env ctl clusterID merge)\<^sup>*\<^sup>* c (?c\<lparr>cl_seen := Map.empty\<rparr>)"
    by (rule rtranclp.rtrancl_into_rtrancl) (rule restarted)
  show "undisturbed X env ctl plan0 (?c\<lparr>cl_seen := Map.empty\<rparr>)"
    by (simp add: undisturbed_def fresh_def isNewResourceVersion_def)
qed simp

end
