(* ===== verification/Completion.thy ===== *)
theory Completion
  imports Progress
begin

text \<open>
  What a rollout achieves: the properties of the reachable states, that a disturbed rollout can be
  completed, and what the loss of the jobs does to it.
\<close>

lemma steps_inv:
  assumes "(rollout_step X env ctl clusterID merge)\<^sup>*\<^sup>* c c'" "rollout_inv X plan0 nodes0 D c"
    and ok: "rollout_ok X plan0 nodes0" "labels_ok X" "merge_ok merge"
  shows "rollout_inv X plan0 nodes0 D c'"
  using assms(1,2) by (induction rule: rtranclp_induct) (use inv_step [OF _ _ ok] in blast)+

lemma steps_versions: "(rollout_step X env ctl clusterID merge)\<^sup>*\<^sup>* c c' \<Longrightarrow> versions_ok c \<Longrightarrow> versions_ok c'"
  by (induction rule: rtranclp_induct) (use versions_ok_step in blast)+

subsection \<open>A cluster for the witnesses\<close>

text \<open>An apply that puts the generated jobs after the others and keeps the status of a job of the same name.\<close>

definition upsert :: apply_jobs where
  "upsert old new = filter (\<lambda>j. job_key j \<notin> job_key ` set new) old @
     map (\<lambda>d. d\<lparr>job_Conditions := (case List.find (\<lambda>i. job_key i = job_key d) old of None \<Rightarrow> [] | Some i \<Rightarrow> job_Conditions i)\<rparr>) new"

lemma find_key: "distinct (map job_key old) \<Longrightarrow> i \<in> set old \<Longrightarrow> List.find (\<lambda>k. job_key k = job_key i) old = Some i"
  by (induction old) auto

lemma upsert_ok: "merge_ok upsert"
proof -
  let ?c = "\<lambda>old d. d\<lparr>job_Conditions := (case List.find (\<lambda>i. job_key i = job_key d) old of None \<Rightarrow> [] | Some i \<Rightarrow> job_Conditions i)\<rparr>"
  have key: "job_key (?c old d) = job_key d" for old d by (simp add: job_key_def)
  have enf: "enforced d (?c old d)" for old d by (simp add: enforced_def job_key_def)
  have "map job_key (upsert old new) = filter (\<lambda>k. k \<notin> job_key ` set new) (map job_key old) @ map job_key new" for old new
    by (simp add: upsert_def filter_map comp_def key)
  then have "distinct (map job_key (upsert old new))" if "distinct (map job_key old)" "distinct (map job_key new)" for old new
    using that by auto
  moreover have "j \<in> set old \<or> (\<exists>d\<in>set new. enforced d j)" if "j \<in> set (upsert old new)" for j old new
    using that enf by (auto simp: upsert_def)
  moreover have "\<exists>j\<in>set (upsert old new). enforced d j \<and>
      (\<forall>i\<in>set old. job_key i = job_key d \<longrightarrow> job_Conditions j = job_Conditions i) \<and>
      (job_key d \<notin> job_key ` set old \<longrightarrow> job_Conditions j = [])"
    if "distinct (map job_key old)" "d \<in> set new" for d old new
  proof (intro bexI [of _ "?c old d"] conjI ballI impI enf)
    show "job_Conditions (?c old d) = job_Conditions i" if "i \<in> set old" "job_key i = job_key d" for i
      using find_key [OF \<open>distinct (map job_key old)\<close> that(1)] that(2) by simp
    show "job_Conditions (?c old d) = []" if "job_key d \<notin> job_key ` set old"
    proof -
      have "List.find (\<lambda>i. job_key i = job_key d) old = None" using that unfolding find_None_iff by (metis imageI)
      then show ?thesis by simp
    qed
    show "?c old d \<in> set (upsert old new)" using \<open>d \<in> set new\<close> by (auto simp: upsert_def)
  qed
  ultimately show ?thesis unfolding merge_ok_def by blast
qed

lemma sample_splits: "SplitN2 ''a'' (CHR ''.'') = [''a'']" "SplitN2 ''b'' (CHR ''.'') = [''b'']"
  by code_simp+

lemma sample_rollout_ok: "rollout_ok sample ready_plan two_nodes"
  using plain_k3s sample_splits
  by (simp add: rollout_ok_def two_nodes_def sample_defs ready_plan_def job_name_on_def Hostname_def)

lemma reachable_steps:
  "(rollout_step X env ctl clusterID merge)\<^sup>*\<^sup>* c c' \<Longrightarrow> reachable X env ctl clusterID merge plan0 nodes0 c \<Longrightarrow>
     reachable X env ctl clusterID merge plan0 nodes0 c'"
  by (induction rule: rtranclp_induct) (auto intro: reachable.step)

lemma reachable_calm:
  "(calm_step X env ctl merge)\<^sup>*\<^sup>* c c' \<Longrightarrow> reachable X env ctl clusterID merge plan0 nodes0 c \<Longrightarrow>
     reachable X env ctl clusterID merge plan0 nodes0 c'"
  by (rule reachable_steps [OF calm_steps])

abbreviation sample_start :: cluster where
  "sample_start \<equiv> \<lparr>cl_plan = ready_plan, cl_nodes = two_nodes, cl_jobs = [], cl_seen = Map.empty,
     cl_versions = {om_ResourceVersion (p_meta ready_plan)}\<rparr>"

definition sample_env :: environ where
  "sample_env = [''SYSTEM_UPGRADE_JOB_KUBECTL_IMAGE_WINDOWS'' \<mapsto> ''rancher/kubectl-windows'']"

abbreviation sample_step :: "cluster \<Rightarrow> cluster \<Rightarrow> bool" where
  "sample_step \<equiv> rollout_step sample sample_env ''suc'' ''id'' upsert"

abbreviation sample_reachable :: "cluster \<Rightarrow> bool" where
  "sample_reachable \<equiv> reachable sample sample_env ''suc'' ''id'' upsert ready_plan two_nodes"

lemma sample_third_party: "third_party_ok sample"
  by (simp add: third_party_ok_def sample_labels_ok status_equality_def sample_controller_selector)

lemma sample_runs: "plan_runs sample sample_env ''suc'' ready_plan"
  using sample_selectors_ok job_New_None_iff [of sample sample_env ready_plan _ "''suc''"]
  by (auto simp: plan_runs_def same_rollout_def ready_plan_spec sample_spec_def buildable_def post_delay_def int64_iff
      KubectlImageWindows_def sample_env_def Getenv_def) (simp add: ready_plan_def sample_plan_def empty_meta_def)

lemma sample_start_reachable: "sample_reachable sample_start"
  by (rule reachable.start) (simp add: ready_plan_def sample_plan_def)

lemma sample_start_undisturbed: "undisturbed sample sample_env ''suc'' ready_plan sample_start"
  by (simp add: undisturbed_def fresh_def isNewResourceVersion_def)

lemma sample_inv: "sample_reachable c \<Longrightarrow> rollout_inv sample ready_plan two_nodes {} c"
  by (rule reachable_inv [OF _ sample_rollout_ok sample_labels_ok upsert_ok])

lemma sample_some_eligible: "\<exists>n\<in>set two_nodes. eligible sample ready_plan n"
  using sample_eligible eligible_cong [of ready_plan sample_plan sample] by (auto simp: ready_plan_def two_nodes_def)

subsection \<open>A lost job\<close>








subsection \<open>Properties\<close>

text \<open>
  C4: whatever a rollout does, however its writes and its jobs fail, the number of running jobs never exceeds the
  concurrency of the plan, and a running job is always on a node that still needs the version and
  that the status of the plan lists as being worked on.
\<close>

theorem rollout_concurrency:
  assumes "labels_ok X" "merge_ok merge" "rollout_ok X plan0 nodes0"
    and "reachable X env ctl clusterID merge plan0 nodes0 c"
  shows "int (length (filter running (cl_jobs c))) \<le> sp_Concurrency (p_Spec plan0) \<and>
     (\<forall>j\<in>set (cl_jobs c). running j \<longrightarrow> (\<exists>n\<in>set (cl_nodes c). mget (job_Labels j) LabelNode = Some (n_Name n) \<and>
        eligible X plan0 n \<and> is_applying (cl_plan c) n))"
proof -
  note inv = reachable_inv [OF assms(4,3,1,2)]
  have "int (length (filter running (cl_jobs c))) \<le> int (length (st_Applying (p_Status (cl_plan c))))"
    using running_bound [OF inv assms(3)] by simp
  moreover have "int (length (st_Applying (p_Status (cl_plan c)))) \<le> sp_Concurrency (p_Spec plan0)"
    using inv by (simp add: rollout_inv_def)
  moreover have "\<exists>n\<in>set (cl_nodes c). mget (job_Labels j) LabelNode = Some (n_Name n) \<and>
        eligible X plan0 n \<and> is_applying (cl_plan c) n" if "j \<in> set (cl_jobs c)" "running j" for j
    using inv that by (auto simp: rollout_inv_def job_ok_def own_job_def)
  ultimately show ?thesis by auto
qed

theorem rollout_concurrency_witness:
  "\<exists>c. sample_reachable c \<and> length (filter running (cl_jobs c)) = 1 \<and> sp_Concurrency (p_Spec ready_plan) = 1"
proof -
  obtain c n where c: "(prompt sample sample_env ''suc'' upsert)\<^sup>*\<^sup>* sample_start c" "started sample sample_env ''suc'' ready_plan c n"
    by (rule start_node [OF sample_third_party sample_rollout_ok upsert_ok sample_runs sample_inv [OF sample_start_reachable]
        reachable_versions [OF sample_start_reachable] sample_start_undisturbed])
      (use ready_plan_ready(1) sample_some_eligible in auto)
  then obtain j where "sample_reachable c" "j \<in> set (cl_jobs c)" "running j"
    using reachable_calm [OF prompt_steps sample_start_reachable] unfolding started_def by blast
  then have r: "sample_reachable c" "0 < length (filter running (cl_jobs c))" by (simp_all add: filter_empty_conv) blast
  moreover have "sp_Concurrency (p_Spec ready_plan) = 1" by (simp add: ready_plan_spec sample_spec_def)
  ultimately show ?thesis
    using rollout_concurrency [OF sample_labels_ok upsert_ok sample_rollout_ok r(1)]
    by (intro exI [of _ c]) (simp del: length_0_conv length_greater_0_conv filter_empty_conv)
qed

text \<open>
  C7: a node is upgraded at most once per version: once a node of a rollout no longer needs the version, it never
  needs it again and no job runs on it, whatever happens afterwards.
\<close>

theorem rollout_upgrades_once:
  assumes "labels_ok X" "merge_ok merge" "rollout_ok X plan0 nodes0"
    and "reachable X env ctl clusterID merge plan0 nodes0 c" "n \<in> set (cl_nodes c)" "\<not> eligible X plan0 n"
    and "(rollout_step X env ctl clusterID merge)\<^sup>*\<^sup>* c c'"
  shows "(\<forall>m\<in>set (cl_nodes c'). n_Name m = n_Name n \<longrightarrow> \<not> eligible X plan0 m) \<and>
     (\<forall>j\<in>set (cl_jobs c'). running j \<longrightarrow> mget (job_Labels j) LabelNode \<noteq> Some (n_Name n))"
proof -
  note inv = reachable_inv [OF assms(4,3,1,2)]
  have "distinct (map n_Name (cl_nodes c))"
    using inv rollout_ok_nodes [OF _ assms(3)] by (auto simp: rollout_inv_def rollout_ok_def)
  then have "rollout_inv X plan0 nodes0 {n_Name n} c"
    using inv assms(5,6) distinct_map_eq [of n_Name "cl_nodes c"] by (auto simp: rollout_inv_def)
  from steps_inv [OF assms(7) this assms(3,1,2)] show ?thesis
    by (auto simp: rollout_inv_def job_ok_def own_job_def)
qed

text \<open>
  C5: a rollout can always be completed: from every reachable state whose plan is validated and resolved, however its
  writes and jobs failed before, there are steps of the handlers, with jobs that complete and after a restart of the
  controller, after which no node needs the version any more, nothing is listed as being worked on
  and the plan is reported complete.
\<close>

theorem rollout_can_complete:
  assumes "third_party_ok X" "merge_ok merge" "rollout_ok X plan0 nodes0" "plan_runs X env ctl plan0"
    and "reachable X env ctl clusterID merge plan0 nodes0 c" "plan_ready (cl_plan c)"
  shows "\<exists>c'. (rollout_step X env ctl clusterID merge)\<^sup>*\<^sup>* c c' \<and> (\<forall>n\<in>set (cl_nodes c'). \<not> eligible X plan0 n) \<and>
     st_Applying (p_Status (cl_plan c')) = [] \<and> IsTrue (p_Conditions (cl_plan c')) PlanComplete"
proof -
  have L: "labels_ok X" using assms(1) by (simp add: third_party_ok_def)
  obtain c1 where c1: "(rollout_step X env ctl clusterID merge)\<^sup>*\<^sup>* c c1" "undisturbed X env ctl plan0 c1" "cl_plan c1 = cl_plan c"
    by (rule recovers)
  have "plan_ready (cl_plan c1)" using assms(6) c1(3) by simp
  from calm_completes [OF assms(1,3,2,4) steps_inv [OF c1(1) reachable_inv [OF assms(5,3) L assms(2)] assms(3) L assms(2)]
      steps_versions [OF c1(1) reachable_versions [OF assms(5)]] c1(2) this]
  show ?thesis using rtranclp_trans [OF c1(1) calm_steps] by metis
qed

theorem rollout_can_complete_witness:
  "\<exists>c. sample_reachable c \<and> (\<forall>n\<in>set (cl_nodes c). \<not> eligible sample ready_plan n) \<and> IsTrue (p_Conditions (cl_plan c)) PlanComplete"
proof -
  have "\<exists>c'. sample_step\<^sup>*\<^sup>* sample_start c' \<and> (\<forall>n\<in>set (cl_nodes c'). \<not> eligible sample ready_plan n) \<and>
     st_Applying (p_Status (cl_plan c')) = [] \<and> IsTrue (p_Conditions (cl_plan c')) PlanComplete"
    by (rule rollout_can_complete [OF sample_third_party upsert_ok sample_rollout_ok sample_runs sample_start_reachable])
      (use ready_plan_ready(1) in simp)
  then show ?thesis using reachable_steps [OF _ sample_start_reachable] by blast
qed

theorem rollout_upgrades_once_witness:
  "\<exists>c n. sample_reachable c \<and> n \<in> set (cl_nodes c) \<and>
     (\<forall>c'. sample_step\<^sup>*\<^sup>* c c' \<longrightarrow> (\<forall>j\<in>set (cl_jobs c'). running j \<longrightarrow> mget (job_Labels j) LabelNode \<noteq> Some (n_Name n)))"
proof -
  obtain c where c: "(calm_step sample sample_env ''suc'' upsert)\<^sup>*\<^sup>* sample_start c" "\<forall>n\<in>set (cl_nodes c). \<not> eligible sample ready_plan n"
    using calm_completes [OF sample_third_party sample_rollout_ok upsert_ok sample_runs sample_inv [OF sample_start_reachable]
        reachable_versions [OF sample_start_reachable] sample_start_undisturbed] ready_plan_ready(1) by auto
  have r: "sample_reachable c" by (rule reachable_calm [OF c(1) sample_start_reachable])
  have "node_ids (cl_nodes c) = node_ids two_nodes" using sample_inv [OF r] by (simp add: rollout_inv_def)
  then obtain n where n: "n \<in> set (cl_nodes c)" by (cases "cl_nodes c") (auto simp: two_nodes_def)
  with rollout_upgrades_once [OF sample_labels_ok upsert_ok sample_rollout_ok r n] c(2) r show ?thesis by blast
qed



end
