(* ===== verification/Lifecycle.thy ===== *)
theory Lifecycle
  imports Completion
begin

text \<open>
  The contract of a rollout, without plans, labels and API objects: the sets of names of the nodes that still need the version, that
  hold one of the places, whose job runs, and whose job has completed. The handlers refine it.
\<close>

subsection \<open>The contract\<close>

record progress =
  pr_todo :: "string set"
  pr_slots :: "string set"
  pr_busy :: "string set"
  pr_done :: "string set"

text \<open>
  The places may be given to other nodes unless a job runs there, and are at most \<open>k\<close>; a job starts on a node
  that needs the version, has a place and has no completed job; a running job completes or stops; a completed job is
  forgotten; and a node stops needing the version only while its job is completed.
\<close>

inductive contract_step :: "int \<Rightarrow> progress \<Rightarrow> progress \<Rightarrow> bool" for k where
  assign: "finite S \<Longrightarrow> int (card S) \<le> k \<Longrightarrow> pr_busy s \<subseteq> S \<Longrightarrow> contract_step k s (s\<lparr>pr_slots := S\<rparr>)"
| job_starts: "x \<in> pr_todo s \<Longrightarrow> x \<in> pr_slots s \<Longrightarrow> x \<notin> pr_done s \<Longrightarrow> contract_step k s (s\<lparr>pr_busy := insert x (pr_busy s)\<rparr>)"
| job_completes: "x \<in> pr_busy s \<Longrightarrow>
     contract_step k s (s\<lparr>pr_busy := pr_busy s - {x}, pr_done := insert x (pr_done s)\<rparr>)"
| job_stops: "x \<in> pr_busy s \<Longrightarrow> contract_step k s (s\<lparr>pr_busy := pr_busy s - {x}\<rparr>)"
| forgotten: "x \<in> pr_done s \<Longrightarrow> contract_step k s (s\<lparr>pr_done := pr_done s - {x}\<rparr>)"
| upgraded: "x \<in> pr_done s \<Longrightarrow> contract_step k s (s\<lparr>pr_todo := pr_todo s - {x}\<rparr>)"

abbreviation contract_steps :: "int \<Rightarrow> progress \<Rightarrow> progress \<Rightarrow> bool" where
  "contract_steps k \<equiv> (contract_step k)\<^sup>*\<^sup>*"

text \<open>What the contract keeps by itself: only nodes in need and in a place are busy, and none of them is done.\<close>

definition contract_inv :: "int \<Rightarrow> progress \<Rightarrow> bool" where
  "contract_inv k s \<longleftrightarrow> finite (pr_slots s) \<and> int (card (pr_slots s)) \<le> k \<and>
     pr_busy s \<subseteq> pr_todo s \<inter> pr_slots s - pr_done s"

lemma contract_inv_step: "contract_step k s t \<Longrightarrow> contract_inv k s \<Longrightarrow> contract_inv k t"
  by (induction rule: contract_step.induct) (auto simp: contract_inv_def)

lemma contract_inv_steps: "contract_steps k s t \<Longrightarrow> contract_inv k s \<Longrightarrow> contract_inv k t"
  by (induction rule: rtranclp_induct) (auto intro: contract_inv_step)

text \<open>The same step for each element of a finite set.\<close>

lemma steps_each:
  assumes "finite A" "\<And>x B. insert x B \<subseteq> A \<Longrightarrow> x \<notin> B \<Longrightarrow> R (f B) (f (insert x B))"
  shows "R\<^sup>*\<^sup>* (f {}) (f A)"
  using assms
proof (induction A)
  case (insert x A)
  have "R\<^sup>*\<^sup>* (f {}) (f A)" using insert.IH insert.prems by blast
  moreover have "R (f A) (f (insert x A))" using insert.prems insert.hyps(2) by blast
  ultimately show ?case by simp
qed simp

text \<open>What a change must satisfy to be made of such steps.\<close>

definition allowed :: "progress \<Rightarrow> progress \<Rightarrow> bool" where
  "allowed s t \<longleftrightarrow> pr_todo t \<subseteq> pr_todo s \<and> pr_todo s - pr_todo t \<subseteq> pr_done s \<and> pr_done t - pr_done s \<subseteq> pr_busy s \<and>
     pr_busy t - pr_busy s \<subseteq> pr_todo s \<inter> pr_slots s - pr_done s"

lemma contract_by_parts:
  assumes inv: "contract_inv k s" "contract_inv k t" and a: "allowed s t"
    and fin: "finite (pr_todo s)" "finite (pr_done s)" "finite (pr_busy s)" "finite (pr_busy t)"
  shows "contract_steps k s t"
proof -
  let ?new = "pr_busy t - pr_busy s" and ?comp = "pr_done t - pr_done s" and ?up = "pr_todo s - pr_todo t"
  let ?stop = "pr_busy s - pr_busy t - ?comp" and ?gone = "pr_done s - pr_done t"
  define f1 where "f1 A = s\<lparr>pr_busy := pr_busy s \<union> A\<rparr>" for A
  define f2 where "f2 A = s\<lparr>pr_busy := pr_busy s \<union> ?new - A, pr_done := pr_done s \<union> A\<rparr>" for A
  define f3 where "f3 A = s\<lparr>pr_done := pr_done s \<union> ?comp, pr_busy := pr_busy s \<union> ?new - ?comp - A\<rparr>" for A
  define f4 where "f4 A = s\<lparr>pr_busy := pr_busy t, pr_done := pr_done s \<union> ?comp, pr_todo := pr_todo s - A\<rparr>" for A
  define f5 where "f5 A = s\<lparr>pr_busy := pr_busy t, pr_todo := pr_todo t, pr_done := pr_done s \<union> ?comp - A\<rparr>" for A
  have b: "?new \<subseteq> pr_todo s \<inter> pr_slots s - pr_done s" "?comp \<subseteq> pr_busy s" "?up \<subseteq> pr_done s" "pr_todo t \<subseteq> pr_todo s"
    "pr_busy t \<inter> pr_done t = {}" "pr_busy s \<inter> pr_done s = {}"
    using a inv by (auto simp: allowed_def contract_inv_def)
  have "contract_steps k (f1 {}) (f1 ?new)"
    by (rule steps_each) (use fin b(1) job_starts [of _ "f1 _" k] in \<open>auto simp: f1_def\<close>)
  moreover have "contract_steps k (f2 {}) (f2 ?comp)"
  proof (rule steps_each)
    fix x B assume "insert x B \<subseteq> ?comp" "x \<notin> B"
    then show "contract_step k (f2 B) (f2 (insert x B))"
      using b(2) job_completes [of x "f2 B" k] by (auto simp: f2_def Diff_insert [symmetric])
  qed (use fin(3) b(2) finite_subset in blast)
  moreover have "contract_steps k (f3 {}) (f3 ?stop)"
  proof (rule steps_each)
    fix x B assume "insert x B \<subseteq> ?stop" "x \<notin> B"
    then show "contract_step k (f3 B) (f3 (insert x B))"
      using job_stops [of x "f3 B" k] by (auto simp: f3_def Diff_insert [symmetric])
  qed (use fin in simp)
  moreover have "contract_steps k (f4 {}) (f4 ?up)"
  proof (rule steps_each)
    fix x B assume "insert x B \<subseteq> ?up" "x \<notin> B"
    then show "contract_step k (f4 B) (f4 (insert x B))"
      using b(3) upgraded [of x "f4 B" k] by (auto simp: f4_def Diff_insert [symmetric])
  qed (use fin in simp)
  moreover have "contract_steps k (f5 {}) (f5 ?gone)"
  proof (rule steps_each)
    fix x B assume "insert x B \<subseteq> ?gone" "x \<notin> B"
    then show "contract_step k (f5 B) (f5 (insert x B))"
      using forgotten [of x "f5 B" k] by (auto simp: f5_def Diff_insert [symmetric])
  qed (use fin in simp)
  moreover have "contract_step k (f5 ?gone) (f5 ?gone\<lparr>pr_slots := pr_slots t\<rparr>)"
    using inv(2) by (intro assign) (auto simp: f5_def contract_inv_def)
  moreover have "f1 {} = s" by (simp add: f1_def)
  moreover have "f1 ?new = f2 {}" by (simp add: f1_def f2_def)
  moreover have "f2 ?comp = f3 {}" by (simp add: f2_def f3_def)
  moreover have "f3 ?stop = f4 {}" using b by (auto simp: f3_def f4_def intro!: progress.equality)
  moreover have "f4 ?up = f5 {}" using b by (auto simp: f4_def f5_def intro!: progress.equality)
  moreover have "f5 ?gone\<lparr>pr_slots := pr_slots t\<rparr> = t" by (rule progress.equality) (auto simp: f5_def)
  ultimately show ?thesis by (metis (no_types, lifting) rtranclp_trans rtranclp.rtrancl_into_rtrancl)
qed

subsection \<open>The rollout refines it\<close>

definition has_job :: "('sel, 'req) extern \<Rightarrow> Plan \<Rightarrow> cluster \<Rightarrow> (Job \<Rightarrow> bool) \<Rightarrow> Node \<Rightarrow> bool" where
  "has_job X plan0 c P n \<longleftrightarrow> (\<exists>j\<in>set (cl_jobs c). own_job X plan0 n j \<and> P j)"

definition completed :: "Job \<Rightarrow> bool" where
  "completed j \<longleftrightarrow> IsTrue (job_Conditions j) ConditionComplete"

abbreviation node_names :: "cluster \<Rightarrow> (Node \<Rightarrow> bool) \<Rightarrow> string set" where
  "node_names c P \<equiv> n_Name ` {n \<in> set (cl_nodes c). P n}"

definition progress_of :: "('sel, 'req) extern \<Rightarrow> Plan \<Rightarrow> cluster \<Rightarrow> progress" where
  "progress_of X plan0 c =
     \<lparr>pr_todo = node_names c (eligible X plan0), pr_slots = node_names c (is_applying (cl_plan c)),
      pr_busy = node_names c (has_job X plan0 c running), pr_done = node_names c (has_job X plan0 c completed)\<rparr>"

lemma progress_of_memory [simp]:
  "progress_of X plan0 (stored c rv c') = progress_of X plan0 c'" "progress_of X plan0 (c\<lparr>cl_seen := seen\<rparr>) = progress_of X plan0 c"
  by (simp_all add: progress_of_def has_job_def [abs_def])

lemma progress_of_inv:
  assumes inv: "rollout_inv X plan0 nodes0 D c" and ok: "rollout_ok X plan0 nodes0"
  shows "contract_inv (sp_Concurrency (p_Spec plan0)) (progress_of X plan0 c)"
proof -
  have ids: "node_ids (cl_nodes c) = node_ids nodes0" and jobs: "distinct (map job_key (cl_jobs c))"
    using inv by (simp_all add: rollout_inv_def)
  note nodes = rollout_ok_nodes [OF ids ok]
  let ?on = "{n \<in> set (cl_nodes c). is_applying (cl_plan c) n}"
  have "card (n_Name ` ?on) \<le> card ?on" by (rule card_image_le) simp
  also have "\<dots> \<le> card (set (st_Applying (p_Status (cl_plan c))))"
    using nodes by (intro card_inj_on_le [where f = Hostname]) (auto simp: is_applying_def rollout_ok_def distinct_map intro: inj_on_subset)
  also have "\<dots> \<le> length (st_Applying (p_Status (cl_plan c)))" by (rule card_length)
  finally have "int (card (n_Name ` ?on)) \<le> sp_Concurrency (p_Spec plan0)" using inv by (simp add: rollout_inv_def)
  moreover have "eligible X plan0 n \<and> is_applying (cl_plan c) n \<and> \<not> has_job X plan0 c completed n"
    if n: "n \<in> set (cl_nodes c)" "has_job X plan0 c running n" for n
  proof -
    obtain j where j: "j \<in> set (cl_jobs c)" "own_job X plan0 n j" "running j" using n(2) by (auto simp: has_job_def)
    then obtain m where m: "m \<in> set (cl_nodes c)" "own_job X plan0 m j" "eligible X plan0 m" "is_applying (cl_plan c) m"
      using inv by (auto simp: rollout_inv_def job_ok_def)
    have "m = n" by (rule own_job_node [OF nodes m(2) j(2) m(1) n(1)])
    moreover have "\<not> completed i" if "i \<in> set (cl_jobs c)" "own_job X plan0 n i" for i
      using own_job_job [OF jobs that(2) j(2) that(1) j(1)] j(3) by (simp add: running_def job_finished_def completed_def)
    ultimately show ?thesis using m by (auto simp: has_job_def)
  qed
  moreover have "n = m" if "n \<in> set (cl_nodes c)" "m \<in> set (cl_nodes c)" "n_Name n = n_Name m" for n m
    using nodes that distinct_map_eq by (fastforce simp: rollout_ok_def)
  ultimately show ?thesis by (fastforce simp: contract_inv_def progress_of_def)
qed

text \<open>What a write of a handler does to the progress: steps of the contract, in which no job completes.\<close>

definition advances :: "('sel, 'req) extern \<Rightarrow> Plan \<Rightarrow> cluster \<Rightarrow> cluster \<Rightarrow> bool" where
  "advances X plan0 c c' \<longleftrightarrow>
     contract_steps (sp_Concurrency (p_Spec plan0)) (progress_of X plan0 c) (progress_of X plan0 c') \<and>
     pr_todo (progress_of X plan0 c) - pr_todo (progress_of X plan0 c') \<subseteq> pr_done (progress_of X plan0 c) \<and>
     pr_done (progress_of X plan0 c') \<subseteq> pr_done (progress_of X plan0 c)"

lemma advances_refl [simp]: "advances X plan0 c c"
  by (simp add: advances_def)

lemma advances_trans: "advances X plan0 c c' \<Longrightarrow> advances X plan0 c' c'' \<Longrightarrow> advances X plan0 c c''"
  by (auto simp: advances_def)

lemma progress_of_finite [simp]:
  "finite (pr_todo (progress_of X plan0 c))" "finite (pr_done (progress_of X plan0 c))" "finite (pr_busy (progress_of X plan0 c))"
  by (simp_all add: progress_of_def)

lemma refines_by_parts:
  assumes "rollout_inv X plan0 nodes0 D c" "rollout_inv X plan0 nodes0 D c'" "rollout_ok X plan0 nodes0"
    and "allowed (progress_of X plan0 c) (progress_of X plan0 c')"
  shows "contract_steps (sp_Concurrency (p_Spec plan0)) (progress_of X plan0 c) (progress_of X plan0 c')"
  using progress_of_inv [OF assms(1,3)] progress_of_inv [OF assms(2,3)] assms(4) by (intro contract_by_parts) simp_all

lemma advancesI:
  assumes "rollout_inv X plan0 nodes0 D c" "rollout_inv X plan0 nodes0 D c'" "rollout_ok X plan0 nodes0"
    and "allowed (progress_of X plan0 c) (progress_of X plan0 c')"
    and "pr_done (progress_of X plan0 c') \<subseteq> pr_done (progress_of X plan0 c)"
  shows "advances X plan0 c c'"
  using refines_by_parts [OF assms(1-4)] assms(4,5) by (simp add: advances_def allowed_def)

lemma fewer_jobs_advance:
  assumes "rollout_inv X plan0 nodes0 D c" "rollout_inv X plan0 nodes0 D (c\<lparr>cl_jobs := js\<rparr>)" "rollout_ok X plan0 nodes0"
    and "set js \<subseteq> set (cl_jobs c)"
  shows "advances X plan0 c (c\<lparr>cl_jobs := js\<rparr>)"
proof -
  have "has_job X plan0 (c\<lparr>cl_jobs := js\<rparr>) P n \<Longrightarrow> has_job X plan0 c P n" for P n
    using assms(4) by (auto simp: has_job_def)
  then show ?thesis by (intro advancesI [OF assms(1-3)]) (auto simp: allowed_def progress_of_def)
qed

lemma status_advances:
  assumes "rollout_inv X plan0 nodes0 D c" "rollout_inv X plan0 nodes0 D (perform merge c (PlanUpdateStatus p))" "rollout_ok X plan0 nodes0"
  shows "advances X plan0 c (perform merge c (PlanUpdateStatus p))"
  by (intro advancesI [OF assms]) (auto simp: allowed_def progress_of_def has_job_def)

lemma no_conditions [simp]: "\<not> IsTrue [] c"
  by (simp add: IsTrue_def getStatus_def findOrNotCreateCond_def)

lemma apply_advances:
  assumes inv: "rollout_inv X plan0 nodes0 D c" and ok: "rollout_ok X plan0 nodes0" "merge_ok merge"
    and js: "distinct (map job_key js)" "\<And>d j. d \<in> set js \<Longrightarrow> enforced d j \<Longrightarrow> job_ok X plan0 c j"
  shows "advances X plan0 c (perform merge c (ApplyObjects p js))"
proof -
  let ?c = "perform merge c (ApplyObjects p js)"
  have inv': "rollout_inv X plan0 nodes0 D ?c" by (rule inv_apply [OF inv ok(2) js])
  have ids: "node_ids (cl_nodes c) = node_ids nodes0" and keys: "distinct (map job_key (cl_jobs c))"
    using inv by (simp_all add: rollout_inv_def)
  note nodes = rollout_ok_nodes [OF ids ok(1)] and m = merge_okD [OF ok(2) keys js(1)]
  \<comment> \<open>A job after the apply is an old one, or has the conditions of the old job of its node.\<close>
  have job: "j \<in> set (cl_jobs c) \<or> (\<exists>i\<in>set (cl_jobs c). own_job X plan0 n i \<and> job_Conditions j = job_Conditions i) \<or>
      (job_Conditions j = [] \<and> \<not> has_job X plan0 c completed n)"
    if j: "j \<in> set (cl_jobs ?c)" "own_job X plan0 n j" "n \<in> set (cl_nodes c)" for j n
  proof (cases "j \<in> set (cl_jobs c)")
    case False
    then obtain d where d: "d \<in> set js" "enforced d j" using m(2) j(1) by auto
    obtain j' where j': "j' \<in> set (cl_jobs ?c)" "enforced d j'"
      "\<forall>i\<in>set (cl_jobs c). job_key i = job_key d \<longrightarrow> job_Conditions j' = job_Conditions i"
      "job_key d \<notin> job_key ` set (cl_jobs c) \<longrightarrow> job_Conditions j' = []"
      using m(3) [OF d(1)] by auto
    have "j' = j" using distinct_map_eq [of job_key "cl_jobs ?c" j' j] m(1) j(1) j'(1,2) d(2) by (simp add: enforced_def)
    note j' = j' [unfolded this]
    show ?thesis
    proof (cases "job_key d \<in> job_key ` set (cl_jobs c)")
      case True
      then obtain i where i: "i \<in> set (cl_jobs c)" "job_key i = job_key d" by auto
      obtain k where k: "k \<in> set (cl_nodes c)" "own_job X plan0 k i" using inv i(1) by (auto simp: rollout_inv_def job_ok_def)
      have "job_name_on X plan0 k = job_name_on X plan0 n"
        using k(2) j(2) i(2) d(2) by (simp add: own_job_def enforced_def)
      then have "k = n" using nodes distinct_map_eq k(1) j(3) by (fastforce simp: rollout_ok_def)
      with i k(2) j'(3) show ?thesis by blast
    next
      case new: False
      then have "\<not> own_job X plan0 n i" if "i \<in> set (cl_jobs c)" for i
        using that j(2) d(2) by (metis imageI own_job_def enforced_def)
      with new j'(4) show ?thesis by (auto simp: has_job_def)
    qed
  qed simp
  have done': "has_job X plan0 c completed n" if n: "n \<in> set (cl_nodes c)" "has_job X plan0 ?c completed n" for n
  proof -
    obtain j where j: "j \<in> set (cl_jobs ?c)" "own_job X plan0 n j" "completed j" using n(2) by (auto simp: has_job_def)
    with job [OF j(1,2) n(1)] show ?thesis by (auto simp: has_job_def completed_def)
  qed
  have busy: "has_job X plan0 c running n \<or> \<not> has_job X plan0 c completed n"
    if n: "n \<in> set (cl_nodes c)" "has_job X plan0 ?c running n" for n
  proof -
    obtain j where j: "j \<in> set (cl_jobs ?c)" "own_job X plan0 n j" "running j" using n(2) by (auto simp: has_job_def)
    have "\<not> completed i" if "i \<in> set (cl_jobs c)" "own_job X plan0 n i" "job_Conditions j = job_Conditions i'"
       "i' \<in> set (cl_jobs c)" "own_job X plan0 n i'" for i i'
      using own_job_job [OF keys that(2,5,1,4)] that(3) j(3) by (simp add: running_def job_finished_def completed_def)
    with job [OF j(1,2) n(1)] j show ?thesis by (auto simp: has_job_def)
  qed
  have "eligible X plan0 n \<and> is_applying (cl_plan c) n" if "n \<in> set (cl_nodes c)" "has_job X plan0 ?c running n" for n
  proof -
    have "pr_busy (progress_of X plan0 ?c) \<subseteq> pr_todo (progress_of X plan0 ?c) \<inter> pr_slots (progress_of X plan0 ?c)"
      using progress_of_inv [OF inv' ok(1)] by (auto simp: contract_inv_def)
    moreover have "n_Name n \<in> pr_busy (progress_of X plan0 ?c)" using that by (simp add: progress_of_def)
    ultimately have "n_Name n \<in> node_names c (eligible X plan0) \<inter> node_names c (is_applying (cl_plan c))"
      by (auto simp: progress_of_def)
    then show ?thesis using that(1) nodes distinct_map_eq by (fastforce simp: rollout_ok_def)
  qed
  moreover have "n = x" if "n \<in> set (cl_nodes c)" "x \<in> set (cl_nodes c)" "n_Name n = n_Name x" for n x
    using that nodes distinct_map_eq by (fastforce simp: rollout_ok_def)
  ultimately have "node_names c (has_job X plan0 ?c running) - node_names c (has_job X plan0 c running) \<subseteq>
      node_names c (eligible X plan0) \<inter> node_names c (is_applying (cl_plan c)) - node_names c (has_job X plan0 c completed)"
    using busy by blast
  with done' show ?thesis
    by (intro advancesI [OF inv inv' ok(1)]) (auto simp: allowed_def progress_of_def)
qed

text \<open>A node is relabelled only for its own completed job.\<close>

lemma node_advances:
  assumes inv: "rollout_inv X plan0 nodes0 D c" "rollout_inv X plan0 nodes0 D (perform merge c (NodeUpdate n))" and ok: "rollout_ok X plan0 nodes0"
    and m: "m \<in> set (cl_nodes c)" "n_Name n = n_Name m" "Hostname n = Hostname m"
    and el: "eligible X plan0 n \<Longrightarrow> eligible X plan0 m"
    and j: "j \<in> set (cl_jobs c)" "own_job X plan0 m j" "completed j"
  shows "advances X plan0 c (perform merge c (NodeUpdate n))"
proof -
  let ?f = "\<lambda>x. if n_Name x = n_Name n then n else x"
  have ids: "node_ids (cl_nodes c) = node_ids nodes0" using inv(1) by (simp add: rollout_inv_def)
  note nodes = rollout_ok_nodes [OF ids ok]
  have eq: "x = m" if "x \<in> set (cl_nodes c)" "n_Name x = n_Name n" for x
    using that m nodes distinct_map_eq by (fastforce simp: rollout_ok_def)
  have names: "n_Name ` {x \<in> set (map ?f (cl_nodes c)). P x} = n_Name ` {x \<in> set (cl_nodes c). P (?f x)}" for P
  proof -
    have "{x \<in> set (map ?f (cl_nodes c)). P x} = ?f ` {x \<in> set (cl_nodes c). P (?f x)}" by auto
    then have "n_Name ` {x \<in> set (map ?f (cl_nodes c)). P x} = (\<lambda>x. n_Name (?f x)) ` {x \<in> set (cl_nodes c). P (?f x)}"
      by (simp only: image_image)
    also have "(\<lambda>x. n_Name (?f x)) = n_Name" by auto
    finally show ?thesis .
  qed
  have own: "own_job X plan0 (?f x) i = own_job X plan0 x i" for x i
    by (auto simp: own_job_def job_name_on_def)
  have "is_applying (cl_plan c) (?f x) = is_applying (cl_plan c) x" if "x \<in> set (cl_nodes c)" for x
    using eq [OF that] m(3) by (auto simp: is_applying_def)
  then have "{x \<in> set (cl_nodes c). is_applying (cl_plan c) (?f x)} = {x \<in> set (cl_nodes c). is_applying (cl_plan c) x}"
    by blast
  then have slots: "pr_slots (progress_of X plan0 (perform merge c (NodeUpdate n))) = pr_slots (progress_of X plan0 c)"
    using names [of "is_applying (cl_plan c)"] by (simp add: progress_of_def del: set_map split del: if_split)
  have jobs: "pr_busy (progress_of X plan0 (perform merge c (NodeUpdate n))) = pr_busy (progress_of X plan0 c)"
    "pr_done (progress_of X plan0 (perform merge c (NodeUpdate n))) = pr_done (progress_of X plan0 c)"
    by (simp_all add: progress_of_def names has_job_def own del: set_map)
  have todo: "pr_todo (progress_of X plan0 (perform merge c (NodeUpdate n))) = n_Name ` {x \<in> set (cl_nodes c). eligible X plan0 (?f x)}"
    using names [of "eligible X plan0"] by (simp add: progress_of_def del: set_map split del: if_split)
  have f: "eligible X plan0 (?f x) \<Longrightarrow> eligible X plan0 x" "\<not> eligible X plan0 (?f x) \<Longrightarrow> eligible X plan0 x \<Longrightarrow> x = m"
    if "x \<in> set (cl_nodes c)" for x
    using eq [OF that] el by (auto split: if_splits)
  have "n_Name m \<in> pr_done (progress_of X plan0 c)" using m(1) j by (auto simp: progress_of_def has_job_def)
  moreover have t0: "pr_todo (progress_of X plan0 c) = node_names c (eligible X plan0)" by (simp add: progress_of_def)
  have "pr_todo (progress_of X plan0 (perform merge c (NodeUpdate n))) \<subseteq> pr_todo (progress_of X plan0 c)"
    unfolding todo t0 using f(1) by blast
  moreover have "pr_todo (progress_of X plan0 c) - pr_todo (progress_of X plan0 (perform merge c (NodeUpdate n))) \<subseteq> {n_Name m}"
    unfolding todo t0 using f(2) by blast
  ultimately show ?thesis using jobs slots by (intro advancesI [OF inv ok]) (auto simp: allowed_def)
qed

subsection \<open>The steps\<close>

lemma advances_two_writes:
  assumes "filter is_write es = xs @ ys" "subseq es' es"
    and "\<And>us. subseq us xs \<Longrightarrow> advances X plan0 c (performs merge c us)"
    and "\<And>us vs. subseq us xs \<Longrightarrow> subseq vs ys \<Longrightarrow> advances X plan0 (performs merge c us) (performs merge (performs merge c us) vs)"
  shows "advances X plan0 c (performs merge c es')"
proof -
  obtain us vs where "subseq us xs" "subseq vs ys" "filter is_write es' = us @ vs"
    using subseq_filter [OF assms(2), of is_write] assms(1) by (auto elim: subseq_appendE)
  with assms(3,4) show ?thesis by (subst performs_writes) (auto intro: advances_trans)
qed

lemma deletes_advance:
  assumes "rollout_inv X plan0 nodes0 D c" "rollout_ok X plan0 nodes0" "ys \<in> deletes j"
  shows "advances X plan0 c (performs merge c ys)"
proof -
  have "advances X plan0 c (perform merge c (JobDelete ns nm pr))" for ns nm pr
    using fewer_jobs_advance [OF assms(1) _ assms(2)] inv_delete [OF assms(1)] by auto
  then show ?thesis using assms(3) by (auto simp: deletes_def simp del: perform.simps)
qed

lemma resolving_advances:
  assumes "rollout_inv X plan0 nodes0 D c" "rollout_ok X plan0 nodes0"
    and run: "sync X C [] (plan_status_handler X env cid w) (Some (cl_plan c)) = (es, r, err)" "subseq es' es"
    and hash: "\<And>p. PlanUpdateStatus p \<in> set es' \<Longrightarrow> st_LatestHash (p_Status p) = st_LatestHash (p_Status (cl_plan c))"
  shows "advances X plan0 c (performs merge c es')"
proof -
  have "filter is_write es = [] \<or> (\<exists>p. filter is_write es = [PlanUpdateStatus p])"
    using sync_writes [of X C "plan_status_handler X env cid w" "cl_plan c"] run(1) status_handler_frame(2) [of X env cid w "cl_plan c"]
    by auto
  then have "filter is_write es' = [] \<or> (\<exists>p. filter is_write es' = [PlanUpdateStatus p])"
    using subseq_filter [OF run(2), of is_write] subseq_single by fastforce
  then show ?thesis
  proof
    assume "\<exists>p. filter is_write es' = [PlanUpdateStatus p]"
    then obtain p where p: "performs merge c es' = perform merge c (PlanUpdateStatus p)"
      by (auto simp: performs_writes [of merge c es'])
    show ?thesis using status_advances [OF assms(1) _ assms(2)] inv_resolving [OF assms(1) run hash, of merge] unfolding p by blast
  qed (subst performs_writes, simp)
qed

lemma generating_advances:
  assumes inv: "rollout_inv X plan0 nodes0 D c" and ok: "rollout_ok X plan0 nodes0" "labels_ok X" "merge_ok merge"
    and cache: "node_cache (sel_Matches X) (pw_nodeList w) (cl_nodes c)"
    and run: "generating_sync X C True applied (plan_generating_handler X env ctl w) seen (cl_plan c) = Some (seen', es, r, err)"
    and sub: "subseq es' es"
  shows "advances X plan0 c (performs merge c es')"
proof -
  let ?run = "plan_generating_handler X env ctl w (cl_plan c)"
  obtain xs ys where xy: "filter is_write es = xs @ ys"
    "xs = [] \<or> (\<exists>p jobs h. xs = [ApplyObjects p jobs] \<and> ?run = Some (jobs, h) \<and> ho_err h = None)"
    "ys = [] \<or> (\<exists>p. ys = [PlanUpdateStatus p])"
    using generating_sync_writes [OF run] by blast
  have x: "advances X plan0 c (performs merge c us)" if us: "subseq us xs" for us
  proof (cases "us = []")
    case False
    then obtain p jobs h where "us = [ApplyObjects p jobs]" "?run = Some (jobs, h)" "ho_err h = None"
      using us xy(2) subseq_single by fastforce
    then show ?thesis using apply_advances [OF inv ok(1,3) generated_jobs_fit [OF inv ok(1,2) cache]] by simp
  qed simp
  have y: "advances X plan0 (performs merge c us) (performs merge (performs merge c us) vs)"
    if us: "subseq us xs" and vs: "subseq vs ys" for us vs
  proof (cases "vs = []")
    case False
    then obtain p where p: "vs = [PlanUpdateStatus p]" using vs xy(3) subseq_single by fastforce
    have i: "rollout_inv X plan0 nodes0 D (performs merge c (us @ zs))" if "subseq zs ys" for zs
    proof -
      have "subseq (us @ zs) (filter is_write es)" using us that xy(1) by (simp add: list_emb_append_mono)
      then have "subseq (us @ zs) es" by (rule subseq_order.order_trans) (rule subseq_filter_left)
      then show ?thesis by (rule inv_generating [OF inv ok cache run])
    qed
    show ?thesis using status_advances [OF _ _ ok(1)] i [of "[]"] i [OF vs] by (simp add: p del: perform.simps)
  qed simp
  show ?thesis using x y by (intro advances_two_writes [OF xy(1) sub]) blast+
qed

lemma job_event_advances:
  assumes inv: "rollout_inv X plan0 nodes0 D c" and ok: "rollout_ok X plan0 nodes0"
    and j: "j \<in> set (cl_jobs c)" and reads: "reads_from c w"
    and sub: "subseq es' (fst (handleJobs_OnChange X ctl w (Some j)))"
  shows "advances X plan0 c (performs merge c es')"
proof -
  let ?es = "fst (handleJobs_OnChange X ctl w (Some j))"
  have same: "same_rollout (cl_plan c) plan0" and jobs: "distinct (map job_key (cl_jobs c))"
    and len: "int (length (st_Applying (p_Status (cl_plan c)))) \<le> sp_Concurrency (p_Spec plan0)"
    using inv by (simp_all add: rollout_inv_def)
  obtain n where n: "n \<in> set (cl_nodes c)" "own_job X plan0 n j"
    using inv j by (auto simp: rollout_inv_def job_ok_def)
  have step: "advances X plan0 c (performs merge c es')"
    if f: "filter is_write ?es = x # ys" "ys \<in> deletes j" and x: "rollout_inv X plan0 nodes0 D (perform merge c x)" "advances X plan0 c (perform merge c x)" for x ys
  proof (rule advances_two_writes [where xs = "[x]" and ys = ys, OF _ sub])
    show "filter is_write ?es = [x] @ ys" using f(1) by simp
    show "advances X plan0 c (performs merge c us)" if "subseq us [x]" for us
      using subseq_single [OF that] x by auto
    show "advances X plan0 (performs merge c us) (performs merge (performs merge c us) vs)" if us: "subseq us [x]" "subseq vs ys" for us vs
      using subseq_single [OF us(1)] inv x(1) deletes_advance [OF _ ok subseq_deletes [OF us(2) f(2)]] by auto
  qed
  from OnChange_writes [OF n(2,1) same ok reads, of ctl] show ?thesis
  proof cases
    case no_write
    then show ?thesis
      using deletes_advance [OF inv ok] subseq_deletes [OF subseq_filter [OF sub]] by (subst performs_writes) blast
  next
    case (plan_write p ys)
    have "rollout_inv X plan0 nodes0 D (perform merge c (PlanUpdateStatus p))"
      using plan_write len by (intro inv_status [OF inv]) (auto simp: is_applying_def)
    with plan_write show ?thesis by (intro step [OF plan_write(1,4)] status_advances [OF inv _ ok])
  next
    case (node_write n' ys)
    have "\<not> running i" if "i \<in> set (cl_jobs c)" "own_job X plan0 n i" for i
      using own_job_job [OF jobs that(2) n(2) that(1) j] node_write(2) by (simp add: running_def job_finished_def)
    then have i: "rollout_inv X plan0 nodes0 D (perform merge c (NodeUpdate n'))"
      using node_write same_rollout_cong(1) [OF same, of X] by (intro inv_node [OF inv ok n(1)]) auto
    have "completed j" using node_write(2) by (simp add: completed_def)
    then have "advances X plan0 c (perform merge c (NodeUpdate n'))"
      using node_write same_rollout_cong(1) [OF same, of X] by (intro node_advances [OF inv i ok n(1) _ _ _ j n(2)]) auto
    then show ?thesis by (rule step [OF node_write(1,6) i])
  qed
qed

text \<open>Only the progress of a job completes it, and only a running one.\<close>

lemma progress_advances:
  assumes inv: "rollout_inv X plan0 nodes0 D c" and ok: "rollout_ok X plan0 nodes0"
    and c: "cl_jobs c = as @ j # bs" "\<not> job_finished j" "IsTrue cs ConditionComplete \<Longrightarrow> running j"
  shows "allowed (progress_of X plan0 c) (progress_of X plan0 (c\<lparr>cl_jobs := as @ j\<lparr>job_Conditions := cs\<rparr> # bs\<rparr>))"
proof -
  let ?c = "c\<lparr>cl_jobs := as @ j\<lparr>job_Conditions := cs\<rparr> # bs\<rparr>"
  have own: "own_job X plan0 n (j\<lparr>job_Conditions := cs\<rparr>) = own_job X plan0 n j" for n
    by (simp add: own_job_def job_key_def)
  have "has_job X plan0 ?c running n \<Longrightarrow> has_job X plan0 c running n" for n
    using c(1,2) by (auto simp: has_job_def own running_def)
  moreover have "has_job X plan0 ?c completed n \<Longrightarrow> has_job X plan0 c completed n \<or> has_job X plan0 c running n" for n
    using c(1,3) by (auto simp: has_job_def own completed_def)
  ultimately show ?thesis by (fastforce simp: allowed_def progress_of_def)
qed

lemma step_refines:
  assumes "rollout_step X env ctl clusterID merge c c'" and inv: "rollout_inv X plan0 nodes0 D c"
    and ok: "rollout_ok X plan0 nodes0" "labels_ok X" "merge_ok merge"
  shows "contract_steps (sp_Concurrency (p_Spec plan0)) (progress_of X plan0 c) (progress_of X plan0 c') \<and>
    pr_todo (progress_of X plan0 c) - pr_todo (progress_of X plan0 c') \<subseteq> pr_done (progress_of X plan0 c) \<and>
    pr_done (progress_of X plan0 c') - pr_done (progress_of X plan0 c) \<subseteq> pr_busy (progress_of X plan0 c)"
proof -
  have adv: ?thesis if "advances X plan0 c d" "progress_of X plan0 c' = progress_of X plan0 d" for d
    using that by (auto simp: advances_def)
  note inv' = inv_step [OF assms(1) inv ok]
  from assms(1) show ?thesis
  proof cases
    case resolving
    show ?thesis by (rule adv [OF resolving_advances [OF inv ok(1) resolving(2,3,4)]]) (simp_all add: resolving(1))
  next
    case generating
    show ?thesis by (rule adv [OF generating_advances [OF inv ok generating(2,3,4)]]) (simp add: generating(1))
  next
    case job_event
    show ?thesis by (rule adv [OF job_event_advances [OF inv ok(1) job_event(2,3,4)]]) (simp add: job_event(1))
  next
    case restarted
    show ?thesis by (rule adv [OF advances_refl]) (simp add: restarted)
  next
    case (job_progress as j bs cs)
    note a = progress_advances [OF inv ok(1) job_progress(2-4)]
    show ?thesis using refines_by_parts [OF inv inv' ok(1)] a unfolding job_progress(1) by (auto simp: allowed_def)
  next
    case (job_gone as j bs)
    show ?thesis by (rule adv [OF fewer_jobs_advance [OF inv inv' [unfolded job_gone(1)] ok(1)]]) (use job_gone in auto)
  qed
qed

definition contract_start :: "('sel, 'req) extern \<Rightarrow> Plan \<Rightarrow> Node list \<Rightarrow> progress" where
  "contract_start X plan0 nodes0 =
     \<lparr>pr_todo = n_Name ` {n \<in> set nodes0. eligible X plan0 n}, pr_slots = {}, pr_busy = {}, pr_done = {}\<rparr>"

lemma reachable_refines:
  assumes "reachable X env ctl clusterID merge plan0 nodes0 c" and ok: "rollout_ok X plan0 nodes0" "labels_ok X" "merge_ok merge"
  shows "contract_steps (sp_Concurrency (p_Spec plan0)) (contract_start X plan0 nodes0) (progress_of X plan0 c)"
  using assms(1)
proof induction
  case start
  then show ?case by (simp add: contract_start_def progress_of_def has_job_def is_applying_def)
next
  case (step c c')
  then show ?case using step_refines [OF step.hyps(2) reachable_inv [OF step.hyps(1) ok] ok] by auto
qed

text \<open>How a state came about: a completed job ran before, and a node no longer in need had a completed job.\<close>

definition ran_before :: "(cluster \<Rightarrow> bool) \<Rightarrow> (cluster \<Rightarrow> cluster \<Rightarrow> bool) \<Rightarrow> (cluster \<Rightarrow> progress) \<Rightarrow> string \<Rightarrow> cluster \<Rightarrow> bool" where
  "ran_before R step view x c \<longleftrightarrow> (\<exists>c1. R c1 \<and> step\<^sup>*\<^sup>* c1 c \<and> x \<in> pr_busy (view c1))"

definition completed_before :: "(cluster \<Rightarrow> bool) \<Rightarrow> (cluster \<Rightarrow> cluster \<Rightarrow> bool) \<Rightarrow> (cluster \<Rightarrow> progress) \<Rightarrow> string \<Rightarrow> cluster \<Rightarrow> bool" where
  "completed_before R step view x c \<longleftrightarrow> (\<exists>c2. ran_before R step view x c2 \<and> step\<^sup>*\<^sup>* c2 c \<and> x \<in> pr_done (view c2))"

lemma before_step:
  "step c c' \<Longrightarrow> ran_before R step view x c \<Longrightarrow> ran_before R step view x c'"
  "step c c' \<Longrightarrow> completed_before R step view x c \<Longrightarrow> completed_before R step view x c'"
  "R c \<Longrightarrow> step c c' \<Longrightarrow> x \<in> pr_busy (view c) \<Longrightarrow> ran_before R step view x c'"
  "step c c' \<Longrightarrow> ran_before R step view x c \<Longrightarrow> x \<in> pr_done (view c) \<Longrightarrow> completed_before R step view x c'"
  unfolding ran_before_def completed_before_def by (blast intro: rtranclp.rtrancl_into_rtrancl)+

lemma history:
  assumes "reachable X env ctl clusterID merge plan0 nodes0 c" and ok: "rollout_ok X plan0 nodes0" "labels_ok X" "merge_ok merge"
  defines "busied \<equiv> ran_before (reachable X env ctl clusterID merge plan0 nodes0) (rollout_step X env ctl clusterID merge) (progress_of X plan0)"
    and "compl \<equiv> completed_before (reachable X env ctl clusterID merge plan0 nodes0) (rollout_step X env ctl clusterID merge) (progress_of X plan0)"
  shows "(\<forall>x\<in>pr_done (progress_of X plan0 c). busied x c) \<and>
     (\<forall>x\<in>pr_todo (contract_start X plan0 nodes0) - pr_todo (progress_of X plan0 c). compl x c)"
  using assms(1)
proof induction
  case start
  then show ?case by (simp add: progress_of_def contract_start_def has_job_def)
next
  case (step c c')
  have f: "pr_todo (progress_of X plan0 c) - pr_todo (progress_of X plan0 c') \<subseteq> pr_done (progress_of X plan0 c)"
    "pr_done (progress_of X plan0 c') - pr_done (progress_of X plan0 c) \<subseteq> pr_busy (progress_of X plan0 c)"
    using step_refines [OF step.hyps(2) reachable_inv [OF step.hyps(1) ok] ok] by blast+
  have b: "busied x c \<Longrightarrow> busied x c'" "compl x c \<Longrightarrow> compl x c'" "x \<in> pr_busy (progress_of X plan0 c) \<Longrightarrow> busied x c'"
    "busied x c \<Longrightarrow> x \<in> pr_done (progress_of X plan0 c) \<Longrightarrow> compl x c'" for x
    unfolding busied_def compl_def 
    by (rule before_step(1,2,4) [where step = "rollout_step X env ctl clusterID merge", OF step.hyps(2)]
        before_step(3) [where R = "reachable X env ctl clusterID merge plan0 nodes0" and step = "rollout_step X env ctl clusterID merge",
          OF step.hyps]; assumption)+
  show ?case
  proof (intro conjI ballI)
    show "busied x c'" if "x \<in> pr_done (progress_of X plan0 c')" for x
      using that f(2) b(1,3) step.IH by blast
    show "compl x c'" if "x \<in> pr_todo (contract_start X plan0 nodes0) - pr_todo (progress_of X plan0 c')" for x
      using that f(1) b(2,4) step.IH by blast
  qed
qed

lemma progress_job:
  "n_Name n \<in> pr_busy (progress_of X plan0 c) \<Longrightarrow> \<exists>j\<in>set (cl_jobs c). own_job X plan0 n j \<and> running j"
  "n_Name n \<in> pr_done (progress_of X plan0 c) \<Longrightarrow> \<exists>j\<in>set (cl_jobs c). own_job X plan0 n j \<and> completed j"
  by (auto simp: progress_of_def has_job_def own_job_def job_name_on_def)

lemma job_history:
  assumes "reachable X env ctl clusterID merge plan0 nodes0 c" "rollout_ok X plan0 nodes0" "labels_ok X" "merge_ok merge"
    and "n \<in> set nodes0" "eligible X plan0 n" "n_Name n \<notin> pr_todo (progress_of X plan0 c)"
  shows "\<exists>c1 c2 j1 j2. reachable X env ctl clusterID merge plan0 nodes0 c1 \<and>
     (rollout_step X env ctl clusterID merge)\<^sup>*\<^sup>* c1 c2 \<and> (rollout_step X env ctl clusterID merge)\<^sup>*\<^sup>* c2 c \<and>
     j1 \<in> set (cl_jobs c1) \<and> own_job X plan0 n j1 \<and> running j1 \<and>
     j2 \<in> set (cl_jobs c2) \<and> own_job X plan0 n j2 \<and> completed j2"
proof -
  have "n_Name n \<in> pr_todo (contract_start X plan0 nodes0) - pr_todo (progress_of X plan0 c)"
    using assms(5-7) by (auto simp: contract_start_def)
  then obtain c1 c2 where r: "reachable X env ctl clusterID merge plan0 nodes0 c1" "(rollout_step X env ctl clusterID merge)\<^sup>*\<^sup>* c1 c2"
    "(rollout_step X env ctl clusterID merge)\<^sup>*\<^sup>* c2 c" "n_Name n \<in> pr_busy (progress_of X plan0 c1)" "n_Name n \<in> pr_done (progress_of X plan0 c2)"
    using history [OF assms(1-4)] unfolding completed_before_def ran_before_def by blast
  show ?thesis using progress_job(1) [OF r(4)] progress_job(2) [OF r(5)] r(1-3) by fastforce
qed

text \<open>The sample cluster: both nodes are in need, and the rollout completes.\<close>

lemma sample_both_eligible: "eligible sample ready_plan (sample_node ''a'' ''ha'')" "eligible sample ready_plan (sample_node ''b'' ''hb'')"
  using sample_eligible eligible_cong [of ready_plan sample_plan sample] by (simp_all add: ready_plan_def two_nodes_def)

lemma sample_completed:
  obtains c where "sample_reachable c" "\<forall>n\<in>set (cl_nodes c). \<not> eligible sample ready_plan n"
proof -
  obtain c where "(calm_step sample sample_env ''suc'' upsert)\<^sup>*\<^sup>* sample_start c" "\<forall>n\<in>set (cl_nodes c). \<not> eligible sample ready_plan n"
    using calm_completes [OF sample_third_party sample_rollout_ok upsert_ok sample_runs sample_inv [OF sample_start_reachable]
        reachable_versions [OF sample_start_reachable] sample_start_undisturbed] ready_plan_ready(1) by auto
  then show ?thesis using that reachable_calm [OF _ sample_start_reachable] by blast
qed

text \<open>
  C2: a rollout refines its contract. The start of a rollout is the start of the contract, and every step from a reachable state, whatever
  of its writes fail, is a sequence of steps of the contract, in which places are given away only within the
  concurrency and never from under a running job, a job starts only on a node that needs the version and already has a place, and
  a node stops needing the version only while its job is completed.
\<close>

theorem rollout_refines_contract:
  assumes "labels_ok X" "merge_ok merge" "rollout_ok X plan0 nodes0"
    and "reachable X env ctl clusterID merge plan0 nodes0 c"
  shows "contract_steps (sp_Concurrency (p_Spec plan0)) (contract_start X plan0 nodes0) (progress_of X plan0 c) \<and>
     (\<forall>c'. rollout_step X env ctl clusterID merge c c' \<longrightarrow>
        contract_steps (sp_Concurrency (p_Spec plan0)) (progress_of X plan0 c) (progress_of X plan0 c'))"
  using reachable_refines [OF assms(4,3,1,2)] step_refines [OF _ reachable_inv [OF assms(4,3,1,2)] assms(3,1,2)] by blast

text \<open>The whole rollout of the sample cluster, as the contract sees it.\<close>

theorem rollout_refines_contract_witness:
  "\<exists>s. contract_steps 1 \<lparr>pr_todo = {''a'', ''b''}, pr_slots = {}, pr_busy = {}, pr_done = {}\<rparr> s \<and> pr_todo s = {}"
proof -
  obtain c where c: "sample_reachable c" "\<forall>n\<in>set (cl_nodes c). \<not> eligible sample ready_plan n" by (rule sample_completed)
  have "contract_start sample ready_plan two_nodes = \<lparr>pr_todo = {''a'', ''b''}, pr_slots = {}, pr_busy = {}, pr_done = {}\<rparr>"
  proof -
    have "{n \<in> set two_nodes. eligible sample ready_plan n} = set two_nodes" using sample_both_eligible by (auto simp: two_nodes_def)
    then show ?thesis by (simp add: contract_start_def two_nodes_def sample_node_def empty_meta_def)
  qed
  moreover have "sp_Concurrency (p_Spec ready_plan) = 1" by (simp add: ready_plan_spec sample_spec_def)
  moreover have "pr_todo (progress_of sample ready_plan c) = {}" using c(2) by (simp add: progress_of_def)
  ultimately show ?thesis
    using rollout_refines_contract [OF sample_labels_ok upsert_ok sample_rollout_ok c(1)] by auto
qed

text \<open>
  C8: no node is marked as upgraded unless its job did it: when a node that needed the version no longer needs it, then its job
  ran in an earlier state, and was completed in a later one, from which the present state came.
\<close>

theorem upgraded_only_by_its_job:
  assumes "labels_ok X" "merge_ok merge" "rollout_ok X plan0 nodes0"
    and "reachable X env ctl clusterID merge plan0 nodes0 c"
    and "n \<in> set nodes0" "eligible X plan0 n" "m \<in> set (cl_nodes c)" "n_Name m = n_Name n" "\<not> eligible X plan0 m"
  shows "\<exists>c1 c2 j1 j2. reachable X env ctl clusterID merge plan0 nodes0 c1 \<and>
     (rollout_step X env ctl clusterID merge)\<^sup>*\<^sup>* c1 c2 \<and> (rollout_step X env ctl clusterID merge)\<^sup>*\<^sup>* c2 c \<and>
     j1 \<in> set (cl_jobs c1) \<and> own_job X plan0 n j1 \<and> running j1 \<and>
     j2 \<in> set (cl_jobs c2) \<and> own_job X plan0 n j2 \<and> IsTrue (job_Conditions j2) ConditionComplete"
proof -
  have "n_Name m \<notin> pr_todo (progress_of X plan0 c)"
  proof
    assume "n_Name m \<in> pr_todo (progress_of X plan0 c)"
    then obtain x where "x \<in> set (cl_nodes c)" "n_Name x = n_Name m" "eligible X plan0 x" by (auto simp: progress_of_def)
    with assms(7,9) reachable_inv [OF assms(4,3,1,2)] rollout_ok_nodes [OF _ assms(3), of "cl_nodes c"] show False
      by (auto simp: rollout_inv_def rollout_ok_def dest: distinct_map_eq)
  qed
  with assms(8) show ?thesis
    using job_history [OF assms(4,3,1,2,5,6)] by (fastforce simp: completed_def)
qed

theorem upgraded_only_by_its_job_witness:
  "\<exists>c c1 j. sample_reachable c1 \<and> sample_step\<^sup>*\<^sup>* c1 c \<and> (\<forall>n\<in>set (cl_nodes c). \<not> eligible sample ready_plan n) \<and>
     j \<in> set (cl_jobs c1) \<and> own_job sample ready_plan (sample_node ''a'' ''ha'') j \<and> running j"
proof -
  obtain c where c: "sample_reachable c" "\<forall>n\<in>set (cl_nodes c). \<not> eligible sample ready_plan n" by (rule sample_completed)
  let ?n = "sample_node ''a'' ''ha''"
  have "node_ids (cl_nodes c) = node_ids two_nodes" using sample_inv [OF c(1)] by (simp add: rollout_inv_def)
  then obtain m where m: "m \<in> set (cl_nodes c)" "n_Name m = n_Name ?n" by (cases "cl_nodes c") (auto simp: two_nodes_def)
  have "\<not> eligible sample ready_plan m" using c(2) m(1) by blast
  moreover have "?n \<in> set two_nodes" "eligible sample ready_plan ?n" using sample_both_eligible by (simp_all add: two_nodes_def)
  ultimately obtain c1 c2 j where "sample_reachable c1" "sample_step\<^sup>*\<^sup>* c1 c2" "sample_step\<^sup>*\<^sup>* c2 c"
    "j \<in> set (cl_jobs c1)" "own_job sample ready_plan ?n j" "running j"
    using upgraded_only_by_its_job [OF sample_labels_ok upsert_ok sample_rollout_ok c(1) _ _ m] by blast
  with c(2) show ?thesis by (meson rtranclp_trans)
qed

end
