(* ===== verification/Liveness.thy ===== *)
theory Liveness
  imports Lifecycle
begin

text \<open>
  A rollout completes when it is left alone and what it waits for happens: every infinite run of prompt steps in which
  the window opens again and again, no job runs for ever, and the event of a completed job is handled after the delay,
  comes to a complete plan and stays there.
\<close>

subsection \<open>Every infinite run of the contract\<close>

text \<open>
  The argument on the sets of names: if the nodes in need only become fewer, a node keeps its place and its job keeps working or
  stays completed while it is in need, and places are given, jobs started, finished and acknowledged in
  the end, then no node is in need in the end.
\<close>

lemma todo_constant:
  fixes A :: "nat \<Rightarrow> 'a set"
  assumes "\<And>i. A (Suc i) \<subseteq> A i" "finite (A 0)"
  shows "\<exists>i. \<forall>m\<ge>i. A m = A i"
proof -
  have anti: "A m \<subseteq> A i" if "i \<le> m" for i m
    using that by (induction rule: dec_induct) (use assms(1) in auto)
  have fin: "finite (A i)" for i using anti [of 0 i] assms(2) finite_subset by blast
  obtain i where i: "\<And>m. card (A i) \<le> card (A m)"
    using ex_has_least_nat [of "\<lambda>_. True" 0 "\<lambda>i. card (A i)"] by auto
  show ?thesis
    by (rule exI [of _ i]) (use anti i fin in \<open>meson card_seteq\<close>)
qed

lemma all_served:
  fixes p :: "nat \<Rightarrow> progress"
  assumes todo: "\<And>i. pr_todo (p (Suc i)) \<subseteq> pr_todo (p i)" "finite (pr_todo (p 0))"
    and slots: "\<And>i. pr_slots (p i) \<inter> pr_todo (p (Suc i)) \<subseteq> pr_slots (p (Suc i))"
    and work: "\<And>i. pr_slots (p i) \<inter> (pr_busy (p i) \<union> pr_done (p i)) \<inter> pr_todo (p (Suc i)) \<subseteq> pr_busy (p (Suc i)) \<union> pr_done (p (Suc i))"
    and kept: "\<And>i. pr_slots (p i) \<inter> pr_done (p i) \<inter> pr_todo (p (Suc i)) \<subseteq> pr_done (p (Suc i))"
    and given: "\<And>i. \<exists>k\<ge>i. pr_todo (p k) \<noteq> {} \<longrightarrow> pr_todo (p k) \<inter> pr_slots (p k) \<noteq> {}"
    and starts: "\<And>i x. x \<in> pr_todo (p i) \<inter> pr_slots (p i) \<Longrightarrow> \<exists>k\<ge>i. x \<in> pr_todo (p k) \<longrightarrow> x \<in> pr_busy (p k) \<union> pr_done (p k)"
    and finishes: "\<And>i x. x \<in> pr_busy (p i) \<Longrightarrow> \<exists>k\<ge>i. x \<notin> pr_busy (p k)"
    and heard: "\<And>i x. x \<in> pr_done (p i) \<inter> pr_todo (p i) \<Longrightarrow> \<exists>k\<ge>i. x \<notin> pr_done (p k) \<inter> pr_todo (p k)"
  shows "\<exists>i. \<forall>m\<ge>i. pr_todo (p m) = {}"
proof -
  obtain i where i: "\<And>m. i \<le> m \<Longrightarrow> pr_todo (p m) = pr_todo (p i)" using todo_constant [of "\<lambda>i. pr_todo (p i)"] todo by blast
  have keep: "\<forall>m\<ge>k. x \<in> F m" if "i \<le> k" "x \<in> pr_todo (p i)" "x \<in> F k"
    "\<And>m. k \<le> m \<Longrightarrow> x \<in> F m \<Longrightarrow> x \<in> pr_todo (p (Suc m)) \<Longrightarrow> x \<in> F (Suc m)" for F k x
  proof (intro allI impI)
    fix m assume "k \<le> m"
    then show "x \<in> F m"
    proof (induction rule: dec_induct)
      case (step m)
      have "pr_todo (p (Suc m)) = pr_todo (p i)" using step.hyps(1) that(1) by (intro i) simp
      then show ?case using that(2,4) step.hyps(1) step.IH by blast
    qed (rule that(3))
  qed
  have "pr_todo (p i) = {}"
  proof (rule ccontr)
    assume ne: "pr_todo (p i) \<noteq> {}"
    obtain k x where k: "i \<le> k" and x: "x \<in> pr_todo (p k)" "x \<in> pr_slots (p k)" using given [of i] i ne by blast
    have T: "x \<in> pr_todo (p m)" if "i \<le> m" for m using i [OF that] i [OF k] x(1) by simp
    have S: "\<forall>m\<ge>k. x \<in> pr_slots (p m)" by (rule keep [OF k]) (use T x(2) slots in auto)
    obtain l where l: "k \<le> l" "x \<in> pr_busy (p l) \<union> pr_done (p l)" using starts [of x k] x T k by (meson IntI le_trans)
    have W: "\<forall>m\<ge>l. x \<in> pr_busy (p m) \<union> pr_done (p m)"
    proof (rule keep [where F = "\<lambda>m. pr_busy (p m) \<union> pr_done (p m)"])
      show "x \<in> pr_busy (p (Suc m)) \<union> pr_done (p (Suc m))"
        if "l \<le> m" "x \<in> pr_busy (p m) \<union> pr_done (p m)" "x \<in> pr_todo (p (Suc m))" for m
      proof -
        have "x \<in> pr_slots (p m)" using S l(1) that(1) by simp
        with work [of m] that(2,3) show ?thesis by blast
      qed
    qed (use l k T in auto)
    obtain r where r: "l \<le> r" "x \<in> pr_done (p r)"
    proof (cases "x \<in> pr_busy (p l)")
      case True
      then obtain r where "l \<le> r" "x \<notin> pr_busy (p r)" using finishes by blast
      then show ?thesis using that W by blast
    qed (use l(2) that [of l] in auto)
    have D: "\<forall>m\<ge>r. x \<in> pr_done (p m)" 
    proof (rule keep [where F = "\<lambda>m. pr_done (p m)"])
      show "x \<in> pr_done (p (Suc m))" if "r \<le> m" "x \<in> pr_done (p m)" "x \<in> pr_todo (p (Suc m))" for m
      proof -
        have "x \<in> pr_slots (p m)" using S l(1) r(1) that(1) by simp
        with kept [of m] that(2,3) show ?thesis by blast
      qed
    qed (use l k r T in auto)
    obtain q where "r \<le> q" "x \<notin> pr_done (p q) \<inter> pr_todo (p q)" using heard [of x r] r(2) T l(1) r(1) k by auto
    then show False using D T k l(1) r(1) by auto
  qed
  then have "\<forall>m\<ge>i. pr_todo (p m) = {}" using i by blast
  then show ?thesis by blast
qed


subsection \<open>States on course\<close>

text \<open>
  The binary search of the job handler looks for the name of a node in a list of hostnames, so a rollout can only run
  undisturbed where the two agree.
\<close>

abbreviation hostnames_are_names :: "Node list \<Rightarrow> bool" where
  "hostnames_are_names nodes \<equiv> \<forall>n\<in>set nodes. Hostname n = n_Name n"

text \<open>An apply also enforces the time to live of the generated jobs.\<close>

definition merge_ttl_ok :: "apply_jobs \<Rightarrow> bool" where
  "merge_ttl_ok merge \<longleftrightarrow> (\<forall>old new. distinct (map job_key old) \<and> distinct (map job_key new) \<longrightarrow>
     (\<forall>d\<in>set new. \<exists>j\<in>set (merge old new). job_key j = job_key d \<and>
        js_TTLSecondsAfterFinished (job_Spec j) = js_TTLSecondsAfterFinished (job_Spec d)))"

lemma upsert_ttl_ok: "merge_ttl_ok upsert"
  unfolding merge_ttl_ok_def upsert_def
proof (intro allI impI ballI)
  fix old new :: "Job list" and d assume "d \<in> set new"
  then show "\<exists>j\<in>set (filter (\<lambda>j. job_key j \<notin> job_key ` set new) old @
      map (\<lambda>d. d\<lparr>job_Conditions := (case List.find (\<lambda>i. job_key i = job_key d) old of None \<Rightarrow> [] | Some i \<Rightarrow> job_Conditions i)\<rparr>) new).
     job_key j = job_key d \<and> js_TTLSecondsAfterFinished (job_Spec j) = js_TTLSecondsAfterFinished (job_Spec d)"
    by (intro bexI [of _ "d\<lparr>job_Conditions := (case List.find (\<lambda>i. job_key i = job_key d) old of None \<Rightarrow> [] | Some i \<Rightarrow> job_Conditions i)\<rparr>"])
      (simp_all add: job_key_def)
qed

text \<open>The job is as generated for the node in this version of the plan.\<close>

definition built_for :: "('sel, 'req) extern \<Rightarrow> environ \<Rightarrow> string \<Rightarrow> Plan \<Rightarrow> cluster \<Rightarrow> string \<Rightarrow> Job \<Rightarrow> bool" where
  "built_for X env ctl plan0 c name j \<longleftrightarrow> (\<exists>p n0 d. n_Name n0 = name \<and> same_rollout p plan0 \<and>
     st_LatestVersion (p_Status p) = st_LatestVersion (p_Status (cl_plan c)) \<and> job_New X env p n0 ctl = Some d \<and> enforced d j \<and>
     js_TTLSecondsAfterFinished (job_Spec j) = js_TTLSecondsAfterFinished (job_Spec d))"

text \<open>
  Jobs end by completing, those of the nodes in need are as generated, and every node in need that has a
  place has a job that runs or is completed, unless this version of the plan is still to be applied.
\<close>

definition on_course :: "('sel, 'req) extern \<Rightarrow> environ \<Rightarrow> string \<Rightarrow> Plan \<Rightarrow> cluster \<Rightarrow> bool" where
  "on_course X env ctl plan0 c \<longleftrightarrow> sorted (st_Applying (p_Status (cl_plan c))) \<and>
     (\<forall>j\<in>set (cl_jobs c). job_finished j \<longrightarrow> (\<exists>t. t \<noteq> 0 \<and> job_Conditions j = [finished ConditionComplete t])) \<and>
     (\<forall>n\<in>set (cl_nodes c). eligible X plan0 n \<longrightarrow>
        (\<forall>j\<in>set (cl_jobs c). own_job X plan0 n j \<longrightarrow> built_for X env ctl plan0 c (n_Name n) j)) \<and>
     (fresh c \<or> pr_todo (progress_of X plan0 c) \<inter> pr_slots (progress_of X plan0 c) \<subseteq>
        pr_busy (progress_of X plan0 c) \<union> pr_done (progress_of X plan0 c))"

lemma progress_simps:
  "x \<in> pr_todo (progress_of X plan0 c) \<longleftrightarrow> (\<exists>n\<in>set (cl_nodes c). n_Name n = x \<and> eligible X plan0 n)"
  "x \<in> pr_slots (progress_of X plan0 c) \<longleftrightarrow> (\<exists>n\<in>set (cl_nodes c). n_Name n = x \<and> is_applying (cl_plan c) n)"
  "x \<in> pr_busy (progress_of X plan0 c) \<longleftrightarrow> (\<exists>n\<in>set (cl_nodes c). n_Name n = x \<and> (\<exists>j\<in>set (cl_jobs c). own_job X plan0 n j \<and> running j))"
  "x \<in> pr_done (progress_of X plan0 c) \<longleftrightarrow> (\<exists>n\<in>set (cl_nodes c). n_Name n = x \<and> (\<exists>j\<in>set (cl_jobs c). own_job X plan0 n j \<and> completed j))"
  by (auto simp: progress_of_def has_job_def)

subsection \<open>The event of a job\<close>

lemma built_current:
  assumes X: "controller_selector_ok X" and b: "built_for X env ctl plan0 c (n_Name n) j" and pl: "plain_elem (p_Name plan0)"
    and same: "same_rollout (cl_plan c) plan0" and own: "own_job X plan0 n j" and reads: "reads_from c w" and n: "n \<in> set (cl_nodes c)"
  shows "current_job X ctl w j (cl_plan c) (p_Name plan0) (n_Name n) n"
proof -
  obtain p n0 d where p: "n_Name n0 = n_Name n" "same_rollout p plan0"
    "st_LatestVersion (p_Status p) = st_LatestVersion (p_Status (cl_plan c))" "job_New X env p n0 ctl = Some d" "enforced d j"
    using b unfolding built_for_def by blast
  have pl': "plain_elem (p_Name p)" using pl p(2) by (simp add: same_rollout_def)
  have l: "mget (job_Labels j) k = Some v" if "job_labels p n0 ctl k = Some v" for k v
    using p(5) that job_New_fields(1) [OF p(4)] by (simp add: enforced_def)
  note labels = l [OF job_labels_reserved(1) [OF pl']] l [OF job_labels_reserved(5) [OF pl']]
  have own': "mget (job_Labels j) LabelPlan = Some (p_Name plan0)" "mget (job_Labels j) LabelNode = Some (n_Name n)"
    "job_Namespace j = p_Namespace plan0"
    using own by (simp_all add: own_job_def job_key_def)
  show ?thesis
    using labels own' p(3) same reads n
    by (cases "job_Labels j") (simp_all add: current_job_def controller_selector [OF X] reads_from_def same_rollout_def)
qed

lemma ttl_not_expired:
  assumes "job_New X env p n0 ctl = Some d" "js_TTLSecondsAfterFinished (job_Spec j) = js_TTLSecondsAfterFinished (job_Spec d)"
    and fits: "\<And>delay. sp_PostCompleteDelay (p_Spec p) = Some delay \<Longrightarrow> delay_fits delay"
    and early: "time_Sub (now w) t < post_delay p" and clock: "t \<le> now w" "now w \<le> now_ttl w" "now_ttl w - now w \<le> Minute - Second"
  shows "filter is_write (fst (enqueueOrDelete w j t)) = []"
proof -
  have "0 \<le> time_Sub (now w) t" using clock(1) by (simp add: time_Sub_def)
  with early obtain delay where delay: "sp_PostCompleteDelay (p_Spec p) = Some delay" "post_delay p = delay"
    by (auto simp: post_delay_def split: option.splits)
  have df: "delay_fits delay" by (rule fits [OF delay(1)])
  note ttl = job_ttl_bounds [OF delay(1) df, where X = X and env = env]
  have wrap: "wrap64 (Second * job_ttl X env p) = Second * job_ttl X env p"
    using ttl(2) by (intro wrap64_id) (simp add: int32_iff int64_iff)
  have "(delay + Minute) div Second * Second > delay + Minute - Second"
    using div_mult_mod_eq [of "delay + Minute" Second] pos_mod_bound [of Second "delay + Minute"] by linarith
  then have big: "delay + Minute - Second < Second * job_ttl X env p"
    using mult_right_mono [OF ttl(1), of Second] by (simp add: mult.commute)
  have i: "delay < 2 ^ 63" using delay_fits_int64 [OF df] by (simp add: int64_iff)
  have "now w - t < delay" using early delay(2) i by (auto simp: time_Sub_def)
  then have "time_Sub (now_ttl w) t < Second * job_ttl X env p"
    using clock big by (simp add: time_Sub_def)
  moreover have "job_ttl_duration j = Some (Second * job_ttl X env p)"
    using assms(2) job_New_fields(6) [OF assms(1)] wrap by (simp add: job_ttl_duration_def)
  ultimately show ?thesis by (simp add: enqueueOrDelete_def)
qed


lemma hostname_kept: "n \<in> set nodes \<Longrightarrow> node_ids nodes = node_ids nodes0 \<Longrightarrow> hostnames_are_names nodes0 \<Longrightarrow> Hostname n = n_Name n"
proof -
  assume a: "n \<in> set nodes" "node_ids nodes = node_ids nodes0" "hostnames_are_names nodes0"
  then have "(n_Name n, Hostname n) \<in> set (node_ids nodes0)" by (metis (mono_tags, lifting) image_eqI list.set_map)
  with a(3) show ?thesis by auto
qed

text \<open>
  What the event of a job does on course: it may update the node of the job and delete the job, but not while the node is in need and the
  job runs or is completed; and once the delay since the completion has passed, the node is no longer in need.
\<close>

lemma event_outcome:
  assumes X: "controller_selector_ok X" and ok: "rollout_ok X plan0 nodes0" "hostnames_are_names nodes0"
    and fits: "\<And>delay. sp_PostCompleteDelay (p_Spec plan0) = Some delay \<Longrightarrow> delay_fits delay"
    and inv: "rollout_inv X plan0 nodes0 D c" and course: "on_course X env ctl plan0 c"
    and j: "j \<in> set (cl_jobs c)" and n: "n \<in> set (cl_nodes c)" "own_job X plan0 n j" and reads: "reads_from c w"
    and w: "nodes_Update w = Inr" "now w \<le> now_ttl w" "now_ttl w - now w \<le> Minute - Second"
      "IsTrue (job_Conditions j) ConditionComplete \<Longrightarrow> completion_time j \<le> now w"
  obtains n' js where
    "performs merge c (fst (handleJobs_OnChange X ctl w (Some j))) =
       c\<lparr>cl_nodes := map (\<lambda>m. if n_Name m = n_Name n then n' else m) (cl_nodes c), cl_jobs := js\<rparr>"
    "n_Name n' = n_Name n" "Hostname n' = Hostname n" "eligible X plan0 n' \<longrightarrow> eligible X plan0 n"
    "js = cl_jobs c \<or> (js = filter (\<lambda>i. job_key i \<noteq> job_key j) (cl_jobs c) \<and> (eligible X plan0 n' \<longrightarrow> \<not> running j \<and> \<not> completed j))"
    "eligible X plan0 n' \<and> completed j \<longrightarrow> \<not> post_delay (cl_plan c) \<le> time_Sub (now w) (completion_time j)"
proof -
  let ?es = "fst (handleJobs_OnChange X ctl w (Some j))"
  have same: "same_rollout (cl_plan c) plan0" and ids: "node_ids (cl_nodes c) = node_ids nodes0" and keys: "distinct (map job_key (cl_jobs c))"
    using inv by (simp_all add: rollout_inv_def)
  note nodes = rollout_ok_nodes [OF ids ok(1)]
  have names: "distinct (map n_Name (cl_nodes c))" using nodes by (simp add: rollout_ok_def)
  note el = same_rollout_cong(1) [OF same, of X]
  have no_fail: "\<not> IsTrue (job_Conditions j) ConditionFailed"
    using course j by (auto simp: on_course_def job_finished_def finished_reads conditions_distinct)
  let ?upd = "\<lambda>n'. map (\<lambda>m. if n_Name m = n_Name n then n' else m) (cl_nodes c)" and ?rest = "filter (\<lambda>i. job_key i \<noteq> job_key j) (cl_jobs c)"
  have id: "?upd n = cl_nodes c" by (rule map_idI) (use distinct_map_eq [OF names _ n(1)] in auto)
  have del: "\<exists>js. performs merge (c\<lparr>cl_nodes := ns\<rparr>) ys = c\<lparr>cl_nodes := ns, cl_jobs := js\<rparr> \<and> (js = cl_jobs c \<or> js = ?rest \<and> ys \<noteq> [])"
    if "ys \<in> deletes j" for ys ns
    using that by (auto simp: deletes_def job_key_def)
  have upd: "\<exists>js. performs merge c ?es = c\<lparr>cl_nodes := ?upd n', cl_jobs := js\<rparr> \<and> (js = cl_jobs c \<or> js = ?rest \<and> ys \<noteq> [])"
    if u: "filter is_write ?es = NodeUpdate n' # ys" "ys \<in> deletes j" "n_Name n' = n_Name n" for n' ys
    using del [OF u(2), of "?upd n'"] u(3) by (subst performs_writes) (simp add: u(1))
  show ?thesis
  proof (cases "eligible X plan0 n \<and> (running j \<or> completed j)")
    case False
    from OnChange_writes [OF n(2,1) same ok(1) reads, of ctl] show ?thesis
    proof cases
      case no_write
      have "performs merge c ?es = performs merge (c\<lparr>cl_nodes := cl_nodes c\<rparr>) (filter is_write ?es)"
        by (subst performs_writes) simp
      with del [OF no_write, of "cl_nodes c"] obtain js where
        "performs merge c ?es = c\<lparr>cl_nodes := cl_nodes c, cl_jobs := js\<rparr>" "js = cl_jobs c \<or> js = ?rest"
        by (elim exE conjE) (simp only:, blast)
      with id False show ?thesis by (intro that [of js n]) auto
    next
      case (plan_write p ys)
      then have "PlanUpdateStatus p \<in> set (filter is_write ?es)" by simp
      then show ?thesis using OnChange_plan_write [of p X ctl w j] no_fail by simp
    next
      case (node_write n' ys)
      obtain js where "performs merge c ?es = c\<lparr>cl_nodes := ?upd n', cl_jobs := js\<rparr>" "js = cl_jobs c \<or> js = ?rest"
        using upd [OF node_write(1,6,3)] by blast
      with node_write(3,4,5) False show ?thesis by (intro that [of js n']) (auto simp: el)
    qed
  next
    case True
    then have b: "built_for X env ctl plan0 c (n_Name n) j" using course j n by (simp add: on_course_def)
    have pl: "plain_elem (p_Name plan0)" using ok(1) by (simp add: rollout_ok_def)
    note run = current_job_OnChange [OF built_current [OF X b pl same n(2) reads n(1)]]
    show ?thesis
    proof (cases "running j")
      case True
      then obtain x where x: "x \<in> set (cl_nodes c)" "own_job X plan0 x j" "is_applying (cl_plan c) x"
        using inv j by (auto simp: rollout_inv_def job_ok_def)
      have "x = n" by (rule own_job_node [OF nodes x(2) n(2) x(1) n(1)])
      moreover have "Hostname n = n_Name n" using n(1) ids ok(2) by (rule hostname_kept)
      ultimately have "\<not> out_of_turn (st_Applying (p_Status (cl_plan c))) (n_Name n)"
        using x(3) course by (simp add: out_of_turn_sorted on_course_def is_applying_def)
      then have "?es = [PlanEnqueue (job_Namespace j) (p_Name plan0)]"
        using True no_fail by (simp add: run handle_unfinished_def running_def job_finished_def)
      then have "performs merge c ?es = c" by simp
      moreover have "\<not> completed j" using True by (simp add: running_def job_finished_def completed_def)
      ultimately show ?thesis using id by (intro that [of "cl_jobs c" n]) simp_all
    next
      case False
      with \<open>eligible X plan0 n \<and> (running j \<or> completed j)\<close> have comp: "completed j" "eligible X plan0 n" by simp_all
      then obtain t where t: "t \<noteq> 0" "job_Conditions j = [finished ConditionComplete t]"
        using course j by (auto simp: on_course_def job_finished_def completed_def)
      have ct: "completion_time j = t" "IsTrue (job_Conditions j) ConditionComplete" by (simp_all add: t(2) finished_reads)
      have hash: "mget (job_Labels j) (LabelPlanName (p_Name plan0)) = Some (st_LatestHash (p_Status plan0))"
        using n(2) by (simp add: own_job_def)
      obtain m where m: "n_Labels n = Some m" using comp(2) by (cases "n_Labels n") (auto simp: eligible_def)
      let ?complete = "handle_complete X w j (cl_plan c) (p_Name plan0) n"
      have es: "filter is_write ?es = filter is_write (fst ?complete)"
        using no_fail ct(2) by (simp add: run split_beta)
      show ?thesis
      proof (cases "post_delay (cl_plan c) \<le> time_Sub (now w) t")
        case due: True
        let ?l = "labelled_node X (cl_plan c) (p_Name plan0) (st_LatestHash (p_Status plan0)) m n"
        have "updated_nodes (fst ?complete) = [?l]"
          using handle_complete_labels(1) [OF ct(1) _ hash due m] t(1) by (simp add: IsZero_def)
        then have "NodeUpdate ?l \<in> set (filter is_write ?es)" unfolding es by (simp add: updated_node_effect)
        from OnChange_writes [OF n(2,1) same ok(1) reads, of ctl] job_writes_node [OF _ this]
        obtain ys where ys: "filter is_write ?es = NodeUpdate ?l # ys" "ys \<in> deletes j" by blast
        have l: "n_Name ?l = n_Name n" "\<not> eligible X plan0 ?l" by (simp_all add: labelled_node_def eligible_def)
        have "mget (sp_PostCompleteLabels (p_Spec (cl_plan c))) LabelHostname = None"
          using ok(1) same by (simp add: rollout_ok_def same_rollout_def)
        then have "Hostname ?l = Hostname n"
          using m LabelPlanName_distinct(6) [OF pl] by (intro Hostname_cong) (simp_all add: labelled_node_def mrange_into_def)
        moreover obtain js where "performs merge c ?es = c\<lparr>cl_nodes := ?upd ?l, cl_jobs := js\<rparr>" "js = cl_jobs c \<or> js = ?rest"
          using upd [OF ys l(1)] by blast
        ultimately show ?thesis using l by (intro that [of js ?l]) auto
      next
        case waits: False
        obtain p n0 d where p: "same_rollout p plan0" "job_New X env p n0 ctl = Some d"
          "js_TTLSecondsAfterFinished (job_Spec j) = js_TTLSecondsAfterFinished (job_Spec d)"
          using b unfolding built_for_def by blast
        have "sp_PostCompleteDelay (p_Spec p) = Some delay \<Longrightarrow> delay_fits delay" for delay
          using fits p(1) by (simp add: same_rollout_def)
        moreover have "post_delay p = post_delay (cl_plan c)" using p(1) same by (simp add: same_rollout_def post_delay_def)
        ultimately have ttl: "filter is_write (fst (enqueueOrDelete w j t)) = []"
          using ttl_not_expired [OF p(2,3), of w t] waits w(2-4) ct by simp
        let ?u = "uncordon (cl_plan c) n"
        have "filter is_write ?es = NodeUpdate ?u # []"
          using ttl waits w(1) t(1) hash by (simp add: es handle_complete_def ct(1) IsZero_def Let_def split_beta)
        from upd [OF this] have "performs merge c ?es = c\<lparr>cl_nodes := ?upd ?u, cl_jobs := cl_jobs c\<rparr>" by auto
        moreover have "Hostname ?u = Hostname n" by (rule Hostname_cong) simp_all
        ultimately show ?thesis using waits comp(2) by (intro that [of "cl_jobs c" ?u]) (simp_all add: ct(1))
      qed
    qed
  qed
qed


subsection \<open>What a step keeps\<close>

text \<open>The state stays on course, no node comes to be in need, and a node in need keeps its place, its work and its completed job.\<close>

definition goes_on :: "('sel, 'req) extern \<Rightarrow> environ \<Rightarrow> string \<Rightarrow> Plan \<Rightarrow> cluster \<Rightarrow> cluster \<Rightarrow> bool" where
  "goes_on X env ctl plan0 c c' \<longleftrightarrow> on_course X env ctl plan0 c' \<and> plan_ready (cl_plan c') \<and>
     (let s = progress_of X plan0 c; t = progress_of X plan0 c'
      in pr_todo t \<subseteq> pr_todo s \<and> pr_slots s \<inter> pr_todo t \<subseteq> pr_slots t \<and>
         pr_slots s \<inter> (pr_busy s \<union> pr_done s) \<inter> pr_todo t \<subseteq> pr_busy t \<union> pr_done t \<and> pr_slots s \<inter> pr_done s \<inter> pr_todo t \<subseteq> pr_done t)"

lemma own_job_name: "n_Name m = n_Name n \<Longrightarrow> own_job X plan m = own_job X plan n"
  by (simp add: own_job_def job_name_on_def fun_eq_iff)

lemma quiet_step:
  assumes course: "on_course X env ctl plan0 c" and ready: "plan_ready (cl_plan c)"
    and c': "c' = c\<lparr>cl_nodes := ns, cl_jobs := js\<rparr>" and ids: "node_ids ns = node_ids (cl_nodes c)"
    and el: "\<And>m. m \<in> set ns \<Longrightarrow> eligible X plan0 m \<Longrightarrow> \<exists>n\<in>set (cl_nodes c). n_Name n = n_Name m \<and> eligible X plan0 n"
    and old: "\<And>i. i \<in> set js \<Longrightarrow> \<exists>k\<in>set (cl_jobs c). i = k\<lparr>job_Conditions := job_Conditions i\<rparr>"
    and form: "\<And>i. i \<in> set js \<Longrightarrow> job_finished i \<Longrightarrow> \<exists>t. t \<noteq> 0 \<and> job_Conditions i = [finished ConditionComplete t]"
    and work: "\<And>m i. m \<in> set ns \<Longrightarrow> eligible X plan0 m \<Longrightarrow> i \<in> set (cl_jobs c) \<Longrightarrow> own_job X plan0 m i \<Longrightarrow> running i \<or> completed i \<Longrightarrow>
       \<exists>k\<in>set js. own_job X plan0 m k \<and> (running k \<or> completed k) \<and> (completed i \<longrightarrow> completed k)"
  shows "goes_on X env ctl plan0 c c'"
proof -
  let ?s = "progress_of X plan0 c" and ?t = "progress_of X plan0 c'"
  have todo: "pr_todo ?t \<subseteq> pr_todo ?s" using el by (fastforce simp: progress_simps c')
  have slots: "pr_slots ?t = pr_slots ?s"
  proof -
    have eq: "pr_slots (progress_of X plan0 d) = {x. \<exists>h. (x, h) \<in> set (node_ids (cl_nodes d)) \<and> h \<in> set (st_Applying (p_Status (cl_plan d)))}" for d
      by (fastforce simp: progress_of_def is_applying_def)
    show ?thesis using ids by (simp only: eq c') simp
  qed
  have kept: "x \<in> pr_busy ?t \<union> pr_done ?t" "x \<in> pr_done ?s \<Longrightarrow> x \<in> pr_done ?t"
    if x: "x \<in> pr_busy ?s \<union> pr_done ?s" "x \<in> pr_todo ?t" for x
  proof -
    obtain m where m: "m \<in> set ns" "n_Name m = x" "eligible X plan0 m" using x(2) by (auto simp: progress_simps c')
    have work': "\<exists>k\<in>set js. own_job X plan0 m k \<and> (running k \<or> completed k) \<and> (completed i \<longrightarrow> completed k)"
      if "n_Name n = x" "i \<in> set (cl_jobs c)" "own_job X plan0 n i" "running i \<or> completed i" for n i
      using work [OF m(1,3) that(2)] that own_job_name [of m n X plan0] m(2) by simp
    show "x \<in> pr_busy ?t \<union> pr_done ?t"
      using x(1) work' m by (simp add: progress_simps c') blast
    show "x \<in> pr_done ?t" if "x \<in> pr_done ?s"
      using that work' m by (simp add: progress_simps c') blast
  qed
  have "\<exists>n\<in>set (cl_nodes c). eligible X plan0 n \<and> n_Name n = n_Name m \<and> (\<forall>i. own_job X plan0 n i = own_job X plan0 m i)"
    if "m \<in> set ns" "eligible X plan0 m" for m
    using el [OF that] own_job_name by metis
  moreover have "own_job X plan0 n i \<longleftrightarrow> own_job X plan0 n (i\<lparr>job_Conditions := cs\<rparr>)"
    "built_for X env ctl plan0 c x i \<longleftrightarrow> built_for X env ctl plan0 c' x (i\<lparr>job_Conditions := cs\<rparr>)" for n x i cs
    by (simp_all add: own_job_def built_for_def enforced_def job_key_def c')
  ultimately have built: "built_for X env ctl plan0 c' (n_Name m) i"
    if "m \<in> set ns" "eligible X plan0 m" "i \<in> set js" "own_job X plan0 m i" for m i
    using course old [OF that(3)] that unfolding on_course_def by metis
  have "fresh c' = fresh c" by (simp add: fresh_def c')
  then have "fresh c' \<or> pr_todo ?t \<inter> pr_slots ?t \<subseteq> pr_busy ?t \<union> pr_done ?t"
    using course todo slots kept(1) unfolding on_course_def by blast
  with course form built have "on_course X env ctl plan0 c'" by (simp add: on_course_def c')
  moreover have "plan_ready (cl_plan c')" using ready by (simp add: c')
  ultimately show ?thesis using todo slots kept unfolding goes_on_def Let_def by blast
qed

lemma completion_goes_on:
  assumes "on_course X env ctl plan0 c" "plan_ready (cl_plan c)" "cl_jobs c = as @ j # bs" "running j" "t \<noteq> 0"
  shows "goes_on X env ctl plan0 c (c\<lparr>cl_jobs := as @ j\<lparr>job_Conditions := [finished ConditionComplete t]\<rparr> # bs\<rparr>)"
proof -
  let ?j = "j\<lparr>job_Conditions := [finished ConditionComplete t]\<rparr>"
  have j: "completed ?j" "\<not> completed j" "own_job X plan0 n ?j = own_job X plan0 n j" for n
    using assms(4) by (simp_all add: completed_def running_def job_finished_def finished_reads own_job_def job_key_def)
  show ?thesis
  proof (rule quiet_step [OF assms(1,2), where ns = "cl_nodes c" and js = "as @ ?j # bs"])
    show "\<exists>k\<in>set (cl_jobs c). i = k\<lparr>job_Conditions := job_Conditions i\<rparr>" if "i \<in> set (as @ ?j # bs)" for i
      using that assms(3) by (intro bexI [of _ "if i = ?j then j else i"]) (auto split: if_splits)
    show "\<exists>t. t \<noteq> 0 \<and> job_Conditions i = [finished ConditionComplete t]" if "i \<in> set (as @ ?j # bs)" "job_finished i" for i
      using that assms(1,3,5) by (cases "i = ?j") (auto simp: on_course_def)
    show "\<exists>k\<in>set (as @ ?j # bs). own_job X plan0 m k \<and> (running k \<or> completed k) \<and> (completed i \<longrightarrow> completed k)"
      if "i \<in> set (cl_jobs c)" "own_job X plan0 m i" "running i \<or> completed i" for m i
      using that assms(3) j by (intro bexI [of _ "if i = j then ?j else i"]) (auto split: if_splits)
  qed (auto intro: bexI)
qed

lemma event_goes_on:
  fixes merge :: apply_jobs and rv :: string
  assumes X: "controller_selector_ok X" and ok: "rollout_ok X plan0 nodes0" "hostnames_are_names nodes0"
    and fits: "\<And>delay. sp_PostCompleteDelay (p_Spec plan0) = Some delay \<Longrightarrow> delay_fits delay"
    and inv: "rollout_inv X plan0 nodes0 D c" and course: "on_course X env ctl plan0 c" and ready: "plan_ready (cl_plan c)"
    and j: "j \<in> set (cl_jobs c)" and reads: "reads_from c w"
    and w: "nodes_Update w = Inr" "now w \<le> now_ttl w" "now_ttl w - now w \<le> Minute - Second"
      "IsTrue (job_Conditions j) ConditionComplete \<Longrightarrow> completion_time j \<le> now w"
  defines "c' \<equiv> stored c rv (performs merge c (fst (handleJobs_OnChange X ctl w (Some j))))"
  shows "goes_on X env ctl plan0 c c'" "cl_plan c' = cl_plan c"
    "completed j \<and> post_delay (cl_plan c) \<le> time_Sub (now w) (completion_time j) \<and> mget (job_Labels j) LabelNode = Some x \<Longrightarrow>
       x \<notin> pr_todo (progress_of X plan0 c')"
proof -
  have keys: "distinct (map job_key (cl_jobs c))" and ids: "node_ids (cl_nodes c) = node_ids nodes0" using inv by (simp_all add: rollout_inv_def)
  obtain n where n: "n \<in> set (cl_nodes c)" "own_job X plan0 n j" using inv j by (auto simp: rollout_inv_def job_ok_def)
  let ?upd = "\<lambda>n'. map (\<lambda>m. if n_Name m = n_Name n then n' else m) (cl_nodes c)"
  obtain n' js where o: "performs merge c (fst (handleJobs_OnChange X ctl w (Some j))) = c\<lparr>cl_nodes := ?upd n', cl_jobs := js\<rparr>"
    "n_Name n' = n_Name n" "Hostname n' = Hostname n" "eligible X plan0 n' \<longrightarrow> eligible X plan0 n"
    "js = cl_jobs c \<or> (js = filter (\<lambda>i. job_key i \<noteq> job_key j) (cl_jobs c) \<and> (eligible X plan0 n' \<longrightarrow> \<not> running j \<and> \<not> completed j))"
    "eligible X plan0 n' \<and> completed j \<longrightarrow> \<not> post_delay (cl_plan c) \<le> time_Sub (now w) (completion_time j)"
    by (rule event_outcome [OF X ok fits inv course j n reads w])
  have c': "c' = c\<lparr>cl_nodes := ?upd n', cl_jobs := js\<rparr>" by (simp add: c'_def o(1) stored_def)
  have same_node: "m = n" if "m \<in> set (cl_nodes c)" "n_Name m = n_Name n" for m
    using distinct_map_eq [OF _ that(1) n(1) that(2)] rollout_ok_nodes [OF ids ok(1)] by (simp add: rollout_ok_def)
  show "goes_on X env ctl plan0 c c'"
  proof (rule quiet_step [OF course ready c'])
    show "node_ids (?upd n') = node_ids (cl_nodes c)" using o(2,3) same_node by auto
    show "\<exists>n\<in>set (cl_nodes c). n_Name n = n_Name m \<and> eligible X plan0 n" if "m \<in> set (?upd n')" "eligible X plan0 m" for m
      using that o(2,4) n(1) by (auto split: if_splits)
    show "\<exists>k\<in>set (cl_jobs c). i = k\<lparr>job_Conditions := job_Conditions i\<rparr>" if "i \<in> set js" for i
      using that o(5) by (intro bexI [of _ i]) auto
    show "\<exists>t. t \<noteq> 0 \<and> job_Conditions i = [finished ConditionComplete t]" if "i \<in> set js" "job_finished i" for i
      using that o(5) course by (auto simp: on_course_def)
    show "\<exists>k\<in>set js. own_job X plan0 m k \<and> (running k \<or> completed k) \<and> (completed i \<longrightarrow> completed k)"
      if m: "m \<in> set (?upd n')" "eligible X plan0 m" and i: "i \<in> set (cl_jobs c)" "own_job X plan0 m i" "running i \<or> completed i" for m i
    proof -
      have "i \<in> set js"
      proof (rule ccontr)
        assume "i \<notin> set js"
        then have "js \<noteq> cl_jobs c" "job_key i = job_key j" using o(5) i(1) by auto
        then have "i = j" using distinct_map_eq [OF keys i(1) j] by simp
        then have "n_Name m = n_Name n" using i(2) n(2) by (simp add: own_job_def)
        then have "m = n'" using m(1) o(2) by auto
        with m(2) o(5) i(3) \<open>i = j\<close> \<open>js \<noteq> cl_jobs c\<close> show False by simp
      qed
      with i show ?thesis by blast
    qed
  qed
  show "cl_plan c' = cl_plan c" by (simp add: c')
  show "x \<notin> pr_todo (progress_of X plan0 c')"
    if "completed j \<and> post_delay (cl_plan c) \<le> time_Sub (now w) (completion_time j) \<and> mget (job_Labels j) LabelNode = Some x"
  proof -
    have "x = n_Name n" using that n(2) by (simp add: own_job_def)
    then show ?thesis using that o(2,6) by (auto simp: progress_simps c' split: if_splits)
  qed
qed


subsection \<open>A pass\<close>

text \<open>After an apply, the job of a started node is as generated and has the conditions of the job it had before, if any.\<close>

lemma merged_job:
  assumes inv: "rollout_inv X plan0 nodes0 D c" and ok: "rollout_ok X plan0 nodes0" "merge_ok merge" "merge_ttl_ok merge"
    and new: "new = map (\<lambda>n. the (job_New X env (cl_plan c) n ctl)) ns" "distinct (map job_key new)"
    and b: "\<forall>n\<in>set ns. buildable X env ctl (cl_plan c) n" and n: "n \<in> set ns" "n \<in> set (cl_nodes c)"
  obtains d j where "job_New X env (cl_plan c) n ctl = Some d" "j \<in> set (merge (cl_jobs c) new)" "enforced d j"
    "js_TTLSecondsAfterFinished (job_Spec j) = js_TTLSecondsAfterFinished (job_Spec d)" "own_job X plan0 n j"
    "\<forall>i\<in>set (cl_jobs c). own_job X plan0 n i \<longrightarrow> job_Conditions j = job_Conditions i"
    "(\<forall>i\<in>set (cl_jobs c). \<not> own_job X plan0 n i) \<longrightarrow> job_Conditions j = []"
proof -
  have same: "same_rollout (cl_plan c) plan0" and ids: "node_ids (cl_nodes c) = node_ids nodes0" and keys: "distinct (map job_key (cl_jobs c))"
    using inv by (simp_all add: rollout_inv_def)
  note nodes = rollout_ok_nodes [OF ids ok(1)] and m = merge_okD [OF ok(2) keys new(2)]
  obtain d where d1: "job_New X env (cl_plan c) n ctl = Some d" using b n(1) by (auto simp: buildable_def)
  have "d \<in> set new" using d1 n(1) by (force simp: new(1))
  note d = d1 this
  have pl: "plain_elem (p_Name (cl_plan c))" using ok(1) same by (simp add: rollout_ok_def same_rollout_def)
  obtain j where j: "j \<in> set (merge (cl_jobs c) new)" "enforced d j"
    "\<forall>i\<in>set (cl_jobs c). job_key i = job_key d \<longrightarrow> job_Conditions j = job_Conditions i"
    "job_key d \<notin> job_key ` set (cl_jobs c) \<longrightarrow> job_Conditions j = []"
    using m(3) [OF d(2)] by blast
  obtain k where k: "k \<in> set (merge (cl_jobs c) new)" "job_key k = job_key d"
    "js_TTLSecondsAfterFinished (job_Spec k) = js_TTLSecondsAfterFinished (job_Spec d)"
    using ok(3) keys new(2) d(2) unfolding merge_ttl_ok_def by blast
  have "k = j" using distinct_map_eq [OF m(1) k(1) j(1)] k(2) j(2) by (simp add: enforced_def)
  have own: "own_job X plan0 n j" using own_job_New [OF d(1) pl j(2)] same_rollout_cong(2) [OF same, of X] by simp
  have key: "own_job X plan0 n i \<Longrightarrow> job_key i = job_key d" for i using own j(2) by (simp add: own_job_def enforced_def)
  have "own_job X plan0 n i" if i: "i \<in> set (cl_jobs c)" "job_key i = job_key d" for i
  proof -
    obtain x where x: "x \<in> set (cl_nodes c)" "own_job X plan0 x i" using inv i(1) by (auto simp: rollout_inv_def job_ok_def)
    have "job_name_on X plan0 x = job_name_on X plan0 n" using x(2) own i(2) j(2) by (simp add: own_job_def enforced_def)
    then have "x = n" using nodes distinct_map_eq [of "job_name_on X plan0", OF _ x(1) n(2)] by (simp add: rollout_ok_def)
    with x(2) show ?thesis by simp
  qed
  then have "(\<forall>i\<in>set (cl_jobs c). \<not> own_job X plan0 n i) \<longrightarrow> job_Conditions j = []" using j(4) by (metis imageE)
  with d(1) j(1,2,3) k(3) \<open>k = j\<close> own key show ?thesis by (intro that [of d j]) auto
qed

text \<open>
  A pass, the window open or not, leaves every node that is in need and has a place with a job that runs or is completed. When the window
  is open and nodes are in need, one of them has a place afterwards, and when none is in need the plan is complete.
\<close>

lemma pass_goes_on:
  fixes merge :: apply_jobs and rv :: string
  assumes X: "third_party_ok X" and ok: "rollout_ok X plan0 nodes0" "hostnames_are_names nodes0" "merge_ok merge" "merge_ttl_ok merge"
    and run: "plan_runs X env ctl plan0"
    and inv: "rollout_inv X plan0 nodes0 D c" and v: "versions_ok c" "rv \<notin> cl_versions c"
    and course: "on_course X env ctl plan0 c" and ready: "plan_ready (cl_plan c)"
    and cache: "node_cache (sel_Matches X) (pw_nodeList w) (cl_nodes c)"
    and sync: "generating_sync X accepting True (\<lambda>_ _. None) (plan_generating_handler X env ctl w) (cl_seen c) (cl_plan c) = Some (seen', es, r, err)"
  defines "c' \<equiv> (stored c rv (performs merge c es))\<lparr>cl_seen := seen'\<rparr>"
    and "s \<equiv> progress_of X plan0 c" and "t \<equiv> progress_of X plan0 ((stored c rv (performs merge c es))\<lparr>cl_seen := seen'\<rparr>)"
  shows "goes_on X env ctl plan0 c c'"
    "pr_todo s \<inter> pr_slots s \<subseteq> pr_busy t \<union> pr_done t"
    "\<not> must_wait X w (cl_plan c) \<Longrightarrow> pr_todo s \<noteq> {} \<Longrightarrow> pr_todo t \<inter> pr_slots t \<noteq> {}"
    "pr_todo s = {} \<Longrightarrow> st_Applying (p_Status (cl_plan c')) = [] \<and> IsTrue (p_Conditions (cl_plan c')) PlanComplete"
proof -
  have L: "labels_ok X" using X by (simp add: third_party_ok_def)
  have same: "same_rollout (cl_plan c) plan0" and ids: "node_ids (cl_nodes c) = node_ids nodes0" and keys: "distinct (map job_key (cl_jobs c))"
    using inv by (simp_all add: rollout_inv_def)
  note nodes = rollout_ok_nodes [OF ids ok(1)] and el = same_rollout_cong(1) [OF same, of X]
  have names: "distinct (map n_Name (cl_nodes c))" using nodes by (simp add: rollout_ok_def)
  have run': "plan_runs X env ctl (cl_plan c)" by (rule plan_runs_cong [OF same run])
  define started where "started sel = (if must_wait X w (cl_plan c) then [] else sel)" for sel :: "Node list"
  obtain sel st where sel: "SelectConcurrentNodes X (pw_nodeList w) (cl_plan c) = Inr sel"
    and c': "c' = passed X env ctl merge c (started sel) st rv" and st: "st_Applying st = map Hostname (started sel)"
      "st_LatestVersion st = st_LatestVersion (p_Status (cl_plan c))"
      "IsTrue (st_Conditions st) PlanSpecValidated" "IsTrue (st_Conditions st) PlanLatestResolved"
      "sel = [] \<longrightarrow> IsTrue (st_Conditions st) PlanComplete"
    by (rule pass_outcome [OF X run' ready cache, where merge = merge, folded started_def]) (use sync in \<open>simp add: c'_def\<close>)
  let ?ns = "started sel" let ?new = "map (\<lambda>n. the (job_New X env (cl_plan c) n ctl)) ?ns"
  have sub: "n \<in> set (cl_nodes c)" "eligible X plan0 n" "n \<in> set sel" if "n \<in> set ?ns" for n
    using that select_subset [OF L cache sel, of n] el by (auto simp: started_def split: if_splits)
  have held: "n \<in> set ?ns" if n: "n \<in> set (cl_nodes c)" "eligible X plan0 n" "is_applying (cl_plan c) n" for n
  proof -
    have "\<not> must_wait X w (cl_plan c)" using n(3) by (auto simp: must_wait_def is_applying_def split: option.splits)
    then show ?thesis using select_keeps_held [OF L cache sel n(1) _ n(3)] n(2) el by (simp add: started_def)
  qed
  have b: "\<forall>n\<in>set ?ns. buildable X env ctl (cl_plan c) n" using run' by (simp add: plan_runs_def)
  have "distinct (map job_key (map (\<lambda>n. the (job_New X env (cl_plan c) n ctl)) sel))"
    by (rule new_keys_distinct [OF inv ok(1) L cache sel]) (use run' in \<open>simp add: plan_runs_def\<close>)
  then have dn: "distinct (map job_key ?new)" by (simp add: started_def)
  note merged = merged_job [OF inv ok(1,3,4) refl dn b _ sub(1)]
  have t: "t = progress_of X plan0 c'" by (simp add: t_def c'_def)
  have todo: "pr_todo t = pr_todo s" by (simp add: t s_def progress_of_def c')
  have node: "\<exists>n\<in>set (cl_nodes c). n_Name n = x \<and> eligible X plan0 n \<and> is_applying (cl_plan c) n" if x: "x \<in> pr_todo s \<inter> pr_slots s" for x
    using x names by (auto simp: s_def progress_simps dest: distinct_map_eq)
  have slots: "pr_slots s \<inter> pr_todo t \<subseteq> pr_slots t"
  proof
    fix x assume "x \<in> pr_slots s \<inter> pr_todo t"
    then obtain n where n: "n \<in> set (cl_nodes c)" "n_Name n = x" "eligible X plan0 n" "is_applying (cl_plan c) n" using node todo by blast
    with held [OF n(1,3,4)] st(1) show "x \<in> pr_slots t" by (auto simp: t progress_simps c' is_applying_def)
  qed
  have old_form: "\<exists>t. t \<noteq> 0 \<and> job_Conditions i = [finished ConditionComplete t]" if "i \<in> set (cl_jobs c)" "job_finished i" for i
    using course that by (simp add: on_course_def)
  have form: "\<exists>t. t \<noteq> 0 \<and> job_Conditions j = [finished ConditionComplete t]"
    if "job_finished j" "\<forall>i\<in>set (cl_jobs c). own_job X plan0 n i \<longrightarrow> job_Conditions j = job_Conditions i"
      "(\<forall>i\<in>set (cl_jobs c). \<not> own_job X plan0 n i) \<longrightarrow> job_Conditions j = []" for n j
    using that old_form by (metis job_finished_def no_conditions)
  have works: "x \<in> pr_busy t \<union> pr_done t" "x \<in> pr_done s \<longrightarrow> x \<in> pr_done t" if x: "x \<in> pr_todo s \<inter> pr_slots s" for x
  proof -
    obtain n where n: "n \<in> set (cl_nodes c)" "n_Name n = x" "eligible X plan0 n" "is_applying (cl_plan c) n" using node x by blast
    have uniq: "n' = n" if "n' \<in> set (cl_nodes c)" "n_Name n' = x" for n'
      using distinct_map_eq [OF names that(1) n(1)] that(2) n(2) by simp
    have fr: "\<exists>j\<in>set (cl_jobs c'). own_job X plan0 n j \<and> (running j \<or> completed j) \<and>
        ((\<exists>i\<in>set (cl_jobs c). own_job X plan0 n i \<and> completed i) \<longrightarrow> completed j)" if f: "fresh c"
    proof (rule merged [OF held [OF n(1,3,4)] held [OF n(1,3,4)]])
      fix d j assume j: "job_New X env (cl_plan c) n ctl = Some d" "j \<in> set (merge (cl_jobs c) ?new)" "enforced d j" "own_job X plan0 n j"
        and cs: "\<forall>i\<in>set (cl_jobs c). own_job X plan0 n i \<longrightarrow> job_Conditions j = job_Conditions i"
          "(\<forall>i\<in>set (cl_jobs c). \<not> own_job X plan0 n i) \<longrightarrow> job_Conditions j = []"
      have "running j \<or> completed j"
      proof (cases "job_finished j")
        case True
        with form [OF _ cs] show ?thesis by (auto simp: completed_def finished_reads)
      next
        case False
        with j(3) job_New_fields(5) [OF j(1)] n(4) show ?thesis
          by (auto simp: running_def enforced_def job_parallelism_def is_applying_def)
      qed
      with j cs f show ?thesis by (intro bexI [of _ j]) (auto simp: c' completed_def)
    qed
    have "\<exists>j\<in>set (cl_jobs c'). own_job X plan0 n j \<and> (running j \<or> completed j) \<and>
        ((\<exists>i\<in>set (cl_jobs c). own_job X plan0 n i \<and> completed i) \<longrightarrow> completed j)"
    proof (cases "fresh c")
      case False
      then have "x \<in> pr_busy s \<union> pr_done s" using course x unfolding on_course_def s_def by blast
      then obtain j where "j \<in> set (cl_jobs c)" "own_job X plan0 n j" "running j \<or> completed j"
        unfolding s_def Un_iff progress_simps using uniq by blast
      then show ?thesis using False by (auto simp: c')
    qed (rule fr)
    then obtain j where j: "j \<in> set (cl_jobs c')" "own_job X plan0 n j" "running j \<or> completed j"
      "(\<exists>i\<in>set (cl_jobs c). own_job X plan0 n i \<and> completed i) \<longrightarrow> completed j" by blast
    have n': "n \<in> set (cl_nodes c')" using n(1) by (simp add: c')
    show "x \<in> pr_busy t \<union> pr_done t" unfolding t Un_iff progress_simps using n(2) n' j(1-3) by blast
    show "x \<in> pr_done s \<longrightarrow> x \<in> pr_done t" unfolding t s_def progress_simps using n(2) n' j uniq by blast
  qed
  have "sorted (st_Applying st)"
  proof -
    have "map Hostname sel = map n_Name sel"
      using hostname_kept [OF _ ids ok(2)] select_subset [OF L cache sel] by simp
    then have "sorted (map Hostname sel)" using select_sorted [OF sel] by (simp only:)
    then show ?thesis by (simp add: st(1) started_def)
  qed
  moreover have "j \<in> set (cl_jobs c) \<or> (\<exists>n\<in>set ?ns. own_job X plan0 n j \<and> built_for X env ctl plan0 c' (n_Name n) j \<and>
      (job_finished j \<longrightarrow> (\<exists>t. t \<noteq> 0 \<and> job_Conditions j = [finished ConditionComplete t])))" if j: "j \<in> set (cl_jobs c')" for j
  proof (cases "j \<in> set (cl_jobs c)")
    case False
    with j have f: "fresh c" "j \<in> set (merge (cl_jobs c) ?new)" by (auto simp: c' split: if_splits)
    with False merge_okD(2) [OF ok(3) keys dn] obtain n where n: "n \<in> set ?ns" "enforced (the (job_New X env (cl_plan c) n ctl)) j" by auto
    obtain d k where k: "job_New X env (cl_plan c) n ctl = Some d" "k \<in> set (merge (cl_jobs c) ?new)" "enforced d k"
      "js_TTLSecondsAfterFinished (job_Spec k) = js_TTLSecondsAfterFinished (job_Spec d)" "own_job X plan0 n k"
      "\<forall>i\<in>set (cl_jobs c). own_job X plan0 n i \<longrightarrow> job_Conditions k = job_Conditions i"
      "(\<forall>i\<in>set (cl_jobs c). \<not> own_job X plan0 n i) \<longrightarrow> job_Conditions k = []"
      by (rule merged [OF n(1) n(1)])
    have "k = j" using distinct_map_eq [OF merge_okD(1) [OF ok(3) keys dn] k(2) f(2)] n(2) k(1,3) by (simp add: enforced_def)
    moreover have "st_LatestVersion (p_Status (cl_plan c')) = st_LatestVersion (p_Status (cl_plan c))" by (simp add: c' st(2))
    ultimately show ?thesis
      using n(1) k same form [OF _ k(6,7)] unfolding built_for_def by (intro disjI2 bexI [of _ n]) auto
  qed simp
  note jobs = this
  have "fresh c' \<or> pr_todo t \<inter> pr_slots t \<subseteq> pr_busy t \<union> pr_done t"
  proof (cases "st = p_Status (cl_plan c)")
    case True
    then have "pr_slots t = pr_slots s" by (simp add: t s_def progress_of_def c' is_applying_def)
    then show ?thesis using works(1) todo by blast
  next
    case False
    then have "fresh c'" unfolding c' fresh_passed [OF v(2,1)] .
    then show ?thesis ..
  qed
  moreover have "built_for X env ctl plan0 c' (n_Name m) j"
    if m: "m \<in> set (cl_nodes c')" "eligible X plan0 m" "j \<in> set (cl_jobs c')" "own_job X plan0 m j" for m j
    using jobs [OF m(3)]
  proof
    assume "j \<in> set (cl_jobs c)"
    with course m have "built_for X env ctl plan0 c (n_Name m) j" by (simp add: on_course_def c')
    then show ?thesis by (simp add: built_for_def c' st(2))
  next
    assume "\<exists>n\<in>set ?ns. own_job X plan0 n j \<and> built_for X env ctl plan0 c' (n_Name n) j \<and>
      (job_finished j \<longrightarrow> (\<exists>t. t \<noteq> 0 \<and> job_Conditions j = [finished ConditionComplete t]))"
    then obtain n where n: "n \<in> set ?ns" "own_job X plan0 n j" "built_for X env ctl plan0 c' (n_Name n) j" by blast
    have "m = n" using own_job_node [OF nodes m(4) n(2)] m(1) sub(1) [OF n(1)] by (simp add: c')
    with n(3) show ?thesis by simp
  qed
  moreover have "\<exists>t. t \<noteq> 0 \<and> job_Conditions j = [finished ConditionComplete t]" if "j \<in> set (cl_jobs c')" "job_finished j" for j
    using jobs [OF that(1)] old_form that(2) by blast
  ultimately have "on_course X env ctl plan0 c'" unfolding on_course_def t [symmetric] by (simp add: c')
  moreover have "plan_ready (cl_plan c')" using st(3,4) by (simp add: c')
  ultimately show "goes_on X env ctl plan0 c c'"
    using todo slots works unfolding goes_on_def Let_def t [symmetric] s_def [symmetric] by blast
  show "pr_todo s \<inter> pr_slots s \<subseteq> pr_busy t \<union> pr_done t" using works(1) by blast
  have none: "sel = [] \<longleftrightarrow> pr_todo s = {}"
    using select_none_iff [OF L cache sel] run' by (auto simp: el plan_runs_def s_def progress_of_def)
  show "pr_todo t \<inter> pr_slots t \<noteq> {}" if nw: "\<not> must_wait X w (cl_plan c)" "pr_todo s \<noteq> {}"
  proof -
    have "sel \<noteq> []" using none nw(2) by simp
    then obtain n where "n \<in> set ?ns" using nw(1) by (cases sel) (auto simp: started_def)
    with sub(1,2) have "n_Name n \<in> pr_todo t \<inter> pr_slots t" by (auto simp: t progress_simps c' is_applying_def st(1))
    then show ?thesis by blast
  qed
  show "st_Applying (p_Status (cl_plan c')) = [] \<and> IsTrue (p_Conditions (cl_plan c')) PlanComplete" if "pr_todo s = {}"
    using none that st(1,5) by (simp add: c' started_def)
qed


subsection \<open>Runs\<close>

text \<open>What the steps need of the cluster and the plan.\<close>

definition smooth :: "('sel, 'req) extern \<Rightarrow> environ \<Rightarrow> string \<Rightarrow> apply_jobs \<Rightarrow> Plan \<Rightarrow> Node list \<Rightarrow> bool" where
  "smooth X env ctl merge plan0 nodes0 \<longleftrightarrow> third_party_ok X \<and> merge_ok merge \<and> merge_ttl_ok merge \<and> rollout_ok X plan0 nodes0 \<and>
     hostnames_are_names nodes0 \<and> plan_runs X env ctl plan0 \<and>
     (\<forall>delay. sp_PostCompleteDelay (p_Spec plan0) = Some delay \<longrightarrow> delay_fits delay)"

text \<open>
  A run is fair when the window is open for a pass again and again, no job runs for ever, and, as long as its node is in need, the event of
  a completed job is handled at some time after the delay.
\<close>

definition fair_run :: "('sel, 'req) extern \<Rightarrow> environ \<Rightarrow> string \<Rightarrow> apply_jobs \<Rightarrow> Plan \<Rightarrow> (nat \<Rightarrow> cluster) \<Rightarrow> bool" where
  "fair_run X env ctl merge plan0 s \<longleftrightarrow> (\<exists>a. (\<forall>i. prompt_step X env ctl merge (a i) (s i) (s (Suc i))) \<and>
     (\<forall>i. \<exists>k\<ge>i. a k = Pass True) \<and>
     (\<forall>i. \<forall>x\<in>pr_busy (progress_of X plan0 (s i)). \<exists>k\<ge>i. x \<notin> pr_busy (progress_of X plan0 (s k))) \<and>
     (\<forall>i. \<forall>x\<in>pr_done (progress_of X plan0 (s i)) \<inter> pr_todo (progress_of X plan0 (s i)).
        \<exists>k\<ge>i. x \<notin> pr_done (progress_of X plan0 (s k)) \<inter> pr_todo (progress_of X plan0 (s k)) \<or>
          (\<exists>j. a k = Job_handled j True \<and> completed j \<and> mget (job_Labels j) LabelNode = Some x)))"

lemma prompt_step_outcome:
  assumes ok: "smooth X env ctl merge plan0 nodes0"
    and inv: "rollout_inv X plan0 nodes0 D c" and v: "versions_ok c" and course: "on_course X env ctl plan0 c" and ready: "plan_ready (cl_plan c)"
    and step: "prompt_step X env ctl merge a c c'"
  defines "s \<equiv> progress_of X plan0 c" and "t \<equiv> progress_of X plan0 c'"
  shows "goes_on X env ctl plan0 c c'"
    "a = Pass opened \<Longrightarrow> pr_todo s \<inter> pr_slots s \<subseteq> pr_busy t \<union> pr_done t \<and>
       (opened \<and> pr_todo s \<noteq> {} \<longrightarrow> pr_todo t \<inter> pr_slots t \<noteq> {}) \<and>
       (pr_todo s = {} \<longrightarrow> st_Applying (p_Status (cl_plan c')) = [] \<and> IsTrue (p_Conditions (cl_plan c')) PlanComplete)"
    "\<forall>opened. a \<noteq> Pass opened \<Longrightarrow> cl_plan c' = cl_plan c"
    "a = Job_handled j True \<Longrightarrow> completed j \<Longrightarrow> mget (job_Labels j) LabelNode = Some x \<Longrightarrow> x \<notin> pr_todo t"
proof -
  have X: "third_party_ok X" "controller_selector_ok X" and m: "merge_ok merge" "merge_ttl_ok merge"
    and r: "rollout_ok X plan0 nodes0" "hostnames_are_names nodes0" "plan_runs X env ctl plan0"
    and fits: "sp_PostCompleteDelay (p_Spec plan0) = Some delay \<Longrightarrow> delay_fits delay" for delay
    using ok by (simp_all add: smooth_def third_party_ok_def)
  have "goes_on X env ctl plan0 c c' \<and>
    (\<forall>opened. a = Pass opened \<longrightarrow> pr_todo s \<inter> pr_slots s \<subseteq> pr_busy t \<union> pr_done t \<and>
       (opened \<and> pr_todo s \<noteq> {} \<longrightarrow> pr_todo t \<inter> pr_slots t \<noteq> {}) \<and>
       (pr_todo s = {} \<longrightarrow> st_Applying (p_Status (cl_plan c')) = [] \<and> IsTrue (p_Conditions (cl_plan c')) PlanComplete)) \<and>
    ((\<forall>opened. a \<noteq> Pass opened) \<longrightarrow> cl_plan c' = cl_plan c) \<and>
    (\<forall>j x. a = Job_handled j True \<longrightarrow> completed j \<longrightarrow> mget (job_Labels j) LabelNode = Some x \<longrightarrow> x \<notin> pr_todo t)"
    using step
  proof cases
    case (prompt_pass w seen' es r' err rv)
    note p = pass_goes_on [OF X(1) r(1,2) m r(3) inv v prompt_pass(5) course ready prompt_pass(3,4)]
    show ?thesis using p unfolding prompt_pass(1,2) s_def t_def by blast
  next
    case (prompt_completion as j bs u)
    with completion_goes_on [OF course ready prompt_completion(3-5)] show ?thesis by simp
  next
    case (prompt_event j w rv)
    note e = event_goes_on [OF X(2) r(1,2) fits inv course ready prompt_event(3,4,7,9-11), where merge = merge and rv = rv]
    show ?thesis using e unfolding prompt_event(1,2) t_def by blast
  qed
  then show "goes_on X env ctl plan0 c c'"
    "a = Pass opened \<Longrightarrow> pr_todo s \<inter> pr_slots s \<subseteq> pr_busy t \<union> pr_done t \<and>
       (opened \<and> pr_todo s \<noteq> {} \<longrightarrow> pr_todo t \<inter> pr_slots t \<noteq> {}) \<and>
       (pr_todo s = {} \<longrightarrow> st_Applying (p_Status (cl_plan c')) = [] \<and> IsTrue (p_Conditions (cl_plan c')) PlanComplete)"
    "\<forall>opened. a \<noteq> Pass opened \<Longrightarrow> cl_plan c' = cl_plan c"
    "a = Job_handled j True \<Longrightarrow> completed j \<Longrightarrow> mget (job_Labels j) LabelNode = Some x \<Longrightarrow> x \<notin> pr_todo t"
    by blast+
qed

lemma run_keeps:
  assumes ok: "smooth X env ctl merge plan0 nodes0"
    and start: "rollout_inv X plan0 nodes0 D (s 0)" "versions_ok (s 0)" "on_course X env ctl plan0 (s 0)" "plan_ready (cl_plan (s 0))"
    and step: "\<And>i. prompt_step X env ctl merge (a i) (s i) (s (Suc i))"
  shows "rollout_inv X plan0 nodes0 D (s i) \<and> versions_ok (s i) \<and> on_course X env ctl plan0 (s i) \<and> plan_ready (cl_plan (s i))"
proof (induction i)
  case (Suc i)
  have r: "rollout_ok X plan0 nodes0" "labels_ok X" "merge_ok merge" using ok by (simp_all add: smooth_def third_party_ok_def)
  have "(prompt X env ctl merge)\<^sup>*\<^sup>* (s i) (s (Suc i))" by (rule r_into_rtranclp [where r = "prompt X env ctl merge", OF promptI [OF step]])
  from prompt_inv [OF this _ _ r] prompt_step_outcome(1) [OF ok _ _ _ _ step] Suc show ?case
    by (auto simp: goes_on_def)
qed (use start in simp)

lemma fair_run_completes:
  assumes ok: "smooth X env ctl merge plan0 nodes0"
    and start: "rollout_inv X plan0 nodes0 D (s 0)" "versions_ok (s 0)" "on_course X env ctl plan0 (s 0)" "plan_ready (cl_plan (s 0))"
    and fair: "fair_run X env ctl merge plan0 s"
  shows "\<exists>i. \<forall>m\<ge>i. (\<forall>n\<in>set (cl_nodes (s m)). \<not> eligible X plan0 n) \<and> st_Applying (p_Status (cl_plan (s m))) = [] \<and>
     IsTrue (p_Conditions (cl_plan (s m))) PlanComplete"
proof -
  let ?p = "\<lambda>i. progress_of X plan0 (s i)"
  obtain a where step: "\<And>i. prompt_step X env ctl merge (a i) (s i) (s (Suc i))" and open_pass: "\<And>i. \<exists>k\<ge>i. a k = Pass True"
    and ends: "\<And>i x. x \<in> pr_busy (?p i) \<Longrightarrow> \<exists>k\<ge>i. x \<notin> pr_busy (?p k)"
    and heard: "\<And>i x. x \<in> pr_done (?p i) \<inter> pr_todo (?p i) \<Longrightarrow> \<exists>k\<ge>i. x \<notin> pr_done (?p k) \<inter> pr_todo (?p k) \<or>
          (\<exists>j. a k = Job_handled j True \<and> completed j \<and> mget (job_Labels j) LabelNode = Some x)"
    using fair unfolding fair_run_def by blast
  have keeps: "rollout_inv X plan0 nodes0 D (s i)" "versions_ok (s i)" "on_course X env ctl plan0 (s i)" "plan_ready (cl_plan (s i))" for i
    using run_keeps [OF ok start step, of i] by simp_all
  note out = prompt_step_outcome [OF ok keeps step]
  note g = out(1) [unfolded goes_on_def Let_def]
  have "\<exists>i. \<forall>m\<ge>i. pr_todo (?p m) = {}"
  proof (rule all_served)
    show "\<exists>k\<ge>i. pr_todo (?p k) \<noteq> {} \<longrightarrow> pr_todo (?p k) \<inter> pr_slots (?p k) \<noteq> {}" for i
    proof -
      obtain k where k: "i \<le> k" "a k = Pass True" using open_pass by blast
      have "pr_todo (?p (Suc k)) \<subseteq> pr_todo (?p k)" using g by blast
      then show ?thesis using out(2) [OF k(2)] k(1) by (intro exI [of _ "Suc k"]) auto
    qed
    show "\<exists>k\<ge>i. x \<in> pr_todo (?p k) \<longrightarrow> x \<in> pr_busy (?p k) \<union> pr_done (?p k)" if x: "x \<in> pr_todo (?p i) \<inter> pr_slots (?p i)" for i x
    proof -
      obtain k where k: "i \<le> k" "a k = Pass True" using open_pass by blast
      have "x \<in> pr_todo (?p (Suc k)) \<longrightarrow> x \<in> pr_todo (?p k) \<inter> pr_slots (?p k)"
        using k(1)
      proof (induction rule: dec_induct)
        case base
        show ?case using x by blast
      next
        case (step l)
        have "pr_todo (?p (Suc l)) \<subseteq> pr_todo (?p l)" "pr_slots (?p l) \<inter> pr_todo (?p (Suc l)) \<subseteq> pr_slots (?p (Suc l))"
          "pr_todo (?p (Suc (Suc l))) \<subseteq> pr_todo (?p (Suc l))" using g by blast+
        with step.IH show ?case by blast
      qed
      then show ?thesis using out(2) [OF k(2)] k(1) by (intro exI [of _ "Suc k"]) auto
    qed
    show "\<exists>k\<ge>i. x \<notin> pr_done (?p k) \<inter> pr_todo (?p k)" if x: "x \<in> pr_done (?p i) \<inter> pr_todo (?p i)" for i x
    proof -
      obtain k where k: "i \<le> k" "x \<notin> pr_done (?p k) \<inter> pr_todo (?p k) \<or>
          (\<exists>j. a k = Job_handled j True \<and> completed j \<and> mget (job_Labels j) LabelNode = Some x)"
        using heard [OF x] by blast
      then have "x \<notin> pr_done (?p k) \<inter> pr_todo (?p k) \<or> x \<notin> pr_todo (?p (Suc k))" using out(4) by blast
      then show ?thesis using k(1) le_SucI by blast
    qed
  qed (use g ends in \<open>blast | simp\<close>)+
  then obtain i where i: "\<And>m. i \<le> m \<Longrightarrow> pr_todo (?p m) = {}" by blast
  obtain k where k: "i \<le> k" "a k = Pass True" using open_pass by blast
  have "st_Applying (p_Status (cl_plan (s m))) = [] \<and> IsTrue (p_Conditions (cl_plan (s m))) PlanComplete" if "Suc k \<le> m" for m
    using that
  proof (induction rule: dec_induct)
    case base
    show ?case using out(2) [OF k(2)] i [OF k(1)] by blast
  next
    case (step m)
    have "pr_todo (?p m) = {}" using step.hyps k(1) by (intro i) simp
    then show ?case using out(2,3) step.IH by (cases "\<exists>opened. a m = Pass opened") force+
  qed
  moreover have "\<not> eligible X plan0 n" if "i \<le> m" "n \<in> set (cl_nodes (s m))" for n m
    using i [OF that(1)] that(2) by (auto simp: progress_of_def)
  ultimately show ?thesis using k(1) by (intro exI [of _ "Suc k"]) (meson Suc_leD le_trans)
qed


lemma run_reachable:
  assumes "fair_run X env ctl merge plan0 s" "reachable X env ctl clusterID merge plan0 nodes0 (s 0)"
  shows "reachable X env ctl clusterID merge plan0 nodes0 (s i)"
proof (induction i)
  case (Suc i)
  have "\<exists>a. prompt_step X env ctl merge a (s i) (s (Suc i))" using assms(1) unfolding fair_run_def by blast
  then have "rollout_step X env ctl clusterID merge (s i) (s (Suc i))" using calm_is_step [OF prompt_is_calm] by blast
  with Suc show ?case by (rule reachable.step)
qed (rule assms(2))

text \<open>Fair runs exist: from every state that is on course and undisturbed.\<close>

lemma fair_run_exists:
  assumes ok: "smooth X env ctl merge plan0 nodes0"
    and c: "rollout_inv X plan0 nodes0 D c" "versions_ok c" "on_course X env ctl plan0 c" "plan_ready (cl_plan c)"
    and u: "undisturbed X env ctl plan0 c"
  obtains s where "s 0 = c" "fair_run X env ctl merge plan0 s"
proof -
  have X: "third_party_ok X" "labels_ok X" and m: "merge_ok merge" and r: "rollout_ok X plan0 nodes0" "plan_runs X env ctl plan0"
    using ok by (simp_all add: smooth_def third_party_ok_def)
  let ?step = "prompt_step X env ctl merge"
  define good where "good d \<longleftrightarrow> rollout_inv X plan0 nodes0 D d \<and> versions_ok d \<and> on_course X env ctl plan0 d \<and> plan_ready (cl_plan d)" for d
  have good: "good e" if g: "good d" and "?step a d e" for a d e
  proof -
    have "(prompt X env ctl merge)\<^sup>*\<^sup>* d e" by (rule r_into_rtranclp [where r = "prompt X env ctl merge", OF promptI [OF that(2)]])
    from prompt_inv [OF this _ _ r(1) X(2) m] prompt_step_outcome(1) [OF ok _ _ _ _ that(2)] g show ?thesis
      by (auto simp: good_def goes_on_def)
  qed
  obtain c1 where c1: "(prompt X env ctl merge)\<^sup>*\<^sup>* c c1" "\<forall>n\<in>set (cl_nodes c1). \<not> eligible X plan0 n"
    using prompt_completes [OF X(1) r(1) m r(2) c(1,2) u c(4)] by blast
  obtain l f where f: "f 0 = c" "f l = c1" "\<forall>i<l. prompt X env ctl merge (f i) (f (Suc i))"
    using c1(1) unfolding rtranclp_is_Sup_relpowp Sup_apply relpowp_fun_conv by auto
  obtain b where b: "\<And>i. i < l \<Longrightarrow> ?step (b i) (f i) (f (Suc i))" using f(3) unfolding prompt_def by metis
  have fg: "good (f i)" if "i \<le> l" for i
    using that
  proof (induction i)
    case (Suc i)
    then show ?case using good [OF _ b [of i]] by simp
  qed (use c in \<open>simp add: f(1) good_def\<close>)
  have "\<exists>g. \<forall>i. (good (g i) \<and> (i = 0 \<longrightarrow> g i = c1)) \<and> ?step (Pass True) (g i) (g (Suc i))"
  proof (rule dependent_nat_choice)
    show "\<exists>d. good d \<and> (0 = (0::nat) \<longrightarrow> d = c1)" using fg [of l] f(2) by auto
    fix d i assume d: "good d \<and> (i = (0::nat) \<longrightarrow> d = c1)"
    then have run: "plan_runs X env ctl (cl_plan d)" using plan_runs_cong [OF _ r(2)] by (simp add: good_def rollout_inv_def)
    obtain sel st rv where "?step (Pass True) d (passed X env ctl merge d sel st rv)"
      by (rule pass [OF X(1) run, where merge = merge]) (use d in \<open>auto simp: good_def\<close>)
    with good d show "\<exists>e. (good e \<and> (Suc i = 0 \<longrightarrow> e = c1)) \<and> ?step (Pass True) d e" by blast
  qed
  then obtain g where g: "\<And>i. good (g i)" "g 0 = c1" "\<And>i. ?step (Pass True) (g i) (g (Suc i))" by blast
  define s where "s i = (if i < l then f i else g (i - l))" for i
  define a where "a i = (if i < l then b i else Pass True)" for i
  have step: "?step (a i) (s i) (s (Suc i))" for i
  proof (cases "Suc i < l")
    case False
    show ?thesis
    proof (cases "i < l")
      case True
      with False have "Suc i = l" by simp
      with True b [OF True] f(2) g(2) show ?thesis by (auto simp: s_def a_def)
    next
      case ge: False
      then have "Suc i - l = Suc (i - l)" by simp
      with ge g(3) [of "i - l"] show ?thesis by (simp add: s_def a_def)
    qed
  qed (use b in \<open>simp add: s_def a_def\<close>)
  have todo: "pr_todo (progress_of X plan0 (g i)) = {}" for i
  proof (induction i)
    case 0
    show ?case using c1(2) by (auto simp: g(2) progress_of_def)
  next
    case (Suc i)
    have "goes_on X env ctl plan0 (g i) (g (Suc i))"
      by (rule prompt_step_outcome(1) [OF ok _ _ _ _ g(3)]) (use g(1) [of i] in \<open>auto simp: good_def\<close>)
    with Suc show ?case by (auto simp: goes_on_def Let_def)
  qed
  have idle: "x \<notin> pr_busy (progress_of X plan0 (g i))" for i x
    using progress_of_inv [OF _ r(1)] g(1) [of i] todo [of i] unfolding good_def contract_inv_def by blast
  have late: "\<exists>k\<ge>i. s k = g (k - l) \<and> a k = Pass True" for i
    by (rule exI [of _ "i + l"]) (simp add: s_def a_def)
  have "fair_run X env ctl merge plan0 s"
    unfolding fair_run_def
  proof (intro exI [of _ a] conjI allI ballI)
    show "\<exists>k\<ge>i. a k = Pass True" for i using late by blast
    show "\<exists>k\<ge>i. x \<notin> pr_busy (progress_of X plan0 (s k))" for i x using late idle by metis
    show "\<exists>k\<ge>i. x \<notin> pr_done (progress_of X plan0 (s k)) \<inter> pr_todo (progress_of X plan0 (s k)) \<or>
        (\<exists>j. a k = Job_handled j True \<and> completed j \<and> mget (job_Labels j) LabelNode = Some x)" for i x
      using late [of i] todo by force
  qed (rule step)
  moreover have "s 0 = c" using f(1,2) g(2) by (cases "l = 0") (simp_all add: s_def)
  ultimately show ?thesis using that by blast
qed

lemma start_on_course:
  assumes "st_Applying (p_Status (cl_plan c)) = []" "cl_jobs c = []" "cl_seen c = Map.empty"
  shows "on_course X env ctl plan0 c" "undisturbed X env ctl plan0 c"
  using assms by (simp_all add: on_course_def undisturbed_def fresh_def isNewResourceVersion_def)

subsection \<open>Properties\<close>

text \<open>
  C6: a rollout that is left alone completes. In a cluster whose hostnames are the node names, take any infinite run of passes,
  completions and job events that starts in a reachable state with a validated and resolved plan, in which jobs have only ended by
  completing and every node in need that has a place has its job, unless this version of the plan is still to be
  applied (such as the start of a rollout). If no write fails, no job fails or is removed from outside, no running job runs for ever,
  the window is open for a pass again and again, and the event of a completed job is handled at some time after the
  delay, then from some point on no node needs the version, nothing is listed as being worked on and the plan is reported complete.
\<close>

theorem rollout_completes_undisturbed:
  assumes "third_party_ok X" "merge_ok merge" "merge_ttl_ok merge" "rollout_ok X plan0 nodes0" "hostnames_are_names nodes0"
    and "plan_runs X env ctl plan0" "\<forall>delay. sp_PostCompleteDelay (p_Spec plan0) = Some delay \<longrightarrow> delay_fits delay"
    and "reachable X env ctl clusterID merge plan0 nodes0 (s 0)" "plan_ready (cl_plan (s 0))" "on_course X env ctl plan0 (s 0)"
    and "fair_run X env ctl merge plan0 s"
  shows "\<exists>i. \<forall>m\<ge>i. (\<forall>n\<in>set (cl_nodes (s m)). \<not> eligible X plan0 n) \<and> st_Applying (p_Status (cl_plan (s m))) = [] \<and>
     IsTrue (p_Conditions (cl_plan (s m))) PlanComplete"
proof -
  have L: "labels_ok X" using assms(1) by (simp add: third_party_ok_def)
  have "smooth X env ctl merge plan0 nodes0" using assms(1-7) by (simp add: smooth_def)
  from fair_run_completes [OF this reachable_inv [OF assms(8,4) L assms(2)] reachable_versions [OF assms(8)] assms(10,9,11)]
  show ?thesis .
qed

abbreviation named_nodes :: "Node list" where
  "named_nodes \<equiv> [sample_node ''a'' ''a'', sample_node ''b'' ''b'']"

lemma named_smooth:
  assumes "p_Spec plan = sample_spec" "p_Name plan = ''k3s''" "om_DeletionTimestamp (p_meta plan) = None"
  shows "smooth sample sample_env ''suc'' upsert plan named_nodes"
proof -
  have "rollout_ok sample plan named_nodes"
    using plain_k3s sample_splits assms by (simp add: rollout_ok_def sample_node_def sample_spec_def empty_meta_def job_name_on_def Hostname_def)
  moreover have "plan_runs sample sample_env ''suc'' plan"
    using sample_selectors_ok job_New_None_iff [of sample sample_env plan _ "''suc''"] assms
    by (auto simp: plan_runs_def same_rollout_def sample_spec_def buildable_def post_delay_def int64_iff
      KubectlImageWindows_def sample_env_def Getenv_def)
  moreover have "hostnames_are_names named_nodes" "sp_PostCompleteDelay (p_Spec plan) = None"
    using assms(1) by (simp_all add: sample_node_def empty_meta_def Hostname_def sample_spec_def)
  ultimately show ?thesis using sample_third_party upsert_ok upsert_ttl_ok by (simp add: smooth_def)
qed

theorem rollout_completes_undisturbed_witness:
  "\<exists>s. fair_run sample sample_env ''suc'' upsert ready_plan s \<and> cl_nodes (s 0) = named_nodes \<and>
     (\<exists>i. \<forall>m\<ge>i. (\<forall>n\<in>set (cl_nodes (s m)). \<not> eligible sample ready_plan n) \<and> IsTrue (p_Conditions (cl_plan (s m))) PlanComplete)"
proof -
  let ?c = "\<lparr>cl_plan = ready_plan, cl_nodes = named_nodes, cl_jobs = [], cl_seen = Map.empty,
     cl_versions = {om_ResourceVersion (p_meta ready_plan)}\<rparr>"
  have ok: "smooth sample sample_env ''suc'' upsert ready_plan named_nodes"
    by (rule named_smooth) (simp_all add: ready_plan_def sample_plan_def empty_meta_def)
  have h: "third_party_ok sample" "merge_ok upsert" "merge_ttl_ok upsert" "rollout_ok sample ready_plan named_nodes"
    "hostnames_are_names named_nodes" "plan_runs sample sample_env ''suc'' ready_plan"
    "\<forall>delay. sp_PostCompleteDelay (p_Spec ready_plan) = Some delay \<longrightarrow> delay_fits delay"
    using ok unfolding smooth_def by blast+
  have ap: "st_Applying (p_Status ready_plan) = []" by (simp add: ready_plan_def sample_plan_def)
  have r: "reachable sample sample_env ''suc'' ''id'' upsert ready_plan named_nodes ?c" by (rule reachable.start [OF ap])
  have ready: "plan_ready (cl_plan ?c)" using ready_plan_ready(1) by simp
  have on: "on_course sample sample_env ''suc'' ready_plan ?c" "undisturbed sample sample_env ''suc'' ready_plan ?c"
    using ap by (intro start_on_course; simp)+
  obtain s where s: "s 0 = ?c" "fair_run sample sample_env ''suc'' upsert ready_plan s"
    by (rule fair_run_exists [OF ok reachable_inv [OF r h(4) sample_labels_ok h(2)] reachable_versions [OF r] on(1) ready on(2)])
  have "reachable sample sample_env ''suc'' ''id'' upsert ready_plan named_nodes (s 0)" "plan_ready (cl_plan (s 0))"
    "on_course sample sample_env ''suc'' ready_plan (s 0)" using r ready on(1) by (simp_all only: s(1))
  from rollout_completes_undisturbed [OF h this s(2)] s show ?thesis by (intro exI [of _ s]) auto
qed

end
