(* ===== verification/Adoption.thy ===== *)
theory Adoption
  imports Liveness Resolving
begin

text \<open>
  A plan from its creation to its end: the status handler in \<^verbatim>\<open>sync\<close> validates and resolves it and stores its status, and every fair run
  of the rollout that starts from the stored plan completes.
\<close>

lemma adopted:
  assumes "status_equality X" "Validate X (pw_secretGet w) obj = None" "sp_Version (p_Spec obj) \<noteq> []"
    and "sync X accepting [] (plan_status_handler X env cid w) (Some obj) = (es, Some plan, None)"
  shows "p_Spec plan = p_Spec obj" "p_meta plan = p_meta obj"
    "st_LatestVersion (p_Status plan) = MungeVersion (sp_Version (p_Spec obj))" "st_Applying (p_Status plan) = st_Applying (p_Status obj)"
    "plan_ready plan" "p_Status obj \<noteq> p_Status plan \<Longrightarrow> PlanUpdateStatus plan \<in> set es"
proof -
  let ?h = "plan_status_handler X env cid w obj"
  obtain s effs where h: "?h = return_digest X w effs s" and s: "p_Spec (h_obj s) = p_Spec obj" "p_meta (h_obj s) = p_meta obj"
    using status_handler_valid [OF assms(2,3), where env = env and cid = cid] by force
  obtain p e where d: "DigestStatus X (pw_secretGet w) (h_obj s) = (p, e)" by fastforce
  have ho: "ho_obj ?h = p" "ho_status ?h = p_Status p" "ho_err ?h = e" by (simp_all add: h return_digest_simps d)
  have e: "e = None" "plan = p" "p_Status obj \<noteq> p_Status p \<Longrightarrow> PlanUpdateStatus p \<in> set es"
    using assms(1,4) ho by (auto simp: sync_def sync_status_def status_equality_def accepting_def Let_def split: if_splits)
  obtain ch where v: "st_LatestVersion (ho_status ?h) = MungeVersion (sp_Version (p_Spec obj))"
    "st_Conditions (ho_status ?h) = resolved_conds (FormatRFC3339 X (pw_now w)) ch ''Version''
       (validated_conds (FormatRFC3339 X (pw_now w)) (p_Conditions obj))" "st_Applying (ho_status ?h) = st_Applying (p_Status obj)"
    by (rule versioned_status [OF assms(2,3) refl])
  show "p_Spec plan = p_Spec obj" "p_meta plan = p_meta obj"
    using DigestStatus_frame(1,2) [OF d] s e(2) by simp_all
  show "st_LatestVersion (p_Status plan) = MungeVersion (sp_Version (p_Spec obj))" "st_Applying (p_Status plan) = st_Applying (p_Status obj)"
    "plan_ready plan"
    using v e(2) resolved_true by (simp_all add: ho)
  show "p_Status obj \<noteq> p_Status plan \<Longrightarrow> PlanUpdateStatus plan \<in> set es" using e(2,3) by simp
qed

abbreviation start_state :: "Plan \<Rightarrow> Node list \<Rightarrow> cluster" where
  "start_state plan nodes \<equiv> \<lparr>cl_plan = plan, cl_nodes = nodes, cl_jobs = [], cl_seen = Map.empty,
     cl_versions = {om_ResourceVersion (p_meta plan)}\<rparr>"

text \<open>
  C3: a plan is carried out from its creation: when a valid plan with a version, on which nothing is in progress, has been through
  the status handler without an error, then it is ready, with the version it asks for. And every infinite run of passes, completions
  and job events that starts from the stored plan, under whatever resource version, with no jobs, in which no write and no job
  fails, no job is removed from outside or runs for ever, the window is open for a pass again and again and the
  event of a completed job is handled at some time after the delay, comes to a point from which on the plan is complete and no node
  needs the version, where the job of each node that needed it has run and was completed on the way. The hostnames of the
  nodes have to be their names, since the job handler compares the two.
\<close>

theorem new_plan_carried_out:
  assumes "third_party_ok X" "merge_ok merge" "merge_ttl_ok merge"
    and "Validate X (pw_secretGet w) obj = None" "sp_Version (p_Spec obj) \<noteq> []" "st_Applying (p_Status obj) = []"
    and "sync X accepting [] (plan_status_handler X env cid w) (Some obj) = (es, Some plan, None)"
    and "plan0 = with_version rv plan" "rollout_ok X plan0 nodes" "hostnames_are_names nodes" "plan_runs X env ctl plan0"
    and "\<forall>delay. sp_PostCompleteDelay (p_Spec plan0) = Some delay \<longrightarrow> delay_fits delay"
    and "s 0 = start_state plan0 nodes" "fair_run X env ctl merge plan0 s"
  shows "plan_ready plan0 \<and> st_LatestVersion (p_Status plan0) = MungeVersion (sp_Version (p_Spec obj)) \<and>
     (\<exists>i. \<forall>m\<ge>i. IsTrue (p_Conditions (cl_plan (s m))) PlanComplete \<and> st_Applying (p_Status (cl_plan (s m))) = [] \<and>
        (\<forall>n\<in>set (cl_nodes (s m)). \<not> eligible X plan0 n) \<and>
        (\<forall>n\<in>set nodes. eligible X plan0 n \<longrightarrow> (\<exists>c1 c2 j1 j2.
           reachable X env ctl cid merge plan0 nodes c1 \<and> (rollout_step X env ctl cid merge)\<^sup>*\<^sup>* c1 c2 \<and>
           (rollout_step X env ctl cid merge)\<^sup>*\<^sup>* c2 (s m) \<and>
           j1 \<in> set (cl_jobs c1) \<and> own_job X plan0 n j1 \<and> running j1 \<and>
           j2 \<in> set (cl_jobs c2) \<and> own_job X plan0 n j2 \<and> completed j2)))"
proof -
  have L: "labels_ok X" "status_equality X" using assms(1) by (simp_all add: third_party_ok_def)
  note a = adopted [OF L(2) assms(4,5,7)]
  have smooth: "smooth X env ctl merge plan0 nodes" using assms(1-3,9-12) by (simp add: smooth_def)
  have ready: "plan_ready plan0" using a(5) by (simp add: assms(8))
  have ap: "st_Applying (p_Status plan0) = []" using a(4) assms(6) by (simp add: assms(8))
  have start: "reachable X env ctl cid merge plan0 nodes (s 0)" unfolding assms(13) by (rule reachable.start [OF ap])
  have "on_course X env ctl plan0 (s 0)" "plan_ready (cl_plan (s 0))" using ap ready assms(13) by (simp_all add: start_on_course)
  from fair_run_completes [OF smooth reachable_inv [OF start assms(9) L(1) assms(2)] reachable_versions [OF start] this assms(14)]
  obtain i where i: "\<And>m. i \<le> m \<Longrightarrow> (\<forall>n\<in>set (cl_nodes (s m)). \<not> eligible X plan0 n) \<and>
      st_Applying (p_Status (cl_plan (s m))) = [] \<and> IsTrue (p_Conditions (cl_plan (s m))) PlanComplete" by blast
  have "n_Name n \<notin> pr_todo (progress_of X plan0 (s m))" if "i \<le> m" for m n using i [OF that] by (auto simp: progress_of_def)
  note jobs = job_history [OF run_reachable [OF assms(14) start] assms(9) L(1) assms(2) _ _ this]
  have "st_LatestVersion (p_Status plan0) = MungeVersion (sp_Version (p_Spec obj))" using a(3) by (simp add: assms(8))
  with ready i jobs show ?thesis by (intro conjI exI [of _ i] allI impI) blast+
qed

lemma sync_accepted:
  assumes "ho_err (handler obj) = None"
  shows "\<exists>es plan. sync X accepting [] handler (Some obj) = (es, Some plan, None)"
  using assms by (cases "status_DeepEqual X (p_Status obj) (ho_status (handler obj))") (simp_all add: sync_def sync_status_def accepting_def Let_def)

lemma sample_adoption:
  obtains es plan where "sync sample accepting [] (plan_status_handler sample sample_env ''id'' ready_world) (Some sample_plan) = (es, Some plan, None)"
    "p_Spec plan = sample_spec" "p_meta plan = p_meta sample_plan"
proof -
  obtain es plan where s: "sync sample accepting [] (plan_status_handler sample sample_env ''id'' ready_world) (Some sample_plan) = (es, Some plan, None)"
    using sync_accepted [where handler = "plan_status_handler sample sample_env ''id'' ready_world", OF sample_status_ok] by blast
  have "status_equality sample" by (simp add: status_equality_def)
  from adopted(1,2) [OF this sample_valid s] s show ?thesis using that by (simp add: sample_plan_def)
qed

theorem new_plan_carried_out_witness:
  "\<exists>es plan s. sync sample accepting [] (plan_status_handler sample sample_env ''id'' ready_world) (Some sample_plan) = (es, Some plan, None) \<and>
     s 0 = start_state (with_version ''2'' plan) named_nodes \<and> fair_run sample sample_env ''suc'' upsert (with_version ''2'' plan) s \<and>
     (\<exists>i. \<forall>m\<ge>i. IsTrue (p_Conditions (cl_plan (s m))) PlanComplete)"
proof -
  obtain es plan where y: "sync sample accepting [] (plan_status_handler sample sample_env ''id'' ready_world) (Some sample_plan) = (es, Some plan, None)"
    and p: "p_Spec plan = sample_spec" "p_meta plan = p_meta sample_plan" by (rule sample_adoption)
  let ?plan = "with_version ''2'' plan" let ?c = "start_state ?plan named_nodes"
  note a = adopted [OF _ sample_valid y]
  have se: "status_equality sample" by (simp add: status_equality_def)
  have ap0: "st_Applying (p_Status sample_plan) = []" by (simp add: sample_plan_def)
  then have ap: "st_Applying (p_Status ?plan) = []" using a(4) [OF se] by simp
  have ready: "plan_ready (cl_plan ?c)" using a(5) [OF se] by simp
  have ok: "smooth sample sample_env ''suc'' upsert ?plan named_nodes"
    by (rule named_smooth) (simp_all add: p sample_plan_def empty_meta_def)
  then have h: "rollout_ok sample ?plan named_nodes" "hostnames_are_names named_nodes" "plan_runs sample sample_env ''suc'' ?plan"
    "\<forall>delay. sp_PostCompleteDelay (p_Spec ?plan) = Some delay \<longrightarrow> delay_fits delay" unfolding smooth_def by blast+
  have r: "reachable sample sample_env ''suc'' ''id'' upsert ?plan named_nodes ?c" by (rule reachable.start [OF ap])
  have on: "on_course sample sample_env ''suc'' ?plan ?c" "undisturbed sample sample_env ''suc'' ?plan ?c"
    using ap by (intro start_on_course; simp)+
  obtain s where s: "s 0 = ?c" "fair_run sample sample_env ''suc'' upsert ?plan s"
    by (rule fair_run_exists [OF ok reachable_inv [OF r h(1) sample_labels_ok upsert_ok] reachable_versions [OF r] on(1) ready on(2)])
  from new_plan_carried_out [OF sample_third_party upsert_ok upsert_ttl_ok sample_valid ap0 y refl h s] y s show ?thesis
    by (intro exI [of _ es] exI [of _ plan] exI [of _ s]) blast
qed

end
