(* ===== verification/Scheduling.thy ===== *)
theory Scheduling
  imports JobContract
begin

text \<open>
  Where the pods of the jobs may run: what the affinity that \<^verbatim>\<open>job.New\<close> gives them promises. How the scheduler of
  Kubernetes evaluates a label selector is the parameter \<open>selects\<close>.
\<close>

subsection \<open>What the affinity says\<close>

text \<open>The documented reading of a selector with one requirement that a label has a value.\<close>

definition selects_ok :: "(LabelSelector \<Rightarrow> gomap \<Rightarrow> bool) \<Rightarrow> bool" where
  "selects_ok selects \<longleftrightarrow> (\<forall>key v labels.
     selects \<lparr>ls_MatchLabels = None, ls_MatchExpressions = [\<lparr>lsr_Key = key, lsr_Operator = ''In'', lsr_Values = [v]\<rparr>]\<rparr> labels \<longleftrightarrow>
     mget labels key = Some v)"

text \<open>
  A pod does not go to a node where one of its terms selects a pod that runs there, nor where a term of such a pod selects it. Terms
  that name no namespaces mean the pod's own; a term is about the nodes that agree on its topology key.
\<close>

definition repelled_by :: "(LabelSelector \<Rightarrow> gomap \<Rightarrow> bool) \<Rightarrow> string \<Rightarrow> Job \<Rightarrow> Job \<Rightarrow> bool" where
  "repelled_by selects topology j i \<longleftrightarrow> job_Namespace j = job_Namespace i \<and>
     list_ex (\<lambda>t. pat_TopologyKey t = topology \<and> selects (pat_LabelSelector t) (job_pod_labels i)) (ps_PodAntiAffinity (job_pod j))"

definition kept_apart :: "(LabelSelector \<Rightarrow> gomap \<Rightarrow> bool) \<Rightarrow> string \<Rightarrow> Job \<Rightarrow> Job \<Rightarrow> bool" where
  "kept_apart selects topology j i \<longleftrightarrow> repelled_by selects topology j i \<or> repelled_by selects topology i j"

text \<open>The hostnames that satisfy an alternative of the node affinity, each a list of requirements on the hostname.\<close>

definition admits_host :: "Job \<Rightarrow> string \<Rightarrow> bool" where
  "admits_host j host \<longleftrightarrow> list_ex (list_all (\<lambda>r. nsr_Key r = LabelHostname \<and> nsr_Operator r = ''In'' \<and> host \<in> set (nsr_Values r)))
     (ps_NodeAffinity (job_pod j))"

lemma in_requirement_selects: "selects_ok selects \<Longrightarrow> selects (in_requirement key v) labels \<longleftrightarrow> mget labels key = Some v"
  by (simp add: selects_ok_def in_requirement_def)

lemma job_anti_affinity_New: "job_New X env plan node ctl = Some job \<Longrightarrow> ps_PodAntiAffinity (job_pod job) = job_anti_affinity plan"
  by (auto simp: job_New_def split: option.splits)

lemma FormatBool_eq [simp]: "FormatBool a = FormatBool b \<longleftrightarrow> a = b"
  by (simp add: FormatBool_def)

lemma repelled_by_New:
  assumes "job_New X env p n ctl = Some j" "job_New X' env' q m ctl' = Some i" "plain_elem (p_Name q)" "p_Namespace p = p_Namespace q"
    and "selects_ok selects"
  shows "repelled_by selects LabelHostname j i \<longleftrightarrow>
    (if sp_Exclusive (p_Spec p) then sp_Exclusive (p_Spec q) else p_Name p = p_Name q)"
  using assms(4) job_labels_reserved(2,4) [OF assms(3), of m ctl']
  by (auto simp: repelled_by_def job_anti_affinity_New [OF assms(1)] job_anti_affinity_def in_requirement_selects [OF assms(5)]
      job_New_fields(2,4) [OF assms(1)] job_New_fields(2,4) [OF assms(2)])

text \<open>
  C31: which jobs the scheduler keeps from having pods on one node at the same time: those of the same plan, whatever became of its spec and status
  between their creation, and those of exclusive plans; and no others. In particular a node whose job is still running when the plan gets
  another hash does not run both jobs at once. A pod goes only to a node with the hostname of the job's node.
\<close>

theorem pods_kept_apart_iff:
  assumes "selects_ok selects" "job_New X env p n ctl = Some j" "job_New X' env' q m ctl' = Some i"
    and "plain_elem (p_Name p)" "plain_elem (p_Name q)" "p_Namespace p = p_Namespace q"
  shows "(kept_apart selects LabelHostname j i \<longleftrightarrow> p_Name p = p_Name q \<or> (sp_Exclusive (p_Spec p) \<and> sp_Exclusive (p_Spec q))) \<and>
     (\<forall>host. admits_host j host \<longleftrightarrow> host = Hostname n)"
  using repelled_by_New [OF assms(2,3,5,6,1)] repelled_by_New [OF assms(3,2,4) assms(6) [symmetric] assms(1)]
  by (auto simp: kept_apart_def admits_host_def job_New_fields(10) [OF assms(2)])

text \<open>An evaluation of the four operators that satisfies the hypothesis.\<close>

definition requirement_holds :: "gomap \<Rightarrow> LabelSelectorRequirement \<Rightarrow> bool" where
  "requirement_holds labels r =
     (if lsr_Operator r = ''In'' then (case mget labels (lsr_Key r) of None \<Rightarrow> False | Some v \<Rightarrow> v \<in> set (lsr_Values r))
      else if lsr_Operator r = ''NotIn'' then (case mget labels (lsr_Key r) of None \<Rightarrow> True | Some v \<Rightarrow> v \<notin> set (lsr_Values r))
      else if lsr_Operator r = ''Exists'' then mget labels (lsr_Key r) \<noteq> None
      else mget labels (lsr_Key r) = None)"

definition sample_selects :: "LabelSelector \<Rightarrow> gomap \<Rightarrow> bool" where
  "sample_selects s labels \<longleftrightarrow>
     (case ls_MatchLabels s of None \<Rightarrow> True | Some m \<Rightarrow> \<forall>k\<in>dom m. mget labels k = m k) \<and>
     list_all (requirement_holds labels) (ls_MatchExpressions s)"

lemma sample_selects_ok: "selects_ok sample_selects"
  by (simp add: selects_ok_def sample_selects_def requirement_holds_def split: option.splits)

theorem pods_kept_apart_iff_witness:
  "\<exists>j i. job_New sample (\<lambda>_. None) sample_plan (sample_node ''a'' ''ha'') ''suc'' = Some j \<and>
     job_New sample (\<lambda>_. None) (sample_plan\<lparr>p_Status := (p_Status sample_plan)\<lparr>st_LatestHash := ''other''\<rparr>\<rparr>)
       (sample_node ''a'' ''ha'') ''suc'' = Some i \<and> kept_apart sample_selects LabelHostname j i"
  (is "\<exists>j i. job_New sample _ ?p ?n _ = Some j \<and> job_New sample _ ?q ?n _ = Some i \<and> _")
proof -
  obtain j i where j: "job_New sample (\<lambda>_. None) ?p ?n ''suc'' = Some j" and i: "job_New sample (\<lambda>_. None) ?q ?n ''suc'' = Some i"
    by (auto simp: job_New_def sample_defs cordon_drain_containers_def)
  have "plain_elem (p_Name ?p)" "plain_elem (p_Name ?q)" "p_Namespace ?p = p_Namespace ?q" "p_Name ?p = p_Name ?q"
    by (simp_all add: sample_defs plain_k3s)
  with pods_kept_apart_iff [OF sample_selects_ok j i] j i show ?thesis by blast
qed

end
