(* ===== verification/HandleCore.thy ===== *)
theory HandleCore
  imports Effects
begin

text \<open>
  \<^verbatim>\<open>pkg/upgrade/handle_core.go\<close>: node and secret events enqueue the plans they concern. The answer
  \<open>planList\<close> is what the plan cache lists for the controller's namespace.
\<close>

fun enqueue_matching ::
    "('sel, 'req) extern \<Rightarrow> gomap \<Rightarrow> Plan list \<Rightarrow> effect list \<times> go_error option" where
  "enqueue_matching X labels [] = ([], None)"
| "enqueue_matching X labels (plan # plans) =
     (case LabelSelectorAsSelector X (sp_NodeSelector (p_Spec plan)) of
        Inl err \<Rightarrow> ([], Some err)
      | Inr selector \<Rightarrow>
          (let (es, r) = enqueue_matching X labels plans
           in (if sel_Matches X selector labels then PlanEnqueue (p_Namespace plan) (p_Name plan) # es else es, r)))"

definition handleNodes_OnChange ::
    "('sel, 'req) extern \<Rightarrow> Plan list result \<Rightarrow> Node option \<Rightarrow> effect list \<times> go_error option" where
  "handleNodes_OnChange X planList obj =
     (case obj of
        None \<Rightarrow> ([], None)
      | Some node \<Rightarrow>
          (case planList of
             Inl err \<Rightarrow> ([], Some err)
           | Inr plans \<Rightarrow> enqueue_matching X (n_Labels node) plans))"

text \<open>One enqueue for each mention of the secret that does not ignore updates.\<close>

definition secret_mentions :: "string \<Rightarrow> Plan \<Rightarrow> effect list" where
  "secret_mentions name plan =
     map (\<lambda>_. PlanEnqueue (p_Namespace plan) (p_Name plan))
       (filter (\<lambda>secret. name = ss_Name secret \<and> \<not> ss_IgnoreUpdates secret) (sp_Secrets (p_Spec plan)))"

definition handleSecrets_OnChange ::
    "Plan list result \<Rightarrow> Secret option \<Rightarrow> effect list \<times> go_error option" where
  "handleSecrets_OnChange planList obj =
     (case obj of
        None \<Rightarrow> ([], None)
      | Some secret \<Rightarrow>
          (case planList of
             Inl err \<Rightarrow> ([], Some err)
           | Inr plans \<Rightarrow> (concat (map (secret_mentions (om_Name (sec_meta secret))) plans), None)))"

text \<open>Whether a plan selects the labels, and what an event on them enqueues.\<close>

definition plan_selects :: "('sel, 'req) extern \<Rightarrow> gomap \<Rightarrow> Plan \<Rightarrow> bool" where
  "plan_selects X labels plan =
     (case LabelSelectorAsSelector X (sp_NodeSelector (p_Spec plan)) of
        Inl _ \<Rightarrow> False | Inr s \<Rightarrow> sel_Matches X s labels)"

definition selector_error :: "('sel, 'req) extern \<Rightarrow> Plan \<Rightarrow> go_error option" where
  "selector_error X plan =
     (case LabelSelectorAsSelector X (sp_NodeSelector (p_Spec plan)) of Inl err \<Rightarrow> Some err | Inr _ \<Rightarrow> None)"

text \<open>The first plan with a bad selector stops the loop: no later plan is enqueued.\<close>

lemma enqueue_matching_prefix:
  "enqueue_matching X labels plans =
     (map (\<lambda>p. PlanEnqueue (p_Namespace p) (p_Name p)) (filter (plan_selects X labels) (takeWhile (\<lambda>p. selector_error X p = None) plans)),
      (case dropWhile (\<lambda>p. selector_error X p = None) plans of [] \<Rightarrow> None | bad # _ \<Rightarrow> selector_error X bad))"
  by (induction plans) (auto simp: plan_selects_def selector_error_def split: sum.splits)

lemma secret_mentions_iff:
  "e \<in> set (secret_mentions name p) \<longleftrightarrow> e = PlanEnqueue (p_Namespace p) (p_Name p) \<and>
     (\<exists>s\<in>set (sp_Secrets (p_Spec p)). ss_Name s = name \<and> \<not> ss_IgnoreUpdates s)"
  by (auto simp: secret_mentions_def)


subsection \<open>Properties\<close>

text \<open>
  C38: a node event enqueues, of the plans that the cache lists, exactly those whose selector matches the node's labels, each once
  and in the order of the list, up to the first plan whose selector cannot be built; the error of that selector is returned, and
  no plan listed after it is enqueued. Without such a plan there is no error and every matching plan is enqueued. The event of a
  deleted node enqueues nothing, and an error of the list is returned.
\<close>

theorem node_event_enqueues_matching:
  "handleNodes_OnChange X (Inr plans) (Some node) =
     (map (\<lambda>p. PlanEnqueue (p_Namespace p) (p_Name p))
        (filter (plan_selects X (n_Labels node)) (takeWhile (\<lambda>p. selector_error X p = None) plans)),
      (case dropWhile (\<lambda>p. selector_error X p = None) plans of [] \<Rightarrow> None | bad # _ \<Rightarrow> selector_error X bad)) \<and>
   (snd (handleNodes_OnChange X (Inr plans) (Some node)) = None \<longleftrightarrow>
     takeWhile (\<lambda>p. selector_error X p = None) plans = plans) \<and>
   handleNodes_OnChange X listed None = ([], None) \<and>
   handleNodes_OnChange X (Inl err) (Some node) = ([], Some err)"
proof -
  have "(case dropWhile (\<lambda>p. selector_error X p = None) ps of [] \<Rightarrow> None | bad # _ \<Rightarrow> selector_error X bad) = None \<longleftrightarrow>
      takeWhile (\<lambda>p. selector_error X p = None) ps = ps" for ps
    by (induction ps) auto
  then show ?thesis by (simp add: handleNodes_OnChange_def enqueue_matching_prefix)
qed

text \<open>
  A plan whose selector cannot be built ends the loop over the plans with its error: the matching
  plans listed before it are enqueued, those listed after it never are.
\<close>

lemma node_event_stops_at_bad_selector:
  assumes "\<forall>p\<in>set before. selector_error X p = None" "selector_error X bad = Some err"
  shows "handleNodes_OnChange X (Inr (before @ bad # after)) (Some node) =
    (map (\<lambda>p. PlanEnqueue (p_Namespace p) (p_Name p)) (filter (plan_selects X (n_Labels node)) before), Some err)"
  using assms by (simp add: handleNodes_OnChange_def enqueue_matching_prefix)

text \<open>
  A secret event enqueues a plan of the listed ones exactly when the plan names the secret in an entry
  that does not ignore updates, and it never fails once the plans are listed.
\<close>

lemma secret_event_enqueues_users:
  "(e \<in> set (fst (handleSecrets_OnChange (Inr plans) (Some secret))) \<longleftrightarrow>
     (\<exists>p\<in>set plans. e = PlanEnqueue (p_Namespace p) (p_Name p) \<and>
       (\<exists>s\<in>set (sp_Secrets (p_Spec p)). ss_Name s = om_Name (sec_meta secret) \<and> \<not> ss_IgnoreUpdates s))) \<and>
   snd (handleSecrets_OnChange (Inr plans) (Some secret)) = None"
  by (auto simp: handleSecrets_OnChange_def secret_mentions_iff)

end
