(* ===== verification/GoHeap.thy ===== *)
theory GoHeap
  imports Prelude "HOL-Library.State_Monad"
begin

text \<open>
  The memory of a Go program as far as copying needs it: cells that are reached through pointers,
  slices and maps. What is copied is stated by a denotation, which gives the value an expression has in a heap
  together with the addresses it uses; the locale \<open>deep_copy\<close> is the contract of a deep copy. It is
  closed under pointers, slices, pairs and structs, so the contract of a struct follows from those of its fields.
\<close>

named_theorems copy_rules

subsection \<open>Cells\<close>

type_synonym addr = nat

text \<open>
  The cells below \<open>next_addr\<close> have been handed out. A slice is a window into an array; \<^const>\<open>None\<close> is
  the nil pointer, slice or map.
\<close>

record 'c gheap =
  cells :: "addr \<rightharpoonup> 'c"
  next_addr :: addr

record slice =
  sl_array :: addr
  sl_off :: nat
  sl_len :: nat

type_synonym ('c, 'a) mem = "('c gheap, 'a) state"
type_synonym ('c, 'a, 'v) denotation = "'c gheap \<Rightarrow> 'a \<Rightarrow> ('v \<times> addr set) option"

abbreviation pure :: "'a \<Rightarrow> ('c, 'a) mem" where "pure \<equiv> State_Monad.return"

definition new_addr :: "('c, addr) mem" where
  "new_addr = State (\<lambda>h. (next_addr h, h\<lparr>next_addr := Suc (next_addr h)\<rparr>))"

definition store :: "addr \<Rightarrow> 'c \<Rightarrow> ('c, unit) mem" where
  "store a c = State (\<lambda>h. ((), h\<lparr>cells := (cells h)(a := Some c)\<rparr>))"

text \<open>The content of a cell, when it is of the kind that \<open>get\<close> looks for.\<close>

definition load :: "('c \<Rightarrow> 'a option) \<Rightarrow> addr \<Rightarrow> ('c, 'a option) mem" where
  "load get a = State (\<lambda>h. (Option.bind (cells h a) get, h))"

lemma run_mem [simp]:
  "run_state new_addr h = (next_addr h, h\<lparr>next_addr := Suc (next_addr h)\<rparr>)"
  "run_state (store a c) h = ((), h\<lparr>cells := (cells h)(a := Some c)\<rparr>)"
  "run_state (load get a) h = (Option.bind (cells h a) get, h)"
  by (simp_all add: new_addr_def store_def load_def)

subsection \<open>Copying\<close>

text \<open>
  The two shapes of the generated copies, for a field that is not nil: allocate, copy what the
  pointer or slice refers to with \<open>into\<close>, and put it there. The new cell is filled when its content is
  complete, as nothing else can read it before. In Go a pointer always refers to a cell of its type; the
  model leaves one that does not as the shallow copy has it.
\<close>

definition copy_ptr ::
    "('a \<Rightarrow> 'c) \<Rightarrow> ('c \<Rightarrow> 'a option) \<Rightarrow> ('a \<Rightarrow> ('c, 'a) mem) \<Rightarrow> addr option \<Rightarrow> ('c, addr option) mem" where
  "copy_ptr mk get into p =
     (case p of
        None \<Rightarrow> pure None
      | Some a \<Rightarrow> do {
          c \<leftarrow> load get a;
          (case c of
             None \<Rightarrow> pure p
           | Some x \<Rightarrow> do {
               b \<leftarrow> new_addr;
               y \<leftarrow> into x;
               store b (mk y);
               pure (Some b)
             })
        })"

definition window :: "slice \<Rightarrow> 'a list \<Rightarrow> 'a list" where
  "window s xs = take (sl_len s) (drop (sl_off s) xs)"

lemma window_whole [simp]: "window \<lparr>sl_array = b, sl_off = 0, sl_len = length xs\<rparr> xs = xs"
  by (simp add: window_def)

definition copy_slice ::
    "('a list \<Rightarrow> 'c) \<Rightarrow> ('c \<Rightarrow> 'a list option) \<Rightarrow> ('a \<Rightarrow> ('c, 'a) mem) \<Rightarrow> slice option \<Rightarrow> ('c, slice option) mem" where
  "copy_slice mk get into s =
     (case s of
        None \<Rightarrow> pure None
      | Some sl \<Rightarrow> do {
          c \<leftarrow> load get (sl_array sl);
          (case c of
             None \<Rightarrow> pure s
           | Some xs \<Rightarrow> do {
               b \<leftarrow> new_addr;
               ys \<leftarrow> State_Monad.traverse_list into (window sl xs);
               store b (mk ys);
               pure (Some \<lparr>sl_array = b, sl_off = 0, sl_len = length ys\<rparr>)
             })
        })"

text \<open>Two fields of a struct, one after the other.\<close>

definition copy_pair ::
    "('a \<Rightarrow> ('c, 'a) mem) \<Rightarrow> ('b \<Rightarrow> ('c, 'b) mem) \<Rightarrow> 'a \<times> 'b \<Rightarrow> ('c, 'a \<times> 'b) mem" where
  "copy_pair into1 into2 xy = do { x \<leftarrow> into1 (fst xy); y \<leftarrow> into2 (snd xy); pure (x, y) }"

subsection \<open>Denotations\<close>

text \<open>A value without pointers uses no cell.\<close>

definition den_flat :: "('c, 'a, 'a) denotation" where
  "den_flat h x = Some (x, {})"

definition den_pair :: "('c, 'a, 'v) denotation \<Rightarrow> ('c, 'b, 'w) denotation \<Rightarrow> ('c, 'a \<times> 'b, 'v \<times> 'w) denotation" where
  "den_pair d1 d2 h xy =
     (case (d1 h (fst xy), d2 h (snd xy)) of (Some (v, A), Some (w, B)) \<Rightarrow> Some ((v, w), A \<union> B) | _ \<Rightarrow> None)"

definition den_ptr :: "('c \<Rightarrow> 'a option) \<Rightarrow> ('c, 'a, 'v) denotation \<Rightarrow> ('c, addr option, 'v option) denotation" where
  "den_ptr get d h p =
     (case p of
        None \<Rightarrow> Some (None, {})
      | Some a \<Rightarrow>
          (case Option.bind (cells h a) get of
             None \<Rightarrow> None
           | Some x \<Rightarrow> map_option (\<lambda>(v, A). (Some v, insert a A)) (d h x)))"

fun den_list :: "('c, 'a, 'v) denotation \<Rightarrow> ('c, 'a list, 'v list) denotation" where
  "den_list d h [] = Some ([], {})"
| "den_list d h (x # xs) =
     (case (d h x, den_list d h xs) of (Some (v, A), Some (vs, B)) \<Rightarrow> Some (v # vs, A \<union> B) | _ \<Rightarrow> None)"

definition den_slice :: "('c \<Rightarrow> 'a list option) \<Rightarrow> ('c, 'a, 'v) denotation \<Rightarrow> ('c, slice option, 'v list option) denotation" where
  "den_slice get d h s =
     (case s of
        None \<Rightarrow> Some (None, {})
      | Some sl \<Rightarrow>
          (case Option.bind (cells h (sl_array sl)) get of
             None \<Rightarrow> None
           | Some xs \<Rightarrow>
               (if sl_off sl + sl_len sl \<le> length xs
                then map_option (\<lambda>(vs, A). (Some vs, insert (sl_array sl) A)) (den_list d h (window sl xs))
                else None)))"

text \<open>A struct is its fields without pointers and the tuple of the others.\<close>

definition den_struct :: "('s \<Rightarrow> 'p) \<Rightarrow> ('s \<Rightarrow> 't) \<Rightarrow> ('c, 't, 'v) denotation \<Rightarrow> ('c, 's, 'p \<times> 'v) denotation" where
  "den_struct plain refs d h s = map_option (\<lambda>(v, A). ((plain s, v), A)) (d h (refs s))"

subsection \<open>The contract\<close>

text \<open>What a copy leaves: the cells handed out before it.\<close>

definition unchanged :: "'c gheap \<Rightarrow> 'c gheap \<Rightarrow> bool" where
  "unchanged h h' \<longleftrightarrow> next_addr h \<le> next_addr h' \<and> (\<forall>a<next_addr h. cells h' a = cells h a)"

lemma unchanged_refl [simp]: "unchanged h h"
  by (simp add: unchanged_def)

lemma unchanged_trans: "unchanged h h' \<Longrightarrow> unchanged h' h'' \<Longrightarrow> unchanged h h''"
  by (auto simp: unchanged_def)

definition copied ::
    "('c, 'a, 'v) denotation \<Rightarrow> 'v \<Rightarrow> 'c gheap \<Rightarrow> 'a \<times> 'c gheap \<Rightarrow> bool" where
  "copied d v h r \<longleftrightarrow> unchanged h (snd r) \<and>
     (\<exists>B. d (snd r) (fst r) = Some (v, B) \<and> B \<subseteq> {next_addr h..<next_addr (snd r)})"

text \<open>
  The contract of \<open>into\<close>. A denotation depends on the cells it uses only. Copying what has the value \<open>v\<close> gives
  something with that value which uses new cells only, and leaves the cells that were there.
\<close>

locale deep_copy =
  fixes into :: "'a \<Rightarrow> ('c, 'a) mem" and d :: "('c, 'a, 'v) denotation"
  assumes local: "d h x = Some (v, A) \<Longrightarrow> (\<And>a. a \<in> A \<Longrightarrow> cells h' a = cells h a) \<Longrightarrow> d h' x = Some (v, A)"
    and copies: "d h x = Some (v, A) \<Longrightarrow> A \<subseteq> {..<next_addr h} \<Longrightarrow> copied d v h (run_state (into x) h)"
begin

text \<open>After the copy the original has its value still.\<close>

lemma original: "d h x = Some (v, A) \<Longrightarrow> A \<subseteq> {..<next_addr h} \<Longrightarrow> unchanged h h' \<Longrightarrow> d h' x = Some (v, A)"
  by (erule local) (auto simp: unchanged_def)

text \<open>The copy and the original share no cell, so no write through the one is seen by the other.\<close>

lemma independent:
  assumes "d h x = Some (v, A)" "A \<subseteq> {..<next_addr h}" "run_state (into x) h = (y, h')"
  obtains B where "d h' y = Some (v, B)" "A \<inter> B = {}"
    "\<forall>h''. (\<forall>a. a \<notin> A \<longrightarrow> cells h'' a = cells h' a) \<longrightarrow> d h'' y = Some (v, B)"
    "\<forall>h''. (\<forall>a. a \<notin> B \<longrightarrow> cells h'' a = cells h' a) \<longrightarrow> d h'' x = Some (v, A)"
proof -
  obtain B where B: "unchanged h h'" "d h' y = Some (v, B)" "B \<subseteq> {next_addr h..<next_addr h'}"
    using copies [OF assms(1,2)] assms(3) by (auto simp: copied_def)
  have AB: "A \<inter> B = {}" using assms(2) B(3) by fastforce
  have x: "d h' x = Some (v, A)" by (rule original [OF assms(1,2) B(1)])
  show thesis
  proof (rule that [OF B(2) AB]; intro allI impI)
    show "d h'' y = Some (v, B)" if "\<forall>a. a \<notin> A \<longrightarrow> cells h'' a = cells h' a" for h''
      using AB that by (intro local [OF B(2)]) blast
    show "d h'' x = Some (v, A)" if "\<forall>a. a \<notin> B \<longrightarrow> cells h'' a = cells h' a" for h''
      using AB that by (intro local [OF x]) blast
  qed
qed

end

subsection \<open>Combining copies\<close>

lemma deep_copy_flat [copy_rules]: "deep_copy pure den_flat"
  by unfold_locales (auto simp: den_flat_def copied_def)

text \<open>Copying two things: the second is not touched by the copy of the first, nor the first copy by the second.\<close>

lemma copied_pair:
  assumes "deep_copy into1 d1" "copied d1 v h (run_state (into1 x) h)"
    and local: "\<And>h'. unchanged h h' \<Longrightarrow> d2 h' y = Some (w, B)" and lt: "B \<subseteq> {..<next_addr h}"
    and second: "\<And>h1. d2 h1 y = Some (w, B) \<Longrightarrow> B \<subseteq> {..<next_addr h1} \<Longrightarrow> copied d2 w h1 (run_state (into2 y) h1)"
  shows "copied (den_pair d1 d2) (v, w) h (run_state (copy_pair into1 into2 (x, y)) h)"
proof -
  obtain x' h1 where r1: "run_state (into1 x) h = (x', h1)" by fastforce
  obtain A' where c1: "unchanged h h1" "d1 h1 x' = Some (v, A')" "A' \<subseteq> {next_addr h..<next_addr h1}"
    using assms(2) r1 by (auto simp: copied_def)
  obtain y' h2 where r2: "run_state (into2 y) h1 = (y', h2)" by fastforce
  have "B \<subseteq> {..<next_addr h1}" using lt c1(1) by (auto simp: unchanged_def)
  then obtain B' where c2: "unchanged h1 h2" "d2 h2 y' = Some (w, B')" "B' \<subseteq> {next_addr h1..<next_addr h2}"
    using second [OF local [OF c1(1)]] r2 by (auto simp: copied_def)
  have "d1 h2 x' = Some (v, A')" using c1(3) by (intro deep_copy.original [OF assms(1) c1(2) _ c2(1)]) auto
  moreover have "A' \<union> B' \<subseteq> {next_addr h..<next_addr h2}"
    using c1(1,3) c2(1,3) by (fastforce simp: unchanged_def)
  ultimately show ?thesis
    using unchanged_trans [OF c1(1) c2(1)] c2(2) by (simp add: copied_def copy_pair_def r1 r2 den_pair_def)
qed

lemma den_pair_Some:
  "den_pair d1 d2 h xy = Some (vw, AB) \<longleftrightarrow>
     (\<exists>v w A B. vw = (v, w) \<and> AB = A \<union> B \<and> d1 h (fst xy) = Some (v, A) \<and> d2 h (snd xy) = Some (w, B))"
  by (auto simp: den_pair_def split: option.splits prod.splits)

lemma deep_copy_pair [copy_rules]:
  assumes "deep_copy into1 d1" "deep_copy into2 d2"
  shows "deep_copy (copy_pair into1 into2) (den_pair d1 d2)"
proof
  fix h h' :: "_ gheap" and xy vw AB
  assume "den_pair d1 d2 h xy = Some (vw, AB)" "\<And>a. a \<in> AB \<Longrightarrow> cells h' a = cells h a"
  then show "den_pair d1 d2 h' xy = Some (vw, AB)"
    using deep_copy.local [OF assms(1)] deep_copy.local [OF assms(2)] unfolding den_pair_Some by (metis UnI1 UnI2)
next
  fix h xy vw AB
  assume "den_pair d1 d2 h xy = Some (vw, AB)" and lt: "AB \<subseteq> {..<next_addr h}"
  then obtain v w A B where p: "vw = (v, w)" "AB = A \<union> B" "d1 h (fst xy) = Some (v, A)" "d2 h (snd xy) = Some (w, B)"
    unfolding den_pair_Some by blast
  have lt: "A \<subseteq> {..<next_addr h}" "B \<subseteq> {..<next_addr h}" using lt p(2) by auto
  have "copied (den_pair d1 d2) (v, w) h (run_state (copy_pair into1 into2 (fst xy, snd xy)) h)"
    by (rule copied_pair [OF assms(1) deep_copy.copies [OF assms(1) p(3) lt(1)] deep_copy.original [OF assms(2) p(4) lt(2)] lt(2)
        deep_copy.copies [OF assms(2)]])
  then show "copied (den_pair d1 d2) vw h (run_state (copy_pair into1 into2 xy) h)" by (simp add: p(1))
qed

text \<open>The loop over the elements of a slice.\<close>

lemma den_list_Cons:
  "den_list d h (x # xs) = map_option (\<lambda>((v, vs), A). (v # vs, A)) (den_pair d (den_list d) h (x, xs))"
  by (simp add: den_pair_def split: option.split prod.split)

lemma traverse_list_Cons:
  "State_Monad.traverse_list into (x # xs) = do {
     p \<leftarrow> copy_pair into (State_Monad.traverse_list into) (x, xs);
     pure (fst p # snd p)
   }"
  by (simp add: copy_pair_def)

lemma den_list_local:
  assumes "deep_copy into d"
  shows "den_list d h xs = Some (vs, A) \<Longrightarrow> (\<And>a. a \<in> A \<Longrightarrow> cells h' a = cells h a) \<Longrightarrow> den_list d h' xs = Some (vs, A)"
proof (induction xs arbitrary: vs A)
  case (Cons x xs)
  obtain v us B C where p: "vs = v # us" "A = B \<union> C" "d h x = Some (v, B)" "den_list d h xs = Some (us, C)"
    using Cons.prems(1) by (auto split: option.splits)
  have "d h' x = Some (v, B)" using p(2) Cons.prems(2) by (intro deep_copy.local [OF assms p(3)]) simp
  moreover have "den_list d h' xs = Some (us, C)" using p(2) Cons.prems(2) by (intro Cons.IH [OF p(4)]) simp
  ultimately show ?case by (simp add: p(1,2))
qed simp

lemma den_list_copies:
  assumes "deep_copy into d"
  shows "den_list d h xs = Some (vs, A) \<Longrightarrow> A \<subseteq> {..<next_addr h} \<Longrightarrow>
     copied (den_list d) vs h (run_state (State_Monad.traverse_list into xs) h)"
proof (induction xs arbitrary: h vs A)
  case Nil
  then show ?case by (simp add: copied_def)
next
  case (Cons x xs)
  obtain v us B C where p: "vs = v # us" "A = B \<union> C" "d h x = Some (v, B)" "den_list d h xs = Some (us, C)"
    using Cons.prems(1) by (auto split: option.splits)
  have lt: "B \<subseteq> {..<next_addr h}" "C \<subseteq> {..<next_addr h}" using Cons.prems(2) p(2) by auto
  have "den_list d h' xs = Some (us, C)" if "unchanged h h'" for h'
    using lt(2) that by (intro den_list_local [OF assms p(4)]) (auto simp: unchanged_def)
  then have "copied (den_pair d (den_list d)) (v, us) h
      (run_state (copy_pair into (State_Monad.traverse_list into) (x, xs)) h)"
    by (rule copied_pair [OF assms deep_copy.copies [OF assms p(3) lt(1)]]) (use lt(2) Cons.IH in auto)
  then show ?case
    by (auto simp: copied_def traverse_list_Cons p(1) den_list_Cons simp del: State_Monad.traverse_list.simps den_list.simps
        split: prod.splits)
qed

lemma deep_copy_list [copy_rules]: "deep_copy into d \<Longrightarrow> deep_copy (State_Monad.traverse_list into) (den_list d)"
  using den_list_local den_list_copies by unfold_locales blast+

text \<open>The step that allocates, for pointers and slices alike.\<close>

lemma copied_alloc:
  assumes "deep_copy into d" "d h x = Some (v, A)" "A \<subseteq> {..<next_addr h}" "get (mk y) = Some y"
    and "run_state (into x) (h\<lparr>next_addr := Suc (next_addr h)\<rparr>) = (y, h1)"
    and "h' = h1\<lparr>cells := (cells h1)(next_addr h := Some (mk y))\<rparr>"
  shows "unchanged h h'" "\<exists>B. d h' y = Some (v, B) \<and> insert (next_addr h) B \<subseteq> {next_addr h..<next_addr h'}"
    "Option.bind (cells h' (next_addr h)) get = Some y"
proof -
  let ?h0 = "h\<lparr>next_addr := Suc (next_addr h)\<rparr>"
  have "d ?h0 x = Some (v, A)" by (rule deep_copy.local [OF assms(1,2)]) simp
  moreover have "A \<subseteq> {..<next_addr ?h0}" using assms(3) by auto
  ultimately obtain B where B: "unchanged ?h0 h1" "d h1 y = Some (v, B)" "B \<subseteq> {Suc (next_addr h)..<next_addr h1}"
    using deep_copy.copies [OF assms(1), of ?h0 x v A] assms(5) by (auto simp: copied_def)
  have "d h' y = Some (v, B)" using B(3) by (intro deep_copy.local [OF assms(1) B(2)]) (auto simp: assms(6))
  moreover have "insert (next_addr h) B \<subseteq> {next_addr h..<next_addr h'}"
    using B(1,3) by (auto simp: assms(6) unchanged_def)
  ultimately show "\<exists>B. d h' y = Some (v, B) \<and> insert (next_addr h) B \<subseteq> {next_addr h..<next_addr h'}" by blast
  show "unchanged h h'" using B(1) by (auto simp: unchanged_def assms(6))
  show "Option.bind (cells h' (next_addr h)) get = Some y" by (simp add: assms(4,6))
qed

lemma den_ptr_Some:
  "den_ptr get d h (Some a) = Some (v, A) \<longleftrightarrow>
     (\<exists>x w B. Option.bind (cells h a) get = Some x \<and> d h x = Some (w, B) \<and> v = Some w \<and> A = insert a B)"
  by (auto simp: den_ptr_def split: option.splits)

lemma den_slice_Some:
  "den_slice get d h (Some sl) = Some (v, A) \<longleftrightarrow>
     (\<exists>xs ws B. Option.bind (cells h (sl_array sl)) get = Some xs \<and> sl_off sl + sl_len sl \<le> length xs \<and>
        den_list d h (window sl xs) = Some (ws, B) \<and> v = Some ws \<and> A = insert (sl_array sl) B)"
  by (auto simp: den_slice_def split: option.splits if_splits)

lemma deep_copy_ptr [copy_rules]:
  assumes "deep_copy into d" "\<And>x. get (mk x) = Some x"
  shows "deep_copy (copy_ptr mk get into) (den_ptr get d)"
proof
  fix h h' :: "_ gheap" and p v A
  assume a: "den_ptr get d h p = Some (v, A)" and eq: "\<And>a. a \<in> A \<Longrightarrow> cells h' a = cells h a"
  show "den_ptr get d h' p = Some (v, A)"
  proof (cases p)
    case None
    with a show ?thesis by (simp add: den_ptr_def)
  next
    case (Some a')
    obtain x w B where x: "Option.bind (cells h a') get = Some x" "d h x = Some (w, B)" "v = Some w" "A = insert a' B"
      using a unfolding Some den_ptr_Some by blast
    have "d h' x = Some (w, B)" using x(4) eq by (intro deep_copy.local [OF assms(1) x(2)]) simp
    with x eq show ?thesis unfolding Some den_ptr_Some by simp
  qed
next
  fix h p v A
  assume a: "den_ptr get d h p = Some (v, A)" and lt: "A \<subseteq> {..<next_addr h}"
  show "copied (den_ptr get d) v h (run_state (copy_ptr mk get into p) h)"
  proof (cases p)
    case None
    then show ?thesis using a by (simp add: copy_ptr_def copied_def den_ptr_def)
  next
    case (Some a')
    obtain x w A' where x: "Option.bind (cells h a') get = Some x" "d h x = Some (w, A')" "v = Some w" "A = insert a' A'"
      using a unfolding Some den_ptr_Some by blast
    obtain y h1 where r: "run_state (into x) (h\<lparr>next_addr := Suc (next_addr h)\<rparr>) = (y, h1)" by fastforce
    have lt': "A' \<subseteq> {..<next_addr h}" using lt x(4) by simp
    note c = copied_alloc [where get = get and mk = mk, OF assms(1) x(2) lt' assms(2) r refl]
    from c(2) obtain B where "d (h1\<lparr>cells := (cells h1)(next_addr h := Some (mk y))\<rparr>) y = Some (w, B)"
      "insert (next_addr h) B \<subseteq> {next_addr h..<next_addr (h1\<lparr>cells := (cells h1)(next_addr h := Some (mk y))\<rparr>)}" by blast
    with c(1,3) show ?thesis unfolding copied_def
      by (simp add: copy_ptr_def Some x(1,3) r den_ptr_def)
  qed
qed

lemma deep_copy_slice [copy_rules]:
  assumes "deep_copy into d" "\<And>xs. get (mk xs) = Some xs"
  shows "deep_copy (copy_slice mk get into) (den_slice get d)"
proof
  note L = deep_copy_list [OF assms(1)]
  fix h h' :: "_ gheap" and s v A
  assume a: "den_slice get d h s = Some (v, A)" and eq: "\<And>a. a \<in> A \<Longrightarrow> cells h' a = cells h a"
  show "den_slice get d h' s = Some (v, A)"
  proof (cases s)
    case None
    with a show ?thesis by (simp add: den_slice_def)
  next
    case (Some sl)
    obtain xs ws B where x: "Option.bind (cells h (sl_array sl)) get = Some xs" "sl_off sl + sl_len sl \<le> length xs"
      "den_list d h (window sl xs) = Some (ws, B)" "v = Some ws" "A = insert (sl_array sl) B"
      using a unfolding Some den_slice_Some by blast
    have "den_list d h' (window sl xs) = Some (ws, B)" using x(5) eq by (intro deep_copy.local [OF L x(3)]) simp
    with x eq show ?thesis unfolding Some den_slice_Some by simp
  qed
next
  note L = deep_copy_list [OF assms(1)]
  fix h s v A
  assume a: "den_slice get d h s = Some (v, A)" and lt: "A \<subseteq> {..<next_addr h}"
  show "copied (den_slice get d) v h (run_state (copy_slice mk get into s) h)"
  proof (cases s)
    case None
    then show ?thesis using a by (simp add: copy_slice_def copied_def den_slice_def)
  next
    case (Some sl)
    obtain xs w A' where x: "Option.bind (cells h (sl_array sl)) get = Some xs" "den_list d h (window sl xs) = Some (w, A')"
      "v = Some w" "A = insert (sl_array sl) A'"
      using a unfolding Some den_slice_Some by blast
    obtain ys h1 where r: "run_state (State_Monad.traverse_list into (window sl xs)) (h\<lparr>next_addr := Suc (next_addr h)\<rparr>) = (ys, h1)"
      by fastforce
    have lt': "A' \<subseteq> {..<next_addr h}" using lt x(4) by simp
    note c = copied_alloc [where get = get and mk = mk, OF L x(2) lt' assms(2) r refl]
    from c(2) obtain B where "den_list d (h1\<lparr>cells := (cells h1)(next_addr h := Some (mk ys))\<rparr>) ys = Some (w, B)"
      "insert (next_addr h) B \<subseteq> {next_addr h..<next_addr (h1\<lparr>cells := (cells h1)(next_addr h := Some (mk ys))\<rparr>)}" by blast
    with c(1,3) show ?thesis unfolding copied_def
      by (simp add: copy_slice_def Some x(1,3) r den_slice_def)
  qed
qed

lemma deep_copy_struct:
  assumes "deep_copy into d"
    and "\<And>s. into' s = do { t \<leftarrow> into (refs s); pure (put t s) }"
    and "\<And>t s. refs (put t s) = t" "\<And>t s. plain (put t s) = plain s"
  shows "deep_copy into' (den_struct plain refs d)"
proof
  fix h h' :: "_ gheap" and s v A
  assume "den_struct plain refs d h s = Some (v, A)" "\<And>a. a \<in> A \<Longrightarrow> cells h' a = cells h a"
  then show "den_struct plain refs d h' s = Some (v, A)"
    by (auto simp: den_struct_def intro: deep_copy.local [OF assms(1)])
next
  fix h s v A
  assume "den_struct plain refs d h s = Some (v, A)" "A \<subseteq> {..<next_addr h}"
  then obtain w where w: "d h (refs s) = Some (w, A)" "v = (plain s, w)" "A \<subseteq> {..<next_addr h}"
    by (auto simp: den_struct_def)
  show "copied (den_struct plain refs d) v h (run_state (into' s) h)"
    using deep_copy.copies [OF assms(1) w(1,3)]
    by (auto simp: copied_def assms(2,3,4) den_struct_def w(2) split: prod.splits)
qed

end
