(* ===== verification/DeepCopy.thy ===== *)
theory DeepCopy
  imports PlanTypes GoHeap
begin

text \<open>
  \<^verbatim>\<open>pkg/apis/upgrade.cattle.io/v1/zz_generated_deepcopy.go\<close>: the deep copies of the resource, on structs that
  hold addresses. Structs of other modules are of the type \<open>'f\<close>; their \<^verbatim>\<open>DeepCopyInto\<close> is the parameter \<open>F\<close> and what they
  denote the parameter \<open>D\<close>, and the theorems assume the contract \<open>deep_copy F D\<close>. In the rest of the development a
  resource is a value without addresses; this theory is why a deep copy can be the value itself there.
\<close>

subsection \<open>Structs with addresses\<close>

record gContainerSpec =
  gc_Image :: string
  gc_Command :: "slice option"
  gc_Args :: "slice option"
  gc_Env :: "slice option"
  gc_EnvFrom :: "slice option"
  gc_Volumes :: "slice option"
  gc_SecurityContext :: "addr option"

record gDrainSpec =
  gd_Timeout :: "addr option"
  gd_GracePeriod :: "addr option"
  gd_DeleteLocalData :: "addr option"
  gd_DeleteEmptydirData :: "addr option"
  gd_IgnoreDaemonSets :: "addr option"
  gd_Force :: bool
  gd_DisableEviction :: bool
  gd_SkipWaitForDeleteTimeout :: int
  gd_PodSelector :: "addr option"

record gSecretSpec =
  gs_Name :: string
  gs_Path :: string
  gs_IgnoreUpdates :: bool
  gs_DefaultMode :: "addr option"

record gTimeWindowSpec =
  gw_Days :: "slice option"
  gw_StartTime :: string
  gw_EndTime :: string
  gw_TimeZone :: string

record gPlanSpec =
  gp_Concurrency :: int
  gp_JobActiveDeadlineSecs :: "addr option"
  gp_NodeSelector :: "addr option"
  gp_ServiceAccountName :: string
  gp_Channel :: string
  gp_Version :: string
  gp_Secrets :: "slice option"
  gp_Tolerations :: "slice option"
  gp_Exclusive :: bool
  gp_Window :: "addr option"
  gp_Prepare :: "addr option"
  gp_Upgrade :: "addr option"
  gp_Cordon :: bool
  gp_Drain :: "addr option"
  gp_ImagePullSecrets :: "slice option"
  gp_PostCompleteDelay :: "addr option"
  gp_PriorityClassName :: string
  gp_PostCompleteLabels :: "addr option"

record gPlanStatus =
  gst_Conditions :: "slice option"
  gst_LatestVersion :: string
  gst_LatestHash :: string
  gst_Applying :: "slice option"

record TypeMeta =
  tm_Kind :: string
  tm_APIVersion :: string

record 'f gPlan =
  gpl_TypeMeta :: TypeMeta
  gpl_ObjectMeta :: 'f
  gpl_Spec :: gPlanSpec
  gpl_Status :: gPlanStatus

record 'f gPlanList =
  gl_TypeMeta :: TypeMeta
  gl_ListMeta :: 'f
  gl_Items :: "slice option"

text \<open>What a pointer, a slice or a map of the resource can refer to.\<close>

datatype 'f cell =
    Strings "string list"
  | VolumeSpecs "VolumeSpec list"
  | SecretSpecs "gSecretSpec list"
  | LocalObjectReferences "string list"
  | GenericConditions "GenericCondition list"
  | Plans "'f gPlan list"
  | Structs "'f list"
  | Struct 'f
  | IntOrStr IntOrString
  | Number int
  | Bool bool
  | Duration duration
  | StringMap "string \<rightharpoonup> string"
  | aContainerSpec gContainerSpec
  | aDrainSpec gDrainSpec
  | aSecretSpec gSecretSpec
  | aTimeWindowSpec gTimeWindowSpec
  | aVolumeSpec VolumeSpec
  | aPlanSpec gPlanSpec
  | aPlanStatus gPlanStatus
  | aPlan "'f gPlan"
  | aPlanList "'f gPlanList"

definition get_Strings where "get_Strings c = (case c of Strings x \<Rightarrow> Some x | _ \<Rightarrow> None)"
definition get_VolumeSpecs where "get_VolumeSpecs c = (case c of VolumeSpecs x \<Rightarrow> Some x | _ \<Rightarrow> None)"
definition get_SecretSpecs where "get_SecretSpecs c = (case c of SecretSpecs x \<Rightarrow> Some x | _ \<Rightarrow> None)"
definition get_LocalObjectReferences where "get_LocalObjectReferences c = (case c of LocalObjectReferences x \<Rightarrow> Some x | _ \<Rightarrow> None)"
definition get_GenericConditions where "get_GenericConditions c = (case c of GenericConditions x \<Rightarrow> Some x | _ \<Rightarrow> None)"
definition get_Plans where "get_Plans c = (case c of Plans x \<Rightarrow> Some x | _ \<Rightarrow> None)"
definition get_Structs where "get_Structs c = (case c of Structs x \<Rightarrow> Some x | _ \<Rightarrow> None)"
definition get_Struct where "get_Struct c = (case c of Struct x \<Rightarrow> Some x | _ \<Rightarrow> None)"
definition get_IntOrStr where "get_IntOrStr c = (case c of IntOrStr x \<Rightarrow> Some x | _ \<Rightarrow> None)"
definition get_Number where "get_Number c = (case c of Number x \<Rightarrow> Some x | _ \<Rightarrow> None)"
definition get_Bool where "get_Bool c = (case c of Bool x \<Rightarrow> Some x | _ \<Rightarrow> None)"
definition get_Duration where "get_Duration c = (case c of Duration x \<Rightarrow> Some x | _ \<Rightarrow> None)"
definition get_StringMap where "get_StringMap c = (case c of StringMap x \<Rightarrow> Some x | _ \<Rightarrow> None)"
definition get_ContainerSpec where "get_ContainerSpec c = (case c of aContainerSpec x \<Rightarrow> Some x | _ \<Rightarrow> None)"
definition get_DrainSpec where "get_DrainSpec c = (case c of aDrainSpec x \<Rightarrow> Some x | _ \<Rightarrow> None)"
definition get_SecretSpec where "get_SecretSpec c = (case c of aSecretSpec x \<Rightarrow> Some x | _ \<Rightarrow> None)"
definition get_TimeWindowSpec where "get_TimeWindowSpec c = (case c of aTimeWindowSpec x \<Rightarrow> Some x | _ \<Rightarrow> None)"
definition get_VolumeSpec where "get_VolumeSpec c = (case c of aVolumeSpec x \<Rightarrow> Some x | _ \<Rightarrow> None)"
definition get_PlanSpec where "get_PlanSpec c = (case c of aPlanSpec x \<Rightarrow> Some x | _ \<Rightarrow> None)"
definition get_PlanStatus where "get_PlanStatus c = (case c of aPlanStatus x \<Rightarrow> Some x | _ \<Rightarrow> None)"
definition get_Plan where "get_Plan c = (case c of aPlan x \<Rightarrow> Some x | _ \<Rightarrow> None)"
definition get_PlanList where "get_PlanList c = (case c of aPlanList x \<Rightarrow> Some x | _ \<Rightarrow> None)"

lemma get_Strings_cell [simp, copy_rules]: "get_Strings (Strings x) = Some x" by (simp add: get_Strings_def)
lemma get_VolumeSpecs_cell [simp, copy_rules]: "get_VolumeSpecs (VolumeSpecs x) = Some x" by (simp add: get_VolumeSpecs_def)
lemma get_SecretSpecs_cell [simp, copy_rules]: "get_SecretSpecs (SecretSpecs x) = Some x" by (simp add: get_SecretSpecs_def)
lemma get_LocalObjectReferences_cell [simp, copy_rules]: "get_LocalObjectReferences (LocalObjectReferences x) = Some x" by (simp add: get_LocalObjectReferences_def)
lemma get_GenericConditions_cell [simp, copy_rules]: "get_GenericConditions (GenericConditions x) = Some x" by (simp add: get_GenericConditions_def)
lemma get_Plans_cell [simp, copy_rules]: "get_Plans (Plans x) = Some x" by (simp add: get_Plans_def)
lemma get_Structs_cell [simp, copy_rules]: "get_Structs (Structs x) = Some x" by (simp add: get_Structs_def)
lemma get_Struct_cell [simp, copy_rules]: "get_Struct (Struct x) = Some x" by (simp add: get_Struct_def)
lemma get_IntOrStr_cell [simp, copy_rules]: "get_IntOrStr (IntOrStr x) = Some x" by (simp add: get_IntOrStr_def)
lemma get_Number_cell [simp, copy_rules]: "get_Number (Number x) = Some x" by (simp add: get_Number_def)
lemma get_Bool_cell [simp, copy_rules]: "get_Bool (Bool x) = Some x" by (simp add: get_Bool_def)
lemma get_Duration_cell [simp, copy_rules]: "get_Duration (Duration x) = Some x" by (simp add: get_Duration_def)
lemma get_StringMap_cell [simp, copy_rules]: "get_StringMap (StringMap x) = Some x" by (simp add: get_StringMap_def)
lemma get_ContainerSpec_cell [simp, copy_rules]: "get_ContainerSpec (aContainerSpec x) = Some x" by (simp add: get_ContainerSpec_def)
lemma get_DrainSpec_cell [simp, copy_rules]: "get_DrainSpec (aDrainSpec x) = Some x" by (simp add: get_DrainSpec_def)
lemma get_SecretSpec_cell [simp, copy_rules]: "get_SecretSpec (aSecretSpec x) = Some x" by (simp add: get_SecretSpec_def)
lemma get_TimeWindowSpec_cell [simp, copy_rules]: "get_TimeWindowSpec (aTimeWindowSpec x) = Some x" by (simp add: get_TimeWindowSpec_def)
lemma get_VolumeSpec_cell [simp, copy_rules]: "get_VolumeSpec (aVolumeSpec x) = Some x" by (simp add: get_VolumeSpec_def)
lemma get_PlanSpec_cell [simp, copy_rules]: "get_PlanSpec (aPlanSpec x) = Some x" by (simp add: get_PlanSpec_def)
lemma get_PlanStatus_cell [simp, copy_rules]: "get_PlanStatus (aPlanStatus x) = Some x" by (simp add: get_PlanStatus_def)
lemma get_Plan_cell [simp, copy_rules]: "get_Plan (aPlan x) = Some x" by (simp add: get_Plan_def)
lemma get_PlanList_cell [simp, copy_rules]: "get_PlanList (aPlanList x) = Some x" by (simp add: get_PlanList_def)

subsection \<open>DeepCopyInto\<close>

text \<open>
  The struct that is written to \<^verbatim>\<open>*out\<close>: first \<^verbatim>\<open>*in\<close> itself, then field by field what the copies give. Where the
  code assigns \<^verbatim>\<open>**out = **in\<close> or calls \<^verbatim>\<open>copy\<close>, the elements are copied as they are, with \<^const>\<open>State_Monad.return\<close>; a Go map
  is copied entry by entry into a new one, which is a new cell with the same map.
\<close>

definition ContainerSpec_DeepCopyInto :: "('f \<Rightarrow> ('f cell, 'f) mem) \<Rightarrow> gContainerSpec \<Rightarrow> ('f cell, gContainerSpec) mem" where
  "ContainerSpec_DeepCopyInto F src = do {
     Command \<leftarrow> copy_slice Strings get_Strings pure (gc_Command src);
     Args \<leftarrow> copy_slice Strings get_Strings pure (gc_Args src);
     Env \<leftarrow> copy_slice Structs get_Structs F (gc_Env src);
     EnvFrom \<leftarrow> copy_slice Structs get_Structs F (gc_EnvFrom src);
     Volumes \<leftarrow> copy_slice VolumeSpecs get_VolumeSpecs pure (gc_Volumes src);
     SecurityContext \<leftarrow> copy_ptr Struct get_Struct F (gc_SecurityContext src);
     pure (src\<lparr>gc_Command := Command, gc_Args := Args, gc_Env := Env, gc_EnvFrom := EnvFrom, gc_Volumes := Volumes,
       gc_SecurityContext := SecurityContext\<rparr>)
   }"

definition DrainSpec_DeepCopyInto :: "('f \<Rightarrow> ('f cell, 'f) mem) \<Rightarrow> gDrainSpec \<Rightarrow> ('f cell, gDrainSpec) mem" where
  "DrainSpec_DeepCopyInto F src = do {
     Timeout \<leftarrow> copy_ptr IntOrStr get_IntOrStr pure (gd_Timeout src);
     GracePeriod \<leftarrow> copy_ptr Number get_Number pure (gd_GracePeriod src);
     DeleteLocalData \<leftarrow> copy_ptr Bool get_Bool pure (gd_DeleteLocalData src);
     DeleteEmptydirData \<leftarrow> copy_ptr Bool get_Bool pure (gd_DeleteEmptydirData src);
     IgnoreDaemonSets \<leftarrow> copy_ptr Bool get_Bool pure (gd_IgnoreDaemonSets src);
     PodSelector \<leftarrow> copy_ptr Struct get_Struct F (gd_PodSelector src);
     pure (src\<lparr>gd_Timeout := Timeout, gd_GracePeriod := GracePeriod, gd_DeleteLocalData := DeleteLocalData,
       gd_DeleteEmptydirData := DeleteEmptydirData, gd_IgnoreDaemonSets := IgnoreDaemonSets, gd_PodSelector := PodSelector\<rparr>)
   }"

definition SecretSpec_DeepCopyInto :: "gSecretSpec \<Rightarrow> ('f cell, gSecretSpec) mem" where
  "SecretSpec_DeepCopyInto src = do {
     DefaultMode \<leftarrow> copy_ptr Number get_Number pure (gs_DefaultMode src);
     pure (src\<lparr>gs_DefaultMode := DefaultMode\<rparr>)
   }"

definition TimeWindowSpec_DeepCopyInto :: "gTimeWindowSpec \<Rightarrow> ('f cell, gTimeWindowSpec) mem" where
  "TimeWindowSpec_DeepCopyInto src = do {
     Days \<leftarrow> copy_slice Strings get_Strings pure (gw_Days src);
     pure (src\<lparr>gw_Days := Days\<rparr>)
   }"

definition VolumeSpec_DeepCopyInto :: "VolumeSpec \<Rightarrow> ('f cell, VolumeSpec) mem" where
  "VolumeSpec_DeepCopyInto src = pure src"

definition PlanSpec_DeepCopyInto :: "('f \<Rightarrow> ('f cell, 'f) mem) \<Rightarrow> gPlanSpec \<Rightarrow> ('f cell, gPlanSpec) mem" where
  "PlanSpec_DeepCopyInto F src = do {
     JobActiveDeadlineSecs \<leftarrow> copy_ptr Number get_Number pure (gp_JobActiveDeadlineSecs src);
     NodeSelector \<leftarrow> copy_ptr Struct get_Struct F (gp_NodeSelector src);
     Secrets \<leftarrow> copy_slice SecretSpecs get_SecretSpecs SecretSpec_DeepCopyInto (gp_Secrets src);
     Tolerations \<leftarrow> copy_slice Structs get_Structs F (gp_Tolerations src);
     Window \<leftarrow> copy_ptr aTimeWindowSpec get_TimeWindowSpec TimeWindowSpec_DeepCopyInto (gp_Window src);
     Prepare \<leftarrow> copy_ptr aContainerSpec get_ContainerSpec (ContainerSpec_DeepCopyInto F) (gp_Prepare src);
     Upgrade \<leftarrow> copy_ptr aContainerSpec get_ContainerSpec (ContainerSpec_DeepCopyInto F) (gp_Upgrade src);
     Drain \<leftarrow> copy_ptr aDrainSpec get_DrainSpec (DrainSpec_DeepCopyInto F) (gp_Drain src);
     ImagePullSecrets \<leftarrow> copy_slice LocalObjectReferences get_LocalObjectReferences pure (gp_ImagePullSecrets src);
     PostCompleteDelay \<leftarrow> copy_ptr Duration get_Duration pure (gp_PostCompleteDelay src);
     PostCompleteLabels \<leftarrow> copy_ptr StringMap get_StringMap pure (gp_PostCompleteLabels src);
     pure (src\<lparr>gp_JobActiveDeadlineSecs := JobActiveDeadlineSecs, gp_NodeSelector := NodeSelector, gp_Secrets := Secrets,
       gp_Tolerations := Tolerations, gp_Window := Window, gp_Prepare := Prepare, gp_Upgrade := Upgrade, gp_Drain := Drain,
       gp_ImagePullSecrets := ImagePullSecrets, gp_PostCompleteDelay := PostCompleteDelay,
       gp_PostCompleteLabels := PostCompleteLabels\<rparr>)
   }"

definition PlanStatus_DeepCopyInto :: "gPlanStatus \<Rightarrow> ('f cell, gPlanStatus) mem" where
  "PlanStatus_DeepCopyInto src = do {
     Conditions \<leftarrow> copy_slice GenericConditions get_GenericConditions pure (gst_Conditions src);
     Applying \<leftarrow> copy_slice Strings get_Strings pure (gst_Applying src);
     pure (src\<lparr>gst_Conditions := Conditions, gst_Applying := Applying\<rparr>)
   }"

definition Plan_DeepCopyInto :: "('f \<Rightarrow> ('f cell, 'f) mem) \<Rightarrow> 'f gPlan \<Rightarrow> ('f cell, 'f gPlan) mem" where
  "Plan_DeepCopyInto F src = do {
     ObjectMeta \<leftarrow> F (gpl_ObjectMeta src);
     Spec \<leftarrow> PlanSpec_DeepCopyInto F (gpl_Spec src);
     Status \<leftarrow> PlanStatus_DeepCopyInto (gpl_Status src);
     pure (src\<lparr>gpl_ObjectMeta := ObjectMeta, gpl_Spec := Spec, gpl_Status := Status\<rparr>)
   }"

definition PlanList_DeepCopyInto :: "('f \<Rightarrow> ('f cell, 'f) mem) \<Rightarrow> 'f gPlanList \<Rightarrow> ('f cell, 'f gPlanList) mem" where
  "PlanList_DeepCopyInto F src = do {
     ListMeta \<leftarrow> F (gl_ListMeta src);
     Items \<leftarrow> copy_slice Plans get_Plans (Plan_DeepCopyInto F) (gl_Items src);
     pure (src\<lparr>gl_ListMeta := ListMeta, gl_Items := Items\<rparr>)
   }"

subsection \<open>DeepCopy and DeepCopyObject\<close>

text \<open>\<^verbatim>\<open>DeepCopy\<close> gives nil for nil and otherwise a pointer to a new struct.\<close>

definition ContainerSpec_DeepCopy where
  "ContainerSpec_DeepCopy F = copy_ptr aContainerSpec get_ContainerSpec (ContainerSpec_DeepCopyInto F)"
definition DrainSpec_DeepCopy where
  "DrainSpec_DeepCopy F = copy_ptr aDrainSpec get_DrainSpec (DrainSpec_DeepCopyInto F)"
definition SecretSpec_DeepCopy where
  "SecretSpec_DeepCopy = copy_ptr aSecretSpec get_SecretSpec SecretSpec_DeepCopyInto"
definition TimeWindowSpec_DeepCopy where
  "TimeWindowSpec_DeepCopy = copy_ptr aTimeWindowSpec get_TimeWindowSpec TimeWindowSpec_DeepCopyInto"
definition VolumeSpec_DeepCopy where
  "VolumeSpec_DeepCopy = copy_ptr aVolumeSpec get_VolumeSpec VolumeSpec_DeepCopyInto"
definition PlanSpec_DeepCopy where
  "PlanSpec_DeepCopy F = copy_ptr aPlanSpec get_PlanSpec (PlanSpec_DeepCopyInto F)"
definition PlanStatus_DeepCopy where
  "PlanStatus_DeepCopy = copy_ptr aPlanStatus get_PlanStatus PlanStatus_DeepCopyInto"
definition Plan_DeepCopy where
  "Plan_DeepCopy F = copy_ptr aPlan get_Plan (Plan_DeepCopyInto F)"
definition PlanList_DeepCopy where
  "PlanList_DeepCopy F = copy_ptr aPlanList get_PlanList (PlanList_DeepCopyInto F)"

text \<open>A value of the interface \<^verbatim>\<open>runtime.Object\<close>: nil, or a type and a pointer, which may be nil itself.\<close>

datatype runtime_Object = NilObject | PlanObject "addr option" | PlanListObject "addr option"

definition Plan_DeepCopyObject :: "('f \<Rightarrow> ('f cell, 'f) mem) \<Rightarrow> addr option \<Rightarrow> ('f cell, runtime_Object) mem" where
  "Plan_DeepCopyObject F inp = do {
     c \<leftarrow> Plan_DeepCopy F inp;
     pure (if c \<noteq> None then PlanObject c else NilObject)
   }"

definition PlanList_DeepCopyObject :: "('f \<Rightarrow> ('f cell, 'f) mem) \<Rightarrow> addr option \<Rightarrow> ('f cell, runtime_Object) mem" where
  "PlanList_DeepCopyObject F inp = do {
     c \<leftarrow> PlanList_DeepCopy F inp;
     pure (if c \<noteq> None then PlanListObject c else NilObject)
   }"

subsection \<open>What the structs denote\<close>

text \<open>
  The fields without pointers, and the values of the others in the order of the copies: nil or what is
  there, so a nil slice and an empty one differ.
\<close>

definition den_ContainerSpec where
  "den_ContainerSpec D = den_struct (gc_Image)
     (\<lambda>s. (gc_Command s, gc_Args s, gc_Env s, gc_EnvFrom s, gc_Volumes s, gc_SecurityContext s))
     (den_pair (den_slice get_Strings den_flat)
       (den_pair (den_slice get_Strings den_flat)
       (den_pair (den_slice get_Structs D)
       (den_pair (den_slice get_Structs D)
       (den_pair (den_slice get_VolumeSpecs den_flat)
       (den_ptr get_Struct D))))))"

definition den_DrainSpec where
  "den_DrainSpec D = den_struct (\<lambda>s. (gd_Force s, gd_DisableEviction s, gd_SkipWaitForDeleteTimeout s))
     (\<lambda>s. (gd_Timeout s, gd_GracePeriod s, gd_DeleteLocalData s, gd_DeleteEmptydirData s, gd_IgnoreDaemonSets s, gd_PodSelector s))
     (den_pair (den_ptr get_IntOrStr den_flat)
       (den_pair (den_ptr get_Number den_flat)
       (den_pair (den_ptr get_Bool den_flat)
       (den_pair (den_ptr get_Bool den_flat)
       (den_pair (den_ptr get_Bool den_flat)
       (den_ptr get_Struct D))))))"

definition den_SecretSpec where
  "den_SecretSpec = den_struct (\<lambda>s. (gs_Name s, gs_Path s, gs_IgnoreUpdates s))
     (gs_DefaultMode)
     (den_ptr get_Number den_flat)"

definition den_TimeWindowSpec where
  "den_TimeWindowSpec = den_struct (\<lambda>s. (gw_StartTime s, gw_EndTime s, gw_TimeZone s))
     (gw_Days)
     (den_slice get_Strings den_flat)"

definition den_PlanSpec where
  "den_PlanSpec D = den_struct
     (\<lambda>s. (gp_Concurrency s, gp_ServiceAccountName s, gp_Channel s, gp_Version s, gp_Exclusive s, gp_Cordon s, gp_PriorityClassName s))
     (\<lambda>s. (gp_JobActiveDeadlineSecs s, gp_NodeSelector s, gp_Secrets s, gp_Tolerations s, gp_Window s, gp_Prepare s, gp_Upgrade s, gp_Drain s,
         gp_ImagePullSecrets s, gp_PostCompleteDelay s, gp_PostCompleteLabels s))
     (den_pair (den_ptr get_Number den_flat)
       (den_pair (den_ptr get_Struct D)
       (den_pair (den_slice get_SecretSpecs den_SecretSpec)
       (den_pair (den_slice get_Structs D)
       (den_pair (den_ptr get_TimeWindowSpec den_TimeWindowSpec)
       (den_pair (den_ptr get_ContainerSpec (den_ContainerSpec D))
       (den_pair (den_ptr get_ContainerSpec (den_ContainerSpec D))
       (den_pair (den_ptr get_DrainSpec (den_DrainSpec D))
       (den_pair (den_slice get_LocalObjectReferences den_flat)
       (den_pair (den_ptr get_Duration den_flat)
       (den_ptr get_StringMap den_flat)))))))))))"

definition den_PlanStatus where
  "den_PlanStatus = den_struct (\<lambda>s. (gst_LatestVersion s, gst_LatestHash s))
     (\<lambda>s. (gst_Conditions s, gst_Applying s))
     (den_pair (den_slice get_GenericConditions den_flat)
       (den_slice get_Strings den_flat))"

definition den_Plan where
  "den_Plan D = den_struct (gpl_TypeMeta)
     (\<lambda>s. (gpl_ObjectMeta s, gpl_Spec s, gpl_Status s))
     (den_pair D
       (den_pair (den_PlanSpec D)
       den_PlanStatus))"

definition den_PlanList where
  "den_PlanList D = den_struct (gl_TypeMeta)
     (\<lambda>s. (gl_ListMeta s, gl_Items s))
     (den_pair D
       (den_slice get_Plans (den_Plan D)))"

definition den_VolumeSpec :: "('f cell, VolumeSpec, VolumeSpec) denotation" where
  "den_VolumeSpec = den_flat"

subsection \<open>The generated copies are deep copies\<close>

lemma deep_copy_VolumeSpec [copy_rules]: "deep_copy VolumeSpec_DeepCopyInto den_VolumeSpec"
  using deep_copy_flat by (simp add: VolumeSpec_DeepCopyInto_def [abs_def] den_VolumeSpec_def)

lemma deep_copy_ContainerSpec [copy_rules]:
  assumes "deep_copy F D"
  shows "deep_copy (ContainerSpec_DeepCopyInto F) (den_ContainerSpec D)"
  unfolding den_ContainerSpec_def
  by (rule deep_copy_struct [where put = "\<lambda>(x0, x1, x2, x3, x4, x5) s. s
      \<lparr>gc_Command := x0, gc_Args := x1, gc_Env := x2, gc_EnvFrom := x3, gc_Volumes := x4, gc_SecurityContext := x5\<rparr>"],
      (rule copy_rules assms)+) (auto simp: ContainerSpec_DeepCopyInto_def copy_pair_def)

lemma deep_copy_DrainSpec [copy_rules]:
  assumes "deep_copy F D"
  shows "deep_copy (DrainSpec_DeepCopyInto F) (den_DrainSpec D)"
  unfolding den_DrainSpec_def
  by (rule deep_copy_struct [where put = "\<lambda>(x0, x1, x2, x3, x4, x5) s. s
      \<lparr>gd_Timeout := x0, gd_GracePeriod := x1, gd_DeleteLocalData := x2, gd_DeleteEmptydirData := x3, gd_IgnoreDaemonSets := x4, gd_PodSelector := x5\<rparr>"],
      (rule copy_rules assms)+) (auto simp: DrainSpec_DeepCopyInto_def copy_pair_def)

lemma deep_copy_SecretSpec [copy_rules]:
  "deep_copy SecretSpec_DeepCopyInto den_SecretSpec"
  unfolding den_SecretSpec_def
  by (rule deep_copy_struct [where put = "\<lambda>x0 s. s\<lparr>gs_DefaultMode := x0\<rparr>"],
      (rule copy_rules)+) (auto simp: SecretSpec_DeepCopyInto_def copy_pair_def)

lemma deep_copy_TimeWindowSpec [copy_rules]:
  "deep_copy TimeWindowSpec_DeepCopyInto den_TimeWindowSpec"
  unfolding den_TimeWindowSpec_def
  by (rule deep_copy_struct [where put = "\<lambda>x0 s. s\<lparr>gw_Days := x0\<rparr>"],
      (rule copy_rules)+) (auto simp: TimeWindowSpec_DeepCopyInto_def copy_pair_def)

lemma deep_copy_PlanSpec [copy_rules]:
  assumes "deep_copy F D"
  shows "deep_copy (PlanSpec_DeepCopyInto F) (den_PlanSpec D)"
  unfolding den_PlanSpec_def
  by (rule deep_copy_struct [where put = "\<lambda>(x0, x1, x2, x3, x4, x5, x6, x7, x8, x9, x10) s. s
      \<lparr>gp_JobActiveDeadlineSecs := x0, gp_NodeSelector := x1, gp_Secrets := x2, gp_Tolerations := x3, gp_Window := x4, gp_Prepare := x5, gp_Upgrade := x6,
        gp_Drain := x7, gp_ImagePullSecrets := x8, gp_PostCompleteDelay := x9, gp_PostCompleteLabels := x10\<rparr>"],
      (rule copy_rules assms)+) (auto simp: PlanSpec_DeepCopyInto_def copy_pair_def)

lemma deep_copy_PlanStatus [copy_rules]:
  "deep_copy PlanStatus_DeepCopyInto den_PlanStatus"
  unfolding den_PlanStatus_def
  by (rule deep_copy_struct [where put = "\<lambda>(x0, x1) s. s\<lparr>gst_Conditions := x0, gst_Applying := x1\<rparr>"],
      (rule copy_rules)+) (auto simp: PlanStatus_DeepCopyInto_def copy_pair_def)

lemma deep_copy_Plan [copy_rules]:
  assumes "deep_copy F D"
  shows "deep_copy (Plan_DeepCopyInto F) (den_Plan D)"
  unfolding den_Plan_def
  by (rule deep_copy_struct [where put = "\<lambda>(x0, x1, x2) s. s
      \<lparr>gpl_ObjectMeta := x0, gpl_Spec := x1, gpl_Status := x2\<rparr>"],
      (rule copy_rules assms)+) (auto simp: Plan_DeepCopyInto_def copy_pair_def)

lemma deep_copy_PlanList [copy_rules]:
  assumes "deep_copy F D"
  shows "deep_copy (PlanList_DeepCopyInto F) (den_PlanList D)"
  unfolding den_PlanList_def
  by (rule deep_copy_struct [where put = "\<lambda>(x0, x1) s. s\<lparr>gl_ListMeta := x0, gl_Items := x1\<rparr>"],
      (rule copy_rules assms)+) (auto simp: PlanList_DeepCopyInto_def copy_pair_def)

text \<open>The copies that need nothing of other modules.\<close>

interpretation status_copy: deep_copy PlanStatus_DeepCopyInto den_PlanStatus by (rule deep_copy_PlanStatus)
interpretation window_copy: deep_copy TimeWindowSpec_DeepCopyInto den_TimeWindowSpec by (rule deep_copy_TimeWindowSpec)

abbreviation den_Plan_ptr where "den_Plan_ptr D \<equiv> den_ptr get_Plan (den_Plan D)"
abbreviation den_PlanList_ptr where "den_PlanList_ptr D \<equiv> den_ptr get_PlanList (den_PlanList D)"

lemma deep_copy_Plan_ptr: "deep_copy F D \<Longrightarrow> deep_copy (Plan_DeepCopy F) (den_Plan_ptr D)"
  unfolding Plan_DeepCopy_def by (rule copy_rules | assumption)+

lemma deep_copy_PlanList_ptr: "deep_copy F D \<Longrightarrow> deep_copy (PlanList_DeepCopy F) (den_PlanList_ptr D)"
  unfolding PlanList_DeepCopy_def by (rule copy_rules | assumption)+

lemma den_ptr_nil: "den_ptr get d h p = Some (v, A) \<Longrightarrow> v = None \<longleftrightarrow> p = None"
  by (auto simp: den_ptr_def split: option.splits)

subsection \<open>A memory for the witnesses\<close>

text \<open>
  A struct of another module that is plain or holds a slice of strings, and a plan whose metadata is such a
  struct and whose upgrade container has a command.
\<close>

datatype sample_struct = Plain string | Names "slice option"

definition sample_DeepCopyInto :: "sample_struct \<Rightarrow> (sample_struct cell, sample_struct) mem" where
  "sample_DeepCopyInto x =
     (case x of
        Plain s \<Rightarrow> pure x
      | Names p \<Rightarrow> do { q \<leftarrow> copy_slice Strings get_Strings pure p; pure (Names q) })"

definition sample_den :: "(sample_struct cell, sample_struct, string + string list option) denotation" where
  "sample_den h x =
     (case x of
        Plain s \<Rightarrow> Some (Inl s, {})
      | Names p \<Rightarrow> map_option (\<lambda>(v, A). (Inr v, A)) (den_slice get_Strings den_flat h p))"

lemma deep_copy_sample: "deep_copy sample_DeepCopyInto sample_den"
proof
  have S: "deep_copy (copy_slice Strings get_Strings pure) (den_slice get_Strings den_flat)" by (rule copy_rules)+
  show "sample_den h' x = Some (v, A)"
    if prem: "sample_den h x = Some (v, A)" "\<And>a. a \<in> A \<Longrightarrow> cells h' a = cells h a" for h h' x v A
  proof (cases x)
    case (Names p)
    obtain w where w: "den_slice get_Strings den_flat h p = Some (w, A)" "v = Inr w"
      using prem(1) Names by (auto simp: sample_den_def)
    then show ?thesis using deep_copy.local [OF S w(1) prem(2)] Names by (simp add: sample_den_def)
  qed (use prem in \<open>simp add: sample_den_def\<close>)
  show "copied sample_den v h (run_state (sample_DeepCopyInto x) h)"
    if prem: "sample_den h x = Some (v, A)" "A \<subseteq> {..<next_addr h}" for h x v A
  proof (cases x)
    case (Plain s)
    then show ?thesis using prem by (auto simp: sample_den_def sample_DeepCopyInto_def copied_def)
  next
    case (Names p)
    then obtain w where w: "den_slice get_Strings den_flat h p = Some (w, A)" "v = Inr w"
      using prem(1) by (auto simp: sample_den_def)
    show ?thesis using deep_copy.copies [OF S w(1) prem(2)]
      by (auto simp: Names w(2) sample_den_def sample_DeepCopyInto_def copied_def split: prod.splits)
  qed
qed

interpretation sample_copy: deep_copy sample_DeepCopyInto sample_den by (rule deep_copy_sample)

definition sample_container :: gContainerSpec where
  "sample_container = \<lparr>gc_Image = ''alpine'', gc_Command = Some \<lparr>sl_array = 2, sl_off = 1, sl_len = 1\<rparr>, gc_Args = None, gc_Env = None,
     gc_EnvFrom = None, gc_Volumes = None, gc_SecurityContext = None\<rparr>"

definition sample_gPlan :: "sample_struct gPlan" where
  "sample_gPlan = \<lparr>gpl_TypeMeta = \<lparr>tm_Kind = ''Plan'', tm_APIVersion = ''upgrade.cattle.io/v1''\<rparr>,
     gpl_ObjectMeta = Names (Some \<lparr>sl_array = 3, sl_off = 0, sl_len = 1\<rparr>),
     gpl_Spec = \<lparr>gp_Concurrency = 1, gp_JobActiveDeadlineSecs = None, gp_NodeSelector = None, gp_ServiceAccountName = [],
       gp_Channel = [], gp_Version = ''v1'', gp_Secrets = None, gp_Tolerations = None, gp_Exclusive = False, gp_Window = None,
       gp_Prepare = None, gp_Upgrade = Some 1, gp_Cordon = True, gp_Drain = None, gp_ImagePullSecrets = None,
       gp_PostCompleteDelay = None, gp_PriorityClassName = [], gp_PostCompleteLabels = None\<rparr>,
     gpl_Status = \<lparr>gst_Conditions = None, gst_LatestVersion = [], gst_LatestHash = [], gst_Applying = None\<rparr>\<rparr>"

definition sample_heap :: "sample_struct cell gheap" where
  "sample_heap = \<lparr>cells = [0 \<mapsto> aPlan sample_gPlan, 1 \<mapsto> aContainerSpec sample_container, 2 \<mapsto> Strings [''sh'', ''upgrade''],
       3 \<mapsto> Strings [''finalizer''],
       4 \<mapsto> aPlanList \<lparr>gl_TypeMeta = \<lparr>tm_Kind = ''PlanList'', tm_APIVersion = ''upgrade.cattle.io/v1''\<rparr>, gl_ListMeta = Plain ''1'',
         gl_Items = Some \<lparr>sl_array = 5, sl_off = 0, sl_len = 1\<rparr>\<rparr>,
       5 \<mapsto> Plans [sample_gPlan]], next_addr = 6\<rparr>"

lemmas sample_heap_defs = sample_heap_def sample_gPlan_def sample_container_def sample_den_def sample_DeepCopyInto_def

lemmas den_defs = den_ptr_def den_slice_def den_pair_def den_struct_def den_flat_def window_def den_ContainerSpec_def den_PlanSpec_def
  den_PlanStatus_def den_Plan_def den_PlanList_def

lemma sample_plan_den: "\<exists>v. den_Plan_ptr sample_den sample_heap (Some 0) = Some (v, {0, 1, 2, 3})"
  by (auto simp: den_defs sample_heap_defs)

lemma sample_list_den: "\<exists>v. den_PlanList_ptr sample_den sample_heap (Some 4) = Some (v, {1, 2, 3, 4, 5})"
  by (auto simp: den_defs sample_heap_defs)

subsection \<open>Properties\<close>

text \<open>
  C17: a deep copy of a plan is a new plan of the same value, nil slices staying nil, and nothing is shared: whatever is
  written afterwards to the cells of the original, the copy keeps its value, and whatever is
  written to those of the copy, the original does; copying itself changes no existing cell.
\<close>

theorem plan_deep_copy_independent:
  assumes "deep_copy F D" "den_Plan_ptr D h (Some a) = Some (v, A)" "A \<subseteq> {..<next_addr h}"
  shows "\<exists>b h' B. run_state (Plan_DeepCopy F (Some a)) h = (Some b, h') \<and> unchanged h h' \<and>
     den_Plan_ptr D h' (Some b) = Some (v, B) \<and> A \<inter> B = {} \<and>
     (\<forall>h''. (\<forall>c. c \<notin> A \<longrightarrow> cells h'' c = cells h' c) \<longrightarrow> den_Plan_ptr D h'' (Some b) = Some (v, B)) \<and>
     (\<forall>h''. (\<forall>c. c \<notin> B \<longrightarrow> cells h'' c = cells h' c) \<longrightarrow> den_Plan_ptr D h'' (Some a) = Some (v, A))"
proof -
  note C = deep_copy_Plan_ptr [OF assms(1)]
  obtain p h' where r: "run_state (Plan_DeepCopy F (Some a)) h = (p, h')" by fastforce
  obtain B where B: "den_Plan_ptr D h' p = Some (v, B)" "A \<inter> B = {}"
    "\<forall>h''. (\<forall>c. c \<notin> A \<longrightarrow> cells h'' c = cells h' c) \<longrightarrow> den_Plan_ptr D h'' p = Some (v, B)"
    "\<forall>h''. (\<forall>c. c \<notin> B \<longrightarrow> cells h'' c = cells h' c) \<longrightarrow> den_Plan_ptr D h'' (Some a) = Some (v, A)"
    by (rule deep_copy.independent [OF C assms(2,3) r])
  obtain b where p: "p = Some b" using den_ptr_nil [OF assms(2)] den_ptr_nil [OF B(1)] by auto
  have "unchanged h h'" using deep_copy.copies [OF C assms(2,3)] r by (simp add: copied_def)
  then show ?thesis using B r unfolding p by blast
qed

theorem plan_deep_copy_independent_witness:
  "\<exists>b h' v B. run_state (Plan_DeepCopy sample_DeepCopyInto (Some 0)) sample_heap = (Some b, h') \<and>
     den_Plan_ptr sample_den (h'\<lparr>cells := (cells h')(2 \<mapsto> Strings [])\<rparr>) (Some b) = Some (v, B) \<and> B \<inter> {0, 1, 2, 3} = {}"
proof -
  obtain v where v: "den_Plan_ptr sample_den sample_heap (Some 0) = Some (v, {0, 1, 2, 3})" using sample_plan_den by blast
  have "{0, 1, 2, 3} \<subseteq> {..<next_addr sample_heap}" by (simp add: sample_heap_def)
  from plan_deep_copy_independent [OF deep_copy_sample v this]
  obtain b h' B where b: "run_state (Plan_DeepCopy sample_DeepCopyInto (Some 0)) sample_heap = (Some b, h')" "{0, 1, 2, 3} \<inter> B = {}"
    "\<And>h''. (\<forall>c. c \<notin> {0, 1, 2, 3} \<longrightarrow> cells h'' c = cells h' c) \<Longrightarrow> den_Plan_ptr sample_den h'' (Some b) = Some (v, B)" by blast
  have "den_Plan_ptr sample_den (h'\<lparr>cells := (cells h')(2 \<mapsto> Strings [])\<rparr>) (Some b) = Some (v, B)" by (rule b(3)) simp
  with b(1,2) show ?thesis by blast
qed

text \<open>
  C39: the interface value that \<^verbatim>\<open>DeepCopyObject\<close> returns for a list of plans is the nil interface exactly for the nil
  pointer and never an interface that holds a nil pointer; otherwise it holds a list of the same
  value in new cells, items included.
\<close>

theorem list_deep_copy_object:
  assumes "deep_copy F D" "den_PlanList_ptr D h p = Some (v, A)" "A \<subseteq> {..<next_addr h}"
  shows "case run_state (PlanList_DeepCopyObject F p) h of (obj, h') \<Rightarrow> unchanged h h' \<and>
     (if p = None then obj = NilObject
      else \<exists>b B. obj = PlanListObject (Some b) \<and> den_PlanList_ptr D h' (Some b) = Some (v, B) \<and> B \<subseteq> {next_addr h..<next_addr h'})"
proof -
  obtain q h' where r: "run_state (PlanList_DeepCopy F p) h = (q, h')" by fastforce
  obtain B where B: "unchanged h h'" "den_PlanList_ptr D h' q = Some (v, B)" "B \<subseteq> {next_addr h..<next_addr h'}"
    using deep_copy.copies [OF deep_copy_PlanList_ptr [OF assms(1)] assms(2,3)] r by (auto simp: copied_def)
  have "q = None \<longleftrightarrow> p = None" using den_ptr_nil [OF assms(2)] den_ptr_nil [OF B(2)] by simp
  with B r show ?thesis by (auto simp: PlanList_DeepCopyObject_def)
qed

theorem list_deep_copy_object_witness:
  "\<exists>b h'. run_state (PlanList_DeepCopyObject sample_DeepCopyInto (Some 4)) sample_heap = (PlanListObject (Some b), h') \<and> 6 \<le> b"
proof -
  obtain v where v: "den_PlanList_ptr sample_den sample_heap (Some 4) = Some (v, {1, 2, 3, 4, 5})" using sample_list_den by blast
  have "{1, 2, 3, 4, 5} \<subseteq> {..<next_addr sample_heap}" by (simp add: sample_heap_def)
  note C = list_deep_copy_object [OF deep_copy_sample v this]
  obtain o' h' where r: "run_state (PlanList_DeepCopyObject sample_DeepCopyInto (Some 4)) sample_heap = (o', h')" by fastforce
  then obtain b B where b: "o' = PlanListObject (Some b)" "den_PlanList_ptr sample_den h' (Some b) = Some (v, B)"
      "B \<subseteq> {next_addr sample_heap..<next_addr h'}"
    using C by auto
  have "b \<in> B" using b(2) by (auto simp: den_ptr_def split: option.splits)
  with b r show ?thesis by (auto simp: sample_heap_def)
qed

end
