(* ===== verification/Reflection.thy ===== *)
theory Reflection
  imports PlanTypes "HOL-Library.AList"
begin

text \<open>
  \<^verbatim>\<open>pkg/apis/condition/condition.go\<close> as it is written: over objects of any type, whose fields it reaches by reflection.
  The values of the package \<^verbatim>\<open>reflect\<close> are a datatype, a panic and the end of the process are outcomes. The locale
  \<open>condition_object\<close> says when an object holds a slice of conditions; on such objects the functions do what
  those of \<open>Conditions\<close> do. Plans and Jobs are interpretations.
\<close>

subsection \<open>Outcomes\<close>

text \<open>A call returns, panics, or ends the process (\<^verbatim>\<open>logrus.Fatalf\<close>).\<close>

datatype 'a ran = Done 'a | Panics | Exits

fun thn :: "'a ran \<Rightarrow> ('a \<Rightarrow> 'b ran) \<Rightarrow> 'b ran" where
  "thn (Done a) f = f a"
| "thn Panics f = Panics"
| "thn Exits f = Exits"

lemma thn_Done_iff [simp]: "thn r f = Done b \<longleftrightarrow> (\<exists>a. r = Done a \<and> f a = Done b)"
  by (cases r) simp_all

lemma thn_assoc [simp]: "thn (thn r f) g = thn r (\<lambda>a. thn (f a) g)"
  by (cases r) simp_all

subsection \<open>Values\<close>

text \<open>
  A value is the zero \<^verbatim>\<open>Value\<close>, a string, a \<^verbatim>\<open>metav1.Time\<close>, a struct with its fields, a slice with the zero value of its element
  type and its elements, or a value of another kind, one with neither fields nor a length; structs,
  slices and the others carry the name of their type. No struct here has a field of the names that are looked up inside an
  embedded struct, so \<^verbatim>\<open>FieldByName\<close> finds a field at the top or not at all.
\<close>

datatype rvalue =
    Invalid
  | VString string
  | VTime instant
  | VStruct string "(string \<times> rvalue) list"
  | VSlice string rvalue "rvalue list"
  | VOther string

text \<open>An object is passed as a nil interface, a pointer, which may be nil, or a value.\<close>

datatype iface = NilIface | Pointer "rvalue option" | Plain rvalue

fun FieldByName :: "rvalue \<Rightarrow> string \<Rightarrow> rvalue ran" where
  "FieldByName (VStruct t fs) f = Done (case map_of fs f of None \<Rightarrow> Invalid | Some v \<Rightarrow> v)"
| "FieldByName (VTime t) f = Done Invalid"
| "FieldByName _ f = Panics"

text \<open>\<^verbatim>\<open>Value.String\<close> never panics.\<close>

fun rString :: "rvalue \<Rightarrow> string" where
  "rString (VString s) = s"
| "rString Invalid = ''<invalid Value>''"
| "rString (VTime t) = ''<v1.Time Value>''"
| "rString (VStruct t _) = ''<'' @ t @ '' Value>''"
| "rString (VSlice t _ _) = ''<'' @ t @ '' Value>''"
| "rString (VOther t) = ''<'' @ t @ '' Value>''"

text \<open>The values \<^verbatim>\<open>Len\<close> and \<^verbatim>\<open>Index\<close> run over; a string has bytes.\<close>

fun elements :: "rvalue \<Rightarrow> rvalue list ran" where
  "elements (VSlice t z es) = Done es"
| "elements (VString s) = Done (replicate (length s) (VOther ''uint8''))"
| "elements _ = Panics"

text \<open>\<^verbatim>\<open>SetString\<close> on a field.\<close>

fun set_field :: "string \<Rightarrow> string \<Rightarrow> rvalue \<Rightarrow> rvalue ran" where
  "set_field f s (VStruct t fs) =
     (case map_of fs f of
        Some (VString _) \<Rightarrow> Done (VStruct t (AList.update f (VString s) fs))
      | _ \<Rightarrow> Panics)"
| "set_field f s _ = Panics"

text \<open>A write to the field at a path of names, and to an element of the slice there.\<close>

fun at_path :: "string list \<Rightarrow> (rvalue \<Rightarrow> rvalue ran) \<Rightarrow> rvalue \<Rightarrow> rvalue ran" where
  "at_path [] g v = g v"
| "at_path (n # ns) g (VStruct t fs) =
     (case map_of fs n of
        None \<Rightarrow> Panics
      | Some v \<Rightarrow> thn (at_path ns g v) (\<lambda>v'. Done (VStruct t (AList.update n v' fs))))"
| "at_path (n # ns) g _ = Panics"

fun at_index :: "nat \<Rightarrow> (rvalue \<Rightarrow> rvalue ran) \<Rightarrow> rvalue \<Rightarrow> rvalue ran" where
  "at_index i g (VSlice t z es) = (if i < length es then thn (g (es ! i)) (\<lambda>e. Done (VSlice t z (es[i := e]))) else Panics)"
| "at_index i g _ = Panics"

subsection \<open>Reaching fields\<close>

fun getFieldValue :: "rvalue \<Rightarrow> string list \<Rightarrow> rvalue ran" where
  "getFieldValue v [] = Panics"
| "getFieldValue v (n # ns) =
     thn (FieldByName v n) (\<lambda>field. if ns = [] then Done field else getFieldValue field ns)"

text \<open>The element of a nil pointer is the zero \<^verbatim>\<open>Value\<close>, of which \<^verbatim>\<open>Type\<close> panics.\<close>

definition getValue :: "iface \<Rightarrow> string list \<Rightarrow> rvalue ran" where
  "getValue obj name =
     (case obj of
        NilIface \<Rightarrow> Done Invalid
      | _ \<Rightarrow>
         (let inner = (case obj of Pointer (Some v) \<Rightarrow> Done v | Plain v \<Rightarrow> Done v | _ \<Rightarrow> Panics)
          in thn inner (\<lambda>v. case name of
               [] \<Rightarrow> Panics
             | n # ns \<Rightarrow> thn (FieldByName v n) (\<lambda>field. if ns = [] then Done field else getFieldValue field ns))))"

text \<open>A write through the object; the field of an object that is passed as a value cannot be set, but elements of its slices can.\<close>

definition set_value :: "iface \<Rightarrow> string list \<Rightarrow> (rvalue \<Rightarrow> rvalue ran) \<Rightarrow> iface ran" where
  "set_value obj path g =
     (case obj of
        Pointer (Some v) \<Rightarrow> thn (at_path path g v) (\<lambda>v'. Done (Pointer (Some v')))
      | _ \<Rightarrow> Panics)"

definition set_element :: "iface \<Rightarrow> string list \<Rightarrow> nat \<Rightarrow> (rvalue \<Rightarrow> rvalue ran) \<Rightarrow> iface ran" where
  "set_element obj path i g =
     (case obj of
        Plain v \<Rightarrow> thn (at_path path (at_index i g) v) (\<lambda>v'. Done (Plain v'))
      | _ \<Rightarrow> set_value obj path (at_index i g))"

subsection \<open>Finding a condition\<close>

text \<open>The loop gives the index of the element; a panic inside it ends the process.\<close>

fun find_element :: "rvalue list \<Rightarrow> string \<Rightarrow> nat option ran" where
  "find_element [] name = Done None"
| "find_element (cond # conds) name =
     thn (getFieldValue cond [''Type'']) (\<lambda>typeVal.
       if rString typeVal = name then Done (Some 0)
       else thn (find_element conds name) (\<lambda>i. Done (map_option Suc i)))"

definition rfindCond :: "rvalue \<Rightarrow> string \<Rightarrow> nat option ran" where
  "rfindCond val name =
     (case thn (elements val) (\<lambda>es. find_element es name) of Panics \<Rightarrow> Exits | r \<Rightarrow> r)"

definition rfindOrNotCreateCond :: "iface \<Rightarrow> string \<Rightarrow> rvalue option ran" where
  "rfindOrNotCreateCond obj condName =
     thn (getValue obj [''Status'', ''Conditions'']) (\<lambda>condSlice.
       thn (rfindCond condSlice condName) (\<lambda>i.
         case i of
           None \<Rightarrow> Done None
         | Some i \<Rightarrow> thn (elements condSlice) (\<lambda>es. Done (Some (es ! i)))))"

text \<open>\<^verbatim>\<open>newCond\<close>: a zero element with type and status.\<close>

fun rnewCond :: "rvalue \<Rightarrow> string \<Rightarrow> rvalue ran" where
  "rnewCond (VSlice t z es) name = thn (set_field ''Type'' name z) (set_field ''Status'' ''Unknown'')"
| "rnewCond _ name = Panics"

fun rAppend :: "rvalue \<Rightarrow> rvalue \<Rightarrow> rvalue ran" where
  "rAppend e (VSlice t z es) = Done (VSlice t z (es @ [e]))"
| "rAppend e _ = Panics"

text \<open>\<^verbatim>\<open>findOrCreateCond\<close>: the object afterwards, and where the condition is: the path of the slice and an index.\<close>

definition rfindOrCreateCond :: "iface \<Rightarrow> string \<Rightarrow> (iface \<times> string list \<times> nat) ran" where
  "rfindOrCreateCond obj condName =
     thn (getValue obj [''Status'', ''Conditions'']) (\<lambda>status.
       let path = (if status = Invalid then [''Conditions''] else [''Status'', ''Conditions'']) in
       thn (if status = Invalid then getValue obj path else Done status) (\<lambda>condSlice.
       thn (rfindCond condSlice condName) (\<lambda>cond.
         case cond of
           Some i \<Rightarrow> Done (obj, path, i)
         | None \<Rightarrow>
             thn (rnewCond condSlice condName) (\<lambda>newCond.
             thn (set_value obj path (rAppend newCond)) (\<lambda>obj'.
             thn (getValue obj' path) (\<lambda>condSlice'.
             thn (rfindCond condSlice' condName) (\<lambda>cond'.
               case cond' of None \<Rightarrow> Panics | Some i \<Rightarrow> Done (obj', path, i))))))))"

subsection \<open>Reading and writing a condition\<close>

text \<open>A field of the condition; the empty string without one.\<close>

definition read_field :: "string \<Rightarrow> iface \<Rightarrow> string \<Rightarrow> string ran" where
  "read_field field obj condName =
     thn (rfindOrNotCreateCond obj condName) (\<lambda>cond.
       case cond of None \<Rightarrow> Done [] | Some c \<Rightarrow> thn (getFieldValue c [field]) (\<lambda>v. Done (rString v)))"

definition rgetStatus :: "iface \<Rightarrow> string \<Rightarrow> string ran" where
  "rgetStatus = read_field ''Status''"

definition rgetTS :: "iface \<Rightarrow> string \<Rightarrow> string ran" where
  "rgetTS = read_field ''LastUpdateTime''"

definition rGetReason :: "string \<Rightarrow> iface \<Rightarrow> string ran" where
  "rGetReason c obj = read_field ''Reason'' obj c"

definition rGetMessage :: "string \<Rightarrow> iface \<Rightarrow> string ran" where
  "rGetMessage c obj = read_field ''Message'' obj c"

definition rIsTrue :: "string \<Rightarrow> iface \<Rightarrow> bool ran" where
  "rIsTrue c obj = thn (rgetStatus obj c) (\<lambda>s. Done (s = ''True''))"

definition rIsFalse :: "string \<Rightarrow> iface \<Rightarrow> bool ran" where
  "rIsFalse c obj = thn (rgetStatus obj c) (\<lambda>s. Done (s = ''False''))"

text \<open>\<^verbatim>\<open>Interface\<close> of a missing field panics, and so does the assertion that the value is a \<^verbatim>\<open>metav1.Time\<close>.\<close>

definition rgetLastTransitionTime :: "iface \<Rightarrow> string \<Rightarrow> instant ran" where
  "rgetLastTransitionTime obj condName =
     thn (rfindOrNotCreateCond obj condName) (\<lambda>cond.
       case cond of
         None \<Rightarrow> Done 0
       | Some c \<Rightarrow> thn (getFieldValue c [''LastTransitionTime'']) (\<lambda>v. case v of VTime t \<Rightarrow> Done t | _ \<Rightarrow> Panics))"

definition rtouchTS :: "string \<Rightarrow> rvalue \<Rightarrow> rvalue ran" where
  "rtouchTS now = set_field ''LastUpdateTime'' now"

definition rsetValue :: "string \<Rightarrow> string \<Rightarrow> string \<Rightarrow> rvalue \<Rightarrow> rvalue ran" where
  "rsetValue now fieldName newValue cond =
     thn (getFieldValue cond [fieldName]) (\<lambda>value.
       if rString value \<noteq> newValue then thn (set_field fieldName newValue cond) (rtouchTS now) else Done cond)"

text \<open>A write to the condition that \<^verbatim>\<open>findOrCreateCond\<close> gives.\<close>

definition on_cond :: "iface \<Rightarrow> string \<Rightarrow> (rvalue \<Rightarrow> rvalue ran) \<Rightarrow> iface ran" where
  "on_cond obj condName g = thn (rfindOrCreateCond obj condName) (\<lambda>(obj', path, i). set_element obj' path i g)"

definition rsetStatus :: "string \<Rightarrow> iface \<Rightarrow> string \<Rightarrow> string \<Rightarrow> iface ran" where
  "rsetStatus now obj condName status = on_cond obj condName (rsetValue now ''Status'' status)"

definition rsetTS :: "iface \<Rightarrow> string \<Rightarrow> string \<Rightarrow> iface ran" where
  "rsetTS obj condName ts = on_cond obj condName (set_field ''LastUpdateTime'' ts)"

definition rReason :: "string \<Rightarrow> string \<Rightarrow> iface \<Rightarrow> iface ran" where
  "rReason c reason obj = on_cond obj c (set_field ''Reason'' reason)"

definition rMessage :: "string \<Rightarrow> string \<Rightarrow> string \<Rightarrow> iface \<Rightarrow> iface ran" where
  "rMessage now c message obj = on_cond obj c (rsetValue now ''Message'' message)"

definition rMessageIfBlank :: "string \<Rightarrow> string \<Rightarrow> string \<Rightarrow> iface \<Rightarrow> iface ran" where
  "rMessageIfBlank now c message obj =
     thn (rGetMessage c obj) (\<lambda>m. if m = [] then rMessage now c message obj else Done obj)"

definition rCreateUnknownIfNotExists :: "string \<Rightarrow> string \<Rightarrow> iface \<Rightarrow> iface ran" where
  "rCreateUnknownIfNotExists now c obj =
     thn (getValue obj [''Status'', ''Conditions'']) (\<lambda>condSlice.
     thn (rfindCond condSlice c) (\<lambda>cond.
       case cond of None \<Rightarrow> rsetStatus now obj c ''Unknown'' | Some _ \<Rightarrow> Done obj))"

definition rSetError :: "string \<Rightarrow> string \<Rightarrow> string \<Rightarrow> go_error option \<Rightarrow> iface \<Rightarrow> iface ran" where
  "rSetError now c reason err obj =
     (case err of
        None \<Rightarrow> thn (rsetStatus now obj c ''True'') (\<lambda>obj. thn (rMessage now c [] obj) (rReason c reason))
      | Some e \<Rightarrow>
          (let reason' = (if reason = [] then ''Error'' else reason)
           in thn (rsetStatus now obj c ''False'') (\<lambda>obj. thn (rMessage now c (error_msg e) obj) (rReason c reason'))))"

text \<open>\<^verbatim>\<open>&&\<close> reads the next field only when the comparison before holds.\<close>

definition rMatchesError :: "string \<Rightarrow> string \<Rightarrow> go_error option \<Rightarrow> iface \<Rightarrow> bool ran" where
  "rMatchesError c reason err obj =
     (let status = (if err = None then rIsTrue c obj else rIsFalse c obj);
          message = (case err of None \<Rightarrow> [] | Some e \<Rightarrow> error_msg e);
          reason' = (if err \<noteq> None \<and> reason = [] then ''Error'' else reason)
      in thn status (\<lambda>b. if \<not> b then Done False else
         thn (rGetMessage c obj) (\<lambda>m. if m \<noteq> message then Done False else
         thn (rGetReason c obj) (\<lambda>r. Done (r = reason')))))"

subsection \<open>Errors with a reason\<close>

record conditionError =
  ce_reason :: string
  ce_message :: string

definition condition_Error :: "string \<Rightarrow> go_error \<Rightarrow> conditionError" where
  "condition_Error reason err = \<lparr>ce_reason = reason, ce_message = error_msg err\<rparr>"

definition conditionError_Error :: "conditionError \<Rightarrow> string" where
  "conditionError_Error e = ce_message e"

subsection \<open>Objects with conditions\<close>

lemma findCond_length: "findCond cs name = Some i \<Longrightarrow> i < length cs"
  using findCond_SomeD by blast

text \<open>
  An object whose field \<^verbatim>\<open>Status.Conditions\<close> is a slice, given as the rest of the object around the slice, and structs with the
  four fields every condition has.
\<close>

locale condition_object =
  fixes enc :: "'c condition_base_scheme \<Rightarrow> rvalue" and around :: "rvalue \<Rightarrow> rvalue"
  assumes reads [simp]: "getFieldValue (enc c) [''Type''] = Done (VString (cond_Type c))"
      "getFieldValue (enc c) [''Status''] = Done (VString (cond_Status c))"
      "getFieldValue (enc c) [''Reason''] = Done (VString (cond_Reason c))"
      "getFieldValue (enc c) [''Message''] = Done (VString (cond_Message c))"
    and conditions: "getFieldValue (around v) [''Status'', ''Conditions''] = Done v"
begin

definition object :: "string \<Rightarrow> rvalue \<Rightarrow> 'c condition_base_scheme list \<Rightarrow> iface" where
  "object t z cs = Pointer (Some (around (VSlice t z (map enc cs))))"

lemma getValue_object [simp]: "getValue (object t z cs) [''Status'', ''Conditions''] = Done (VSlice t z (map enc cs))"
  using conditions by (simp add: getValue_def object_def)

lemma find_element_enc [simp]: "find_element (map enc cs) name = Done (findCond cs name)"
  by (induction cs) (simp_all del: getFieldValue.simps)

lemma rfindCond_enc [simp]: "rfindCond (VSlice t z (map enc cs)) name = Done (findCond cs name)"
  by (simp add: rfindCond_def)

lemma rfindOrNotCreateCond_object [simp]:
  "rfindOrNotCreateCond (object t z cs) name = Done (map_option enc (findOrNotCreateCond cs name))"
  by (auto simp: rfindOrNotCreateCond_def findOrNotCreateCond_def findCond_length split: option.split)

text \<open>The readers.\<close>

lemma readers:
  "rgetStatus (object t z cs) c = Done (getStatus cs c)" "rGetReason c (object t z cs) = Done (GetReason cs c)"
  "rGetMessage c (object t z cs) = Done (GetMessage cs c)" "rIsTrue c (object t z cs) = Done (IsTrue cs c)"
  "rIsFalse c (object t z cs) = Done (IsFalse cs c)"
  by (simp_all add: rgetStatus_def rGetReason_def rGetMessage_def rIsTrue_def rIsFalse_def IsTrue_def IsFalse_def read_field_def
      getStatus_def GetReason_def GetMessage_def split: option.split del: getFieldValue.simps)

end

text \<open>Conditions that can be written as well: they have a stamp, and the zero value of their type is theirs.\<close>

locale condition_target = condition_object enc around
  for enc :: "GenericCondition \<Rightarrow> rvalue" and around :: "rvalue \<Rightarrow> rvalue" +
  fixes tname :: string and zero :: rvalue
  assumes stamp [simp]: "getFieldValue (enc c) [''LastUpdateTime''] = Done (VString (gc_LastUpdateTime c))"
    and writes [simp]: "set_field ''Status'' s (enc c) = Done (enc (c\<lparr>cond_Status := s\<rparr>))"
      "set_field ''Reason'' s (enc c) = Done (enc (c\<lparr>cond_Reason := s\<rparr>))"
      "set_field ''Message'' s (enc c) = Done (enc (c\<lparr>cond_Message := s\<rparr>))"
      "set_field ''LastUpdateTime'' s (enc c) = Done (enc (c\<lparr>gc_LastUpdateTime := s\<rparr>))"
    and zero: "thn (set_field ''Type'' name zero) (set_field ''Status'' ''Unknown'') = Done (enc (new_cond name))"
    and place: "at_path [''Status'', ''Conditions''] g (around v) = thn (g v) (\<lambda>v'. Done (around v'))"
begin

abbreviation target :: "conds \<Rightarrow> iface" where
  "target cs \<equiv> object tname zero cs"

lemma rfindOrCreateCond_target:
  "rfindOrCreateCond (target cs) name = (let (cs', i) = findOrCreateCond cs name in Done (target cs', [''Status'', ''Conditions''], i))"
proof (cases "findCond cs name")
  case None
  have "set_value (target cs) [''Status'', ''Conditions''] (rAppend (enc (new_cond name))) = Done (target (cs @ [new_cond name]))"
    by (simp add: set_value_def object_def place del: at_path.simps)
  moreover have "findCond (cs @ [new_cond name]) name = Some (length cs)" using None by (simp add: findCond_append)
  moreover have "rfindCond (VSlice tname zero (map enc cs @ [enc (new_cond name)])) name = Done (findCond (cs @ [new_cond name]) name)"
    using rfindCond_enc [of tname zero "cs @ [new_cond name]" name] by simp
  ultimately show ?thesis using None by (simp add: rfindOrCreateCond_def findOrCreateCond_def Let_def zero)
qed (simp add: rfindOrCreateCond_def findOrCreateCond_def Let_def)

lemma on_cond_target:
  assumes "\<And>c. g (enc c) = Done (enc (f c))"
  shows "on_cond (target cs) name g = Done (target (with_cond cs name f))"
proof -
  obtain cs' i where cs': "findOrCreateCond cs name = (cs', i)" by fastforce
  have "i < length cs'" using cs' by (auto simp: findOrCreateCond_def findCond_length split: option.splits)
  then have "set_element (target cs') [''Status'', ''Conditions''] i g = Done (target (cs'[i := f (cs' ! i)]))"
    by (simp add: set_element_def set_value_def object_def place assms map_update del: at_path.simps)
  then show ?thesis using cs' by (simp add: on_cond_def rfindOrCreateCond_target with_cond_def)
qed

lemma rsetValue_enc:
  "rsetValue now ''Status'' s (enc c) = Done (enc (setValue_Status now s c))"
  "rsetValue now ''Message'' s (enc c) = Done (enc (setValue_Message now s c))"
  by (simp_all add: rsetValue_def rtouchTS_def setValue_Status_def setValue_Message_def touchTS_def del: getFieldValue.simps set_field.simps)

text \<open>The writers.\<close>

lemma writers:
  "rsetStatus now (target cs) c s = Done (target (setStatus now cs c s))"
  "rsetTS (target cs) c ts = Done (target (setTS cs c ts))"
  "rReason c r (target cs) = Done (target (SetReason c r cs))"
  "rMessage now c m (target cs) = Done (target (SetMessage now c m cs))"
  by (simp_all add: rsetStatus_def rsetTS_def rReason_def rMessage_def setStatus_def setTS_def SetReason_def SetMessage_def touchTS_def [abs_def]
      on_cond_target rsetValue_enc del: set_field.simps)

lemma operations:
  "rgetTS (target cs) c = Done (getTS cs c)"
  "rMessageIfBlank now c m (target cs) = Done (target (SetMessageIfBlank now c m cs))"
  "rCreateUnknownIfNotExists now c (target cs) = Done (target (CreateUnknownIfNotExists now c cs))"
  "rSetError now c reason err (target cs) = Done (target (SetError now c reason err cs))"
  "rMatchesError c reason err (target cs) = Done (MatchesError cs c reason err)"
  by (auto simp: rgetTS_def read_field_def getTS_def rMessageIfBlank_def SetMessageIfBlank_def rCreateUnknownIfNotExists_def
      CreateUnknownIfNotExists_def rSetError_def SetError_def rMatchesError_def MatchesError_def readers writers SetUnknown_def SetTrue_def
      SetFalse_def Let_def split: option.split simp del: getFieldValue.simps)

end

subsection \<open>Plans and Jobs\<close>

text \<open>Of the other fields of the structs only the names matter here.\<close>

definition generic_value :: "GenericCondition \<Rightarrow> rvalue" where
  "generic_value c = VStruct ''genericcondition.GenericCondition''
     [(''Type'', VString (cond_Type c)), (''Status'', VString (cond_Status c)),
      (''LastUpdateTime'', VString (gc_LastUpdateTime c)), (''LastTransitionTime'', VString (gc_LastTransitionTime c)),
      (''Reason'', VString (cond_Reason c)), (''Message'', VString (cond_Message c))]"

definition zero_generic :: rvalue where
  "zero_generic = generic_value \<lparr>cond_Type = [], cond_Status = [], cond_Reason = [], cond_Message = [],
     gc_LastUpdateTime = [], gc_LastTransitionTime = []\<rparr>"

definition plan_around :: "Plan \<Rightarrow> rvalue \<Rightarrow> rvalue" where
  "plan_around p v = VStruct ''v1.Plan''
     [(''TypeMeta'', VOther ''v1.TypeMeta''), (''ObjectMeta'', VOther ''v1.ObjectMeta''), (''Spec'', VOther ''v1.PlanSpec''),
      (''Status'', VStruct ''v1.PlanStatus''
         [(''Conditions'', v), (''LatestVersion'', VString (st_LatestVersion (p_Status p))),
          (''LatestHash'', VString (st_LatestHash (p_Status p))),
          (''Applying'', VSlice ''[]string'' (VString []) (map VString (st_Applying (p_Status p))))])]"

definition job_value :: "JobCondition \<Rightarrow> rvalue" where
  "job_value c = VStruct ''v1.JobCondition''
     [(''Type'', VString (cond_Type c)), (''Status'', VString (cond_Status c)), (''LastProbeTime'', VTime (jc_LastProbeTime c)),
      (''LastTransitionTime'', VTime (jc_LastTransitionTime c)), (''Reason'', VString (cond_Reason c)),
      (''Message'', VString (cond_Message c))]"

definition job_around :: "rvalue \<Rightarrow> rvalue" where
  "job_around v = VStruct ''v1.Job''
     [(''TypeMeta'', VOther ''v1.TypeMeta''), (''ObjectMeta'', VOther ''v1.ObjectMeta''), (''Spec'', VOther ''v1.JobSpec''),
      (''Status'', VStruct ''v1.JobStatus'' [(''Conditions'', v), (''StartTime'', VOther ''*v1.Time'')])]"

interpretation plan_object: condition_target generic_value "plan_around p" "''[]genericcondition.GenericCondition''" zero_generic for p
  by unfold_locales (simp_all add: generic_value_def plan_around_def zero_generic_def new_cond_def split: ran.split)

interpretation job_object: condition_object job_value job_around
  by unfold_locales (simp_all add: job_value_def job_around_def)

definition plan_iface :: "Plan \<Rightarrow> iface" where
  "plan_iface p = Pointer (Some (plan_around p
     (VSlice ''[]genericcondition.GenericCondition'' zero_generic (map generic_value (p_Conditions p)))))"

definition job_iface :: "Job \<Rightarrow> iface" where
  "job_iface j = Pointer (Some (job_around
     (VSlice ''[]v1.JobCondition''
        (job_value \<lparr>cond_Type = [], cond_Status = [], cond_Reason = [], cond_Message = [],
           jc_LastProbeTime = 0, jc_LastTransitionTime = 0\<rparr>)
        (map job_value (job_Conditions j)))))"

definition with_conditions :: "Plan \<Rightarrow> conds \<Rightarrow> Plan" where
  "with_conditions p cs = p\<lparr>p_Status := (p_Status p)\<lparr>st_Conditions := cs\<rparr>\<rparr>"

lemma plan_iface_target: "plan_iface p = plan_object.target p (p_Conditions p)"
  by (simp add: plan_iface_def plan_object.object_def)

lemma with_conditions_simps [simp]: "p_Conditions (with_conditions p cs) = cs" "plan_around (with_conditions p cs) = plan_around p"
  by (simp_all add: with_conditions_def plan_around_def fun_eq_iff)

lemma job_iface_object: "\<exists>t z. job_iface j = job_object.object t z (job_Conditions j)"
  by (auto simp: job_iface_def job_object.object_def)

subsection \<open>Properties\<close>

text \<open>
  C16: on a pointer to a Plan the functions on conditions, which find their way by reflection, always return, read what
  the functions on its list of conditions read, and leave the plan with the list those functions give
  and nothing else changed.
\<close>

theorem plan_conditions_by_reflection:
  shows "rgetStatus (plan_iface p) c = Done (getStatus (p_Conditions p) c) \<and>
     rGetReason c (plan_iface p) = Done (GetReason (p_Conditions p) c) \<and>
     rGetMessage c (plan_iface p) = Done (GetMessage (p_Conditions p) c) \<and>
     rgetTS (plan_iface p) c = Done (getTS (p_Conditions p) c) \<and>
     rsetStatus now (plan_iface p) c s = Done (plan_iface (with_conditions p (setStatus now (p_Conditions p) c s))) \<and>
     rsetTS (plan_iface p) c s = Done (plan_iface (with_conditions p (setTS (p_Conditions p) c s))) \<and>
     rReason c s (plan_iface p) = Done (plan_iface (with_conditions p (SetReason c s (p_Conditions p)))) \<and>
     rMessage now c s (plan_iface p) = Done (plan_iface (with_conditions p (SetMessage now c s (p_Conditions p)))) \<and>
     rSetError now c s err (plan_iface p) = Done (plan_iface (with_conditions p (SetError now c s err (p_Conditions p)))) \<and>
     rMatchesError c s err (plan_iface p) = Done (MatchesError (p_Conditions p) c s err)"
  by (simp add: plan_iface_target plan_object.readers plan_object.writers plan_object.operations)

lemma plan_conditions_created_by_reflection:
  "rMessageIfBlank now c m (plan_iface p) = Done (plan_iface (with_conditions p (SetMessageIfBlank now c m (p_Conditions p))))"
  "rCreateUnknownIfNotExists now c (plan_iface p) =
     Done (plan_iface (with_conditions p (CreateUnknownIfNotExists now c (p_Conditions p))))"
  by (simp_all add: plan_iface_target plan_object.operations)

text \<open>
  The conditions of a Job can be read, its transition time included, but no status of a Job can be changed: the
  conditions of a Job have no field \<^verbatim>\<open>LastUpdateTime\<close>, and stamping it panics.
\<close>

lemma job_conditions_by_reflection:
  "rgetStatus (job_iface j) c = Done (getStatus (job_Conditions j) c)"
  "rGetReason c (job_iface j) = Done (GetReason (job_Conditions j) c)"
  "rGetMessage c (job_iface j) = Done (GetMessage (job_Conditions j) c)"
  "rgetLastTransitionTime (job_iface j) c = Done (getLastTransitionTime (job_Conditions j) c)"
proof -
  obtain t z where o': "job_iface j = job_object.object t z (job_Conditions j)" using job_iface_object by blast
  show "rgetStatus (job_iface j) c = Done (getStatus (job_Conditions j) c)"
    "rGetReason c (job_iface j) = Done (GetReason (job_Conditions j) c)"
    "rGetMessage c (job_iface j) = Done (GetMessage (job_Conditions j) c)"
    by (simp_all add: o' job_object.readers)
  have "getFieldValue (job_value x) [''LastTransitionTime''] = Done (VTime (jc_LastTransitionTime x))" for x
    by (simp add: job_value_def)
  then show "rgetLastTransitionTime (job_iface j) c = Done (getLastTransitionTime (job_Conditions j) c)"
    by (auto simp: o' rgetLastTransitionTime_def getLastTransitionTime_def split: option.split simp del: getFieldValue.simps)
qed

lemma job_condition_unwritable:
  assumes "getStatus (job_Conditions j) c \<noteq> s" "findOrNotCreateCond (job_Conditions j) c \<noteq> None"
  shows "rsetStatus now (job_iface j) c s = Panics"
proof -
  obtain t z where o': "job_iface j = job_object.object t z (job_Conditions j)" using job_iface_object by blast
  obtain i where i: "findCond (job_Conditions j) c = Some i" "cond_Status (job_Conditions j ! i) \<noteq> s"
    using assms by (auto simp: getStatus_def findOrNotCreateCond_def)
  have "rsetValue now ''Status'' s (job_value x) = Panics" if "cond_Status x \<noteq> s" for x
    using that by (simp add: rsetValue_def rtouchTS_def job_value_def)
  with i findCond_length [OF i(1)] show ?thesis
    by (simp add: o' rsetStatus_def on_cond_def rfindOrCreateCond_def set_element_def set_value_def)
      (simp add: job_object.object_def job_around_def set_value_def)
qed

text \<open>An object without conditions in its status that has conditions at the top.\<close>

abbreviation conds_slice :: "string \<Rightarrow> conds \<Rightarrow> rvalue" where
  "conds_slice t cs \<equiv> VSlice t zero_generic (map generic_value cs)"

definition outside_status :: "(string \<times> rvalue) list \<Rightarrow> string \<Rightarrow> conds \<Rightarrow> bool" where
  "outside_status fs t cs \<longleftrightarrow> (\<exists>t' fs'. map_of fs ''Status'' = Some (VStruct t' fs') \<and> map_of fs' ''Conditions'' = None) \<and>
     map_of fs ''Conditions'' = Some (conds_slice t cs)"

lemma outside_status_reads:
  assumes "outside_status fs t cs"
  shows "getValue (Pointer (Some (VStruct n fs))) [''Status'', ''Conditions''] = Done Invalid"
    "getValue (Pointer (Some (VStruct n fs))) [''Conditions''] = Done (conds_slice t cs)"
    "rgetStatus (Pointer (Some (VStruct n fs))) c = Exits"
  using assms by (auto simp: outside_status_def getValue_def rgetStatus_def read_field_def rfindOrNotCreateCond_def rfindCond_def)

lemma outside_status_update: "outside_status fs t cs \<Longrightarrow> outside_status (AList.update ''Conditions'' (conds_slice t cs') fs) t cs'"
  by (simp add: outside_status_def update_conv')

lemma outside_status_writes:
  assumes o': "outside_status fs t cs"
  shows "\<exists>fs'. rsetStatus now (Pointer (Some (VStruct n fs))) c s = Done (Pointer (Some (VStruct n fs'))) \<and>
     outside_status fs' t (setStatus now cs c s)"
proof -
  have cur: "map_of gs ''Conditions'' = Some (conds_slice t ds)" if "outside_status gs t ds" for gs ds
    using that by (simp add: outside_status_def)
  obtain cs' i where cs': "findOrCreateCond cs c = (cs', i)" by fastforce
  then have i: "i < length cs'" by (auto simp: findOrCreateCond_def findCond_length split: option.splits)
  obtain gs where gs: "rfindOrCreateCond (Pointer (Some (VStruct n fs))) c = Done (Pointer (Some (VStruct n gs)), [''Conditions''], i)"
    "outside_status gs t cs'"
  proof (cases "findCond cs c")
    case None
    let ?gs = "AList.update ''Conditions'' (conds_slice t cs') fs"
    have c: "cs' = cs @ [new_cond c]" "i = length cs" using cs' None by (simp_all add: findOrCreateCond_def)
    have "set_value (Pointer (Some (VStruct n fs))) [''Conditions''] (rAppend (generic_value (new_cond c))) = Done (Pointer (Some (VStruct n ?gs)))"
      by (simp add: set_value_def cur [OF o'] c)
    moreover have "findCond cs' c = Some i" using c None by (simp add: findCond_append)
    ultimately show ?thesis
      using outside_status_reads [OF o'] outside_status_reads(2) [OF outside_status_update [OF o']] None
      by (intro that [of ?gs] outside_status_update [OF o']) (simp add: rfindOrCreateCond_def plan_object.zero del: map_append)
  next
    case (Some j)
    then show ?thesis
      using cs' o' outside_status_reads [OF o'] by (intro that [of fs]) (simp_all add: rfindOrCreateCond_def findOrCreateCond_def)
  qed
  have "set_element (Pointer (Some (VStruct n gs))) [''Conditions''] i (rsetValue now ''Status'' s) =
      Done (Pointer (Some (VStruct n (AList.update ''Conditions'' (conds_slice t (setStatus now cs c s)) gs))))"
    using i cs' by (simp add: set_element_def set_value_def cur [OF gs(2)] plan_object.rsetValue_enc map_update setStatus_def with_cond_def)
  then show ?thesis using gs(1) outside_status_update [OF gs(2)] by (simp add: rsetStatus_def on_cond_def)
qed

text \<open>
  C37: what happens when the conditions are not where they are expected: without an object the process ends, a nil pointer
  and an object without a field \<^verbatim>\<open>Status\<close> panic, also in the writers, which are meant to fall back to a field \<^verbatim>\<open>Conditions\<close> of the
  object; and where they do fall back, for a \<^verbatim>\<open>Status\<close> without conditions, the write succeeds and every read of
  what was written ends the process.
\<close>

theorem conditions_elsewhere:
  "rgetStatus NilIface c = Exits \<and> rsetStatus now NilIface c s = Exits \<and>
   rgetStatus (Pointer None) c = Panics \<and> rsetStatus now (Pointer None) c s = Panics \<and>
   (map_of fs ''Status'' = None \<longrightarrow> rgetStatus (Pointer (Some (VStruct n fs))) c = Panics \<and>
      rsetStatus now (Pointer (Some (VStruct n fs))) c s = Panics) \<and>
   (outside_status fs t cs \<longrightarrow> (\<exists>obj'. rsetStatus now (Pointer (Some (VStruct n fs))) c s = Done obj' \<and>
      getValue obj' [''Conditions''] = Done (conds_slice t (setStatus now cs c s)) \<and> rgetStatus obj' c = Exits))"
proof (intro conjI impI)
  assume "outside_status fs t cs"
  then show "\<exists>obj'. rsetStatus now (Pointer (Some (VStruct n fs))) c s = Done obj' \<and>
      getValue obj' [''Conditions''] = Done (conds_slice t (setStatus now cs c s)) \<and> rgetStatus obj' c = Exits"
    using outside_status_writes outside_status_reads by meson
qed (simp_all add: rgetStatus_def read_field_def rfindOrNotCreateCond_def rsetStatus_def on_cond_def rfindOrCreateCond_def getValue_def rfindCond_def)

theorem conditions_elsewhere_witness:
  "rsetStatus ''t'' (Pointer (Some (VStruct ''Config'' [(''Conditions'', conds_slice ''[]C'' [])]))) ''Ready'' ''True'' = Panics \<and>
   (\<exists>obj'. rsetStatus ''t'' (Pointer (Some (VStruct ''Config'' [(''Status'', VStruct ''S'' []), (''Conditions'', conds_slice ''[]C'' [])])))
      ''Ready'' ''True'' = Done obj' \<and> rgetStatus obj' ''Ready'' = Exits)"
proof
  show "rsetStatus ''t'' (Pointer (Some (VStruct ''Config'' [(''Conditions'', conds_slice ''[]C'' [])]))) ''Ready'' ''True'' = Panics"
    using conditions_elsewhere [of "''Ready''" "''t''" "''True''" "[(''Conditions'', conds_slice ''[]C'' [])]"] by simp
  have "outside_status [(''Status'', VStruct ''S'' []), (''Conditions'', conds_slice ''[]C'' [])] ''[]C'' []"
    by (simp add: outside_status_def)
  then show "\<exists>obj'. rsetStatus ''t'' (Pointer (Some (VStruct ''Config'' [(''Status'', VStruct ''S'' []), (''Conditions'', conds_slice ''[]C'' [])])))
      ''Ready'' ''True'' = Done obj' \<and> rgetStatus obj' ''Ready'' = Exits"
    using conditions_elsewhere [of "''Ready''" "''t''" "''True''"] by blast
qed

end
