(* ===== verification/Crds.thy ===== *)
theory Crds
  imports SampleCluster
begin

text \<open>
  \<^verbatim>\<open>pkg/crds/crds.go\<close>: the custom resource definitions embedded in the program. The embedded files
  are a finite tree; \<^verbatim>\<open>crdsFromDir\<close> walks it by path, decodes every file and refuses objects of
  another kind and names that appear twice. The decoder of YAML is a parameter, and so is the
  order in which a Go map is ranged over.
\<close>

subsection \<open>The embedded file system\<close>

text \<open>A file or a directory; the data of a file is what a reader of it gives.\<close>

datatype tree = File string string | Dir string "tree list"

fun entry_Name :: "tree \<Rightarrow> string" where
  "entry_Name (File n d) = n"
| "entry_Name (Dir n es) = n"

fun entry_IsDir :: "tree \<Rightarrow> bool" where
  "entry_IsDir (File n d) = False"
| "entry_IsDir (Dir n es) = True"

fun fs_lookup :: "tree list \<Rightarrow> string list \<Rightarrow> tree option" where
  "fs_lookup es [] = None"
| "fs_lookup es [n] = List.find (\<lambda>e. entry_Name e = n) es"
| "fs_lookup es (n # m # ns) =
     (case List.find (\<lambda>e. entry_Name e = n) es of
        Some (Dir n' es') \<Rightarrow> fs_lookup es' (m # ns)
      | _ \<Rightarrow> None)"

definition not_exist :: "string \<Rightarrow> go_error" where
  "not_exist path = NewError (''open '' @ path @ '': file does not exist'')"

text \<open>\<^verbatim>\<open>embed.FS.ReadDir\<close> and \<^verbatim>\<open>embed.FS.Open\<close>; \<open>.\<close> is the root.\<close>

definition embed_ReadDir :: "tree list \<Rightarrow> string \<Rightarrow> tree list result" where
  "embed_ReadDir fs path =
     (if path = ''.'' then Inr fs
      else (case fs_lookup fs (Split path (CHR ''/'')) of
          None \<Rightarrow> Inl (not_exist path)
        | Some (File n d) \<Rightarrow> Inl (NewError (''read '' @ path @ '': not a directory''))
        | Some (Dir n es) \<Rightarrow> Inr es))"

definition embed_Open :: "tree list \<Rightarrow> string \<Rightarrow> tree result" where
  "embed_Open fs path =
     (if path = ''.'' then Inr (Dir ''.'' fs)
      else (case fs_lookup fs (Split path (CHR ''/'')) of None \<Rightarrow> Inl (not_exist path) | Some e \<Rightarrow> Inr e))"

subsection \<open>crdsFromDir\<close>

record 'a CRD =
  crd_Kind :: string
  crd_Name :: string
  crd_body :: 'a

type_synonym 'a crd_map = "(string \<times> 'a CRD) list"

definition baseDir :: string where "baseDir = ''.''"
definition crdKind :: string where "crdKind = ''CustomResourceDefinition''"
definition errDuplicate :: go_error where "errDuplicate = NewError ''duplicate CRD''"

definition duplicate_of :: "string \<Rightarrow> go_error" where
  "duplicate_of k = NewError (error_msg errDuplicate @ '' for '' @ [CHR 0x27] @ k)"

definition quoted_path :: "string \<Rightarrow> string" where
  "quoted_path p = [CHR 0x27] @ p @ [CHR 0x27]"

text \<open>The loop that merges the definitions of a sub-directory.\<close>

fun add_subs :: "'a crd_map \<Rightarrow> 'a crd_map \<Rightarrow> 'a crd_map result" where
  "add_subs [] allCRDs = Inr allCRDs"
| "add_subs ((k, v) # subs) allCRDs =
     (if map_of allCRDs k \<noteq> None then Inl (duplicate_of k) else add_subs subs (allCRDs @ [(k, v)]))"

text \<open>The loop over the objects of a file.\<close>

fun add_objs :: "'a CRD list \<Rightarrow> 'a crd_map \<Rightarrow> 'a crd_map result" where
  "add_objs [] allCRDs = Inr allCRDs"
| "add_objs (crdObj # objs) allCRDs =
     (if crd_Kind crdObj \<noteq> crdKind then
        Inl (NewError (''decoded object is not '' @ quoted_path crdKind @ '' instead found Kind='' @ quoted_path (crd_Kind crdObj)))
      else if map_of allCRDs (crd_Name crdObj) \<noteq> None then Inl (duplicate_of (crd_Name crdObj))
      else add_objs objs (allCRDs @ [(crd_Name crdObj, crdObj)]))"

text \<open>The part of the loop body that reads a file.\<close>

definition add_file ::
    "tree list \<Rightarrow> (tree \<Rightarrow> 'a CRD list result) \<Rightarrow> string \<Rightarrow> 'a crd_map \<Rightarrow> 'a crd_map result" where
  "add_file fs decode fullPath allCRDs =
     (case embed_Open fs fullPath of
        Inl err \<Rightarrow> Inl (NewError (''failed to open embedded file '' @ quoted_path fullPath @ '': '' @ error_msg err))
      | Inr file \<Rightarrow>
          (case decode file of
             Inl err \<Rightarrow> Inl (NewError (''failed to convert embedded file '' @ quoted_path fullPath @ '' to yaml: '' @ error_msg err))
           | Inr crdObjs \<Rightarrow> add_objs crdObjs allCRDs))"

text \<open>The loop over the entries of a directory; \<open>rec\<close> is the recursive call, \<^const>\<open>None\<close> a call that does not return.\<close>

fun walk_entries ::
    "(string \<Rightarrow> 'a crd_map result option) \<Rightarrow> tree list \<Rightarrow> (tree \<Rightarrow> 'a CRD list result) \<Rightarrow> ('a crd_map \<Rightarrow> 'a crd_map) \<Rightarrow>
     string \<Rightarrow> tree list \<Rightarrow> 'a crd_map \<Rightarrow> 'a crd_map result option" where
  "walk_entries rec fs decode ranged dirName [] allCRDs = Some (Inr allCRDs)"
| "walk_entries rec fs decode ranged dirName (dirEntry # entries) allCRDs =
     (let fullPath = path_Join dirName (entry_Name dirEntry)
      in if entry_IsDir dirEntry then
           Option.bind (rec fullPath) (\<lambda>r. case r of
               Inl err \<Rightarrow> Some (Inl err)
             | Inr subCRDs \<Rightarrow>
                 (case add_subs (ranged subCRDs) allCRDs of
                    Inl err \<Rightarrow> Some (Inl err)
                  | Inr allCRDs' \<Rightarrow> walk_entries rec fs decode ranged dirName entries allCRDs'))
         else
           (case add_file fs decode fullPath allCRDs of
              Inl err \<Rightarrow> Some (Inl err)
            | Inr allCRDs' \<Rightarrow> walk_entries rec fs decode ranged dirName entries allCRDs'))"

lemma case_sum_mono:
  "(\<And>a. mono_option (\<lambda>f. g f a)) \<Longrightarrow> (\<And>b. mono_option (\<lambda>f. h f b)) \<Longrightarrow>
     mono_option (\<lambda>f. case x of Inl a \<Rightarrow> g f a | Inr b \<Rightarrow> h f b)"
  by (cases x) auto

lemma walk_entries_mono [partial_function_mono]:
  assumes "\<And>d. mono_option (\<lambda>f. rec f d)"
  shows "mono_option (\<lambda>f. walk_entries (rec f) fs decode ranged dirName entries allCRDs)"
proof (induction entries arbitrary: allCRDs)
  case Nil
  show ?case by (simp add: option.const_mono)
next
  case (Cons e es)
  show ?case
  proof (cases "entry_IsDir e")
    case True
    then show ?thesis
      by (simp add: Let_def) (intro bind_mono assms case_sum_mono option.const_mono Cons.IH)
  next
    case False
    then show ?thesis
      by (simp add: Let_def) (intro case_sum_mono option.const_mono Cons.IH)
  qed
qed

partial_function (option) crdsFromDir ::
    "tree list \<Rightarrow> (tree \<Rightarrow> 'a CRD list result) \<Rightarrow> ('a crd_map \<Rightarrow> 'a crd_map) \<Rightarrow> string \<Rightarrow> 'a crd_map result option" where
  [code]: "crdsFromDir fs decode ranged dirName =
     (case embed_ReadDir fs dirName of
        Inl err \<Rightarrow> Some (Inl (NewError (''failed to read embedded dir '' @ quoted_path dirName @ '': '' @ error_msg err)))
      | Inr crdFiles \<Rightarrow> walk_entries (\<lambda>d. crdsFromDir fs decode ranged d) fs decode ranged dirName crdFiles [])"

definition crds_List ::
    "tree list \<Rightarrow> (tree \<Rightarrow> 'a CRD list result) \<Rightarrow> ('a crd_map \<Rightarrow> 'a crd_map) \<Rightarrow> 'a CRD list result option" where
  "crds_List fs decode ranged =
     map_option (\<lambda>r. case r of Inl err \<Rightarrow> Inl err | Inr crdMap \<Rightarrow> Inr (map snd (ranged crdMap)))
       (crdsFromDir fs decode ranged baseDir)"

subsection \<open>Paths of an embedded tree\<close>

text \<open>
  What \<^verbatim>\<open>go:embed\<close> guarantees of a tree: the names are non-empty, contain no slash and are not \<open>.\<close> or \<open>..\<close>,
  and a directory has one entry of each name.
\<close>

fun tree_ok :: "tree \<Rightarrow> bool" where
  "tree_ok (File n d) = plain_elem n"
| "tree_ok (Dir n es) = (plain_elem n \<and> distinct (map entry_Name es) \<and> (\<forall>e\<in>set es. tree_ok e))"

definition forest_ok :: "tree list \<Rightarrow> bool" where
  "forest_ok es \<longleftrightarrow> distinct (map entry_Name es) \<and> (\<forall>e\<in>set es. tree_ok e)"

lemma tree_ok_plain: "tree_ok e \<Longrightarrow> plain_elem (entry_Name e)"
  by (cases e) simp_all

lemma tree_ok_Dir: "tree_ok (Dir n es) \<longleftrightarrow> plain_elem n \<and> forest_ok es"
  by (simp add: forest_ok_def)

definition path_of :: "string list \<Rightarrow> string" where
  "path_of ns = (if ns = [] then ''.'' else Join ns ''/'')"

lemma Split_Join: "ns \<noteq> [] \<Longrightarrow> \<forall>n\<in>set ns. plain_elem n \<Longrightarrow> Split (Join ns ''/'') (CHR ''/'') = ns"
proof (induction ns "''/''" rule: Join.induct)
  case (3 p q ps)
  then show ?case by (simp add: Split_append_sep plain_elem_def)
qed (simp_all add: Split_no_sep plain_elem_def)

lemma Join_snoc: "ns \<noteq> [] \<Longrightarrow> Join (ns @ [n]) sep = Join ns sep @ sep @ n"
  by (induction ns sep rule: Join.induct) auto

lemma clean_plain: "\<forall>n\<in>set ns. plain_elem n \<Longrightarrow> clean_elems False out ns = rev out @ ns"
  by (induction ns arbitrary: out) (simp_all add: plain_elem_def)

lemma Join_plain_head:
  assumes "ns \<noteq> []" "\<forall>n\<in>set ns. plain_elem n"
  shows "Join ns ''/'' \<noteq> []" "hd (Join ns ''/'') \<noteq> CHR ''/''" "Join ns ''/'' \<noteq> ''.''"
proof -
  obtain m ms where ns: "ns = m # ms" using assms(1) by (cases ns) auto
  obtain x xs where m: "m = x # xs" "x \<noteq> CHR ''/''" "m \<noteq> ''.''" "CHR ''/'' \<notin> set m"
    using assms(2) ns by (cases m) (auto simp: plain_elem_def)
  show "Join ns ''/'' \<noteq> []" "hd (Join ns ''/'') \<noteq> CHR ''/''" "Join ns ''/'' \<noteq> ''.''"
    using m by (cases ms; auto simp: ns)+
qed

lemma path_Join_of:
  assumes "\<forall>n\<in>set ns. plain_elem n" "plain_elem n"
  shows "path_Join (path_of ns) n = path_of (ns @ [n])"
proof (cases "ns = []")
  case True
  have s: "Split (''.'' @ CHR ''/'' # n) (CHR ''/'') = [''.'', n]"
    using assms(2) by (subst Split_append_sep) (simp_all add: Split_no_sep plain_elem_def)
  then have "clean_elems False [] (Split (CHR ''.'' # CHR ''/'' # n) (CHR ''/'')) = [n]"
    using assms(2) by (simp add: plain_elem_def)
  then show ?thesis using True assms(2)
    by (simp add: path_of_def path_Join_def path_Clean_def plain_elem_def Let_def del: Split.simps)
next
  case False
  let ?p = "Join (ns @ [n]) ''/''"
  have pl: "\<forall>m\<in>set (ns @ [n]). plain_elem m" using assms by auto
  note h = Join_plain_head [OF _ pl]
  have j: "?p = Join ns ''/'' @ ''/'' @ n" using Join_snoc [OF False] by simp
  have "path_Clean ?p = ?p"
    using h Split_Join [OF _ pl] clean_plain [OF pl, of "[]"] by (simp add: path_Clean_def Let_def)
  moreover have "n \<noteq> []" using assms(2) by (simp add: plain_elem_def)
  ultimately show ?thesis using False Join_plain_head(1) [OF False assms(1)] by (simp add: path_of_def path_Join_def j)
qed

lemma find_entry: "distinct (map entry_Name es) \<Longrightarrow> e \<in> set es \<Longrightarrow> List.find (\<lambda>x. entry_Name x = entry_Name e) es = Some e"
  by (induction es) auto

lemma lookup_snoc:
  "fs_lookup fs ns = Some (Dir d es) \<Longrightarrow> fs_lookup fs (ns @ [n]) = List.find (\<lambda>e. entry_Name e = n) es"
proof (induction fs ns rule: fs_lookup.induct)
  case (2 es n)
  then show ?case by simp
next
  case (3 es n m ns)
  then show ?case by (auto split: option.splits tree.splits)
qed simp

text \<open>The directory \<open>es\<close> is at the path \<open>ns\<close>.\<close>

definition dir_at :: "tree list \<Rightarrow> string list \<Rightarrow> tree list \<Rightarrow> bool" where
  "dir_at fs ns es \<longleftrightarrow> (\<forall>n\<in>set ns. plain_elem n) \<and> forest_ok es \<and>
     (if ns = [] then es = fs else \<exists>d. fs_lookup fs ns = Some (Dir d es))"

lemma dir_at_entry:
  assumes "dir_at fs ns es" "e \<in> set es"
  shows "fs_lookup fs (ns @ [entry_Name e]) = Some e"
proof -
  have f: "List.find (\<lambda>x. entry_Name x = entry_Name e) es = Some e"
    using assms find_entry by (auto simp: dir_at_def forest_ok_def)
  show ?thesis
  proof (cases "ns = []")
    case True
    with assms f show ?thesis by (simp add: dir_at_def)
  next
    case False
    with assms(1) obtain d where "fs_lookup fs ns = Some (Dir d es)" by (auto simp: dir_at_def)
    from lookup_snoc [OF this] f show ?thesis by simp
  qed
qed

lemma dir_at_ReadDir: "dir_at fs ns es \<Longrightarrow> embed_ReadDir fs (path_of ns) = Inr es"
  using Join_plain_head(3) [of ns] Split_Join [of ns] by (auto simp: dir_at_def embed_ReadDir_def path_of_def)

lemma dir_at_Join:
  assumes "dir_at fs ns es" "e \<in> set es"
  shows "path_Join (path_of ns) (entry_Name e) = path_of (ns @ [entry_Name e])"
    "embed_Open fs (path_of (ns @ [entry_Name e])) = Inr e"
    "e = Dir n es' \<Longrightarrow> dir_at fs (ns @ [entry_Name e]) es'"
proof -
  have t: "tree_ok e" using assms by (simp add: dir_at_def forest_ok_def)
  have pl: "\<forall>m\<in>set (ns @ [entry_Name e]). plain_elem m" using assms(1) tree_ok_plain [OF t] by (auto simp: dir_at_def)
  show "path_Join (path_of ns) (entry_Name e) = path_of (ns @ [entry_Name e])"
    using pl by (intro path_Join_of) auto
  show "embed_Open fs (path_of (ns @ [entry_Name e])) = Inr e"
    using Join_plain_head(3) [OF _ pl] Split_Join [OF _ pl] dir_at_entry [OF assms] by (simp add: embed_Open_def path_of_def)
  show "dir_at fs (ns @ [entry_Name e]) es'" if "e = Dir n es'"
    using dir_at_entry [OF assms] pl t that tree_ok_Dir [of n es'] by (simp add: dir_at_def)
qed

subsection \<open>The walk as recursion on the tree\<close>

fun load ::
    "(tree \<Rightarrow> 'a CRD list result) \<Rightarrow> ('a crd_map \<Rightarrow> 'a crd_map) \<Rightarrow> string list \<Rightarrow> tree list \<Rightarrow> 'a crd_map \<Rightarrow> 'a crd_map result" where
  "load decode ranged ns [] allCRDs = Inr allCRDs"
| "load decode ranged ns (File n d # es) allCRDs =
     (case decode (File n d) of
        Inl err \<Rightarrow> Inl (NewError (''failed to convert embedded file '' @ quoted_path (path_of (ns @ [n])) @ '' to yaml: '' @ error_msg err))
      | Inr objs \<Rightarrow>
          (case add_objs objs allCRDs of Inl err \<Rightarrow> Inl err | Inr allCRDs' \<Rightarrow> load decode ranged ns es allCRDs'))"
| "load decode ranged ns (Dir n sub # es) allCRDs =
     (case load decode ranged (ns @ [n]) sub [] of
        Inl err \<Rightarrow> Inl err
      | Inr subCRDs \<Rightarrow>
          (case add_subs (ranged subCRDs) allCRDs of Inl err \<Rightarrow> Inl err | Inr allCRDs' \<Rightarrow> load decode ranged ns es allCRDs'))"

lemma walk_entries_load:
  assumes "dir_at fs ns es0" "set es \<subseteq> set es0"
    and "\<And>n sub. Dir n sub \<in> set es \<Longrightarrow> rec (path_of (ns @ [n])) = Some (load decode ranged (ns @ [n]) sub [])"
  shows "walk_entries rec fs decode ranged (path_of ns) es allCRDs = Some (load decode ranged ns es allCRDs)"
  using assms(2,3)
proof (induction es arbitrary: allCRDs)
  case (Cons e es)
  have e: "e \<in> set es0" using Cons.prems(1) by simp
  note at = dir_at_Join [OF assms(1) e]
  have IH: "walk_entries rec fs decode ranged (path_of ns) es acc = Some (load decode ranged ns es acc)" for acc
    using Cons.prems by (intro Cons.IH) auto
  show ?case
  proof (cases e)
    case (File n d)
    then show ?thesis using at(1,2) IH by (simp add: add_file_def Let_def split: sum.split)
  next
    case (Dir n sub)
    then have "rec (path_of (ns @ [n])) = Some (load decode ranged (ns @ [n]) sub [])" by (intro Cons.prems(2)) simp
    with Dir show ?thesis using at(1) IH by (simp add: Let_def split: sum.split)
  qed
qed simp

lemma crdsFromDir_load:
  "dir_at fs ns es \<Longrightarrow> crdsFromDir fs decode ranged (path_of ns) = Some (load decode ranged ns es [])"
proof (induction "size_list size es" arbitrary: ns es rule: less_induct)
  case less
  have sub: "crdsFromDir fs decode ranged (path_of (ns @ [n])) = Some (load decode ranged (ns @ [n]) sub [])"
    if "Dir n sub \<in> set es" for n sub
  proof (rule less.hyps)
    have "size (Dir n sub) \<le> size_list size es" using that by (metis size_list_estimation' order_refl)
    then show "size_list size sub < size_list size es" by simp
    show "dir_at fs (ns @ [n]) sub" using dir_at_Join(3) [OF less.prems that refl] by simp
  qed
  have "walk_entries (\<lambda>d. crdsFromDir fs decode ranged d) fs decode ranged (path_of ns) es [] =
      Some (load decode ranged ns es [])"
    by (rule walk_entries_load [OF less.prems]) (use sub in auto)
  then show ?case by (subst crdsFromDir.simps) (simp add: dir_at_ReadDir [OF less.prems])
qed

lemma dir_at_root: "forest_ok fs \<Longrightarrow> dir_at fs [] fs"
  by (simp add: dir_at_def)

lemma crds_List_load:
  assumes "forest_ok fs"
  shows "crds_List fs decode ranged = Some (case load decode ranged [] fs [] of
     Inl err \<Rightarrow> Inl err | Inr crdMap \<Rightarrow> Inr (map snd (ranged crdMap)))"
  using crdsFromDir_load [OF dir_at_root [OF assms], of decode ranged] by (simp add: crds_List_def baseDir_def path_of_def)

subsection \<open>What is loaded\<close>

text \<open>All objects of a tree in the order of the walk; a file that does not decode has none.\<close>

fun tree_objs :: "(tree \<Rightarrow> 'a CRD list result) \<Rightarrow> tree \<Rightarrow> 'a CRD list" where
  "tree_objs decode (File n d) = (case decode (File n d) of Inl err \<Rightarrow> [] | Inr objs \<Rightarrow> objs)"
| "tree_objs decode (Dir n es) = concat (map (tree_objs decode) es)"

fun tree_decodes :: "(tree \<Rightarrow> 'a CRD list result) \<Rightarrow> tree \<Rightarrow> bool" where
  "tree_decodes decode (File n d) = (\<not> isl (decode (File n d)))"
| "tree_decodes decode (Dir n es) = (\<forall>e\<in>set es. tree_decodes decode e)"

abbreviation forest_objs :: "(tree \<Rightarrow> 'a CRD list result) \<Rightarrow> tree list \<Rightarrow> 'a CRD list" where
  "forest_objs decode es \<equiv> concat (map (tree_objs decode) es)"

definition crd_pair :: "'a CRD \<Rightarrow> string \<times> 'a CRD" where "crd_pair o' = (crd_Name o', o')"

lemma crd_pair_simps [simp]:
  "fst (crd_pair o') = crd_Name o'" "snd (crd_pair o') = o'" "fst \<circ> crd_pair = crd_Name" "snd \<circ> crd_pair = id"
  by (simp_all add: crd_pair_def comp_def fun_eq_iff)

lemma add_subs_Inr:
  "distinct (map fst all) \<Longrightarrow> add_subs subs all = Inr all' \<longleftrightarrow> distinct (map fst (all @ subs)) \<and> all' = all @ subs"
proof (induction subs arbitrary: all)
  case (Cons kv subs)
  obtain k v where kv: "kv = (k, v)" by fastforce
  show ?case
  proof (cases "map_of all k = None")
    case True
    then have k: "k \<notin> fst ` set all" by (simp add: map_of_eq_None_iff)
    with Cons.prems have "distinct (map fst (all @ [(k, v)]))" by simp
    from Cons.IH [OF this] True k show ?thesis by (simp add: kv)
  next
    case False
    then have "k \<in> fst ` set all" by (simp add: map_of_eq_None_iff)
    with False show ?thesis by (auto simp: kv)
  qed
qed auto

lemma add_objs_subs:
  "add_objs objs all = Inr all' \<longleftrightarrow> (\<forall>o'\<in>set objs. crd_Kind o' = crdKind) \<and> add_subs (map crd_pair objs) all = Inr all'"
  by (induction objs arbitrary: all) (auto simp: crd_pair_def)

definition same_elements :: "('a list \<Rightarrow> 'a list) \<Rightarrow> bool" where
  "same_elements f \<longleftrightarrow> (\<forall>xs. mset (f xs) = mset xs)"

lemma same_elementsD:
  assumes "same_elements f"
  shows "mset (map g (f xs)) = mset (map g xs)" "set (f xs) = set xs" "distinct (map g (f xs)) = distinct (map g xs)"
proof -
  have m: "mset (f xs) = mset xs" using assms by (simp add: same_elements_def)
  then show "mset (map g (f xs)) = mset (map g xs)" by simp
  then show "distinct (map g (f xs)) = distinct (map g xs)" by (rule mset_eq_imp_distinct_iff)
  show "set (f xs) = set xs" using m by (rule mset_eq_setD)
qed

definition loads_ok :: "(tree \<Rightarrow> 'a CRD list result) \<Rightarrow> tree list \<Rightarrow> 'a crd_map \<Rightarrow> bool" where
  "loads_ok decode es all \<longleftrightarrow> (\<forall>e\<in>set es. tree_decodes decode e) \<and> (\<forall>o'\<in>set (forest_objs decode es). crd_Kind o' = crdKind) \<and>
     distinct (map fst all @ map crd_Name (forest_objs decode es))"

lemma loads_ok_File:
  assumes "decode (File n d) = Inr objs"
  shows "loads_ok decode (File n d # es) all \<longleftrightarrow> (\<forall>o'\<in>set objs. crd_Kind o' = crdKind) \<and> loads_ok decode es (all @ map crd_pair objs)"
proof -
  have "map fst (all @ map crd_pair objs) @ ks = map fst all @ map crd_Name objs @ ks" for ks by simp
  then show ?thesis using assms unfolding loads_ok_def by (simp add: ball_Un conj_ac)
qed

lemma names_mset:
  assumes "mset all' = mset all + mset (map crd_pair os)"
  shows "distinct (map fst all' @ ks) \<longleftrightarrow> distinct (map fst all @ map crd_Name os @ ks)"
proof -
  have "mset (map fst all') = mset (map fst all @ map fst (map crd_pair os))"
    using arg_cong [OF assms, of "image_mset fst"] by (simp add: multiset.map_comp)
  then have "mset (map fst all' @ ks) = mset (map fst all @ map crd_Name os @ ks)" by simp
  then show ?thesis by (rule mset_eq_imp_distinct_iff)
qed

lemma load_sound:
  "load decode ranged ns es all = Inr all' \<Longrightarrow> same_elements ranged \<Longrightarrow> distinct (map fst all) \<Longrightarrow>
     loads_ok decode es all \<and> mset all' = mset all + mset (map crd_pair (forest_objs decode es))"
proof (induction decode ranged ns es all arbitrary: all' rule: load.induct)
  case (1 decode ranged ns all)
  then show ?case by (simp add: loads_ok_def)
next
  case (2 decode ranged ns n d es all)
  obtain objs where o': "decode (File n d) = Inr objs" using "2.prems"(1) by (auto split: sum.splits)
  obtain all1 where a: "add_objs objs all = Inr all1" "load decode ranged ns es all1 = Inr all'"
    using "2.prems"(1) o' by (auto split: sum.splits)
  have k: "\<forall>o'\<in>set objs. crd_Kind o' = crdKind" and a1: "distinct (map fst (all @ map crd_pair objs))" "all1 = all @ map crd_pair objs"
    using a(1) add_subs_Inr [OF "2.prems"(3)] by (auto simp: add_objs_subs)
  have IH: "loads_ok decode es all1 \<and> mset all' = mset all1 + mset (map crd_pair (forest_objs decode es))"
    using a1 by (intro "2.IH" [OF o' a(1) a(2) "2.prems"(2)]) simp
  have "mset all' = mset all + mset (map crd_pair (forest_objs decode (File n d # es)))"
    using IH a1(2) o' by (simp add: add.assoc)
  with IH k a1(2) show ?case by (simp only: loads_ok_File [where decode = decode, OF o'])
next
  case (3 decode ranged ns n sub es all)
  obtain subs where s': "load decode ranged (ns @ [n]) sub [] = Inr subs" using "3.prems"(1) by (auto split: sum.splits)
  obtain all1 where a: "add_subs (ranged subs) all = Inr all1" "load decode ranged ns es all1 = Inr all'"
    using "3.prems"(1) s' by (auto split: sum.splits)
  have subs: "loads_ok decode sub [] \<and> mset subs = mset [] + mset (map crd_pair (forest_objs decode sub))"
    by (rule "3.IH"(1) [OF s' "3.prems"(2)]) simp
  have a1: "distinct (map fst (all @ ranged subs))" "all1 = all @ ranged subs"
    using a(1) add_subs_Inr [OF "3.prems"(3)] by auto
  have m: "mset all1 = mset all + mset (map crd_pair (forest_objs decode sub))"
    using a1(2) subs "3.prems"(2) by (simp add: same_elements_def)
  have IH: "loads_ok decode es all1 \<and> mset all' = mset all1 + mset (map crd_pair (forest_objs decode es))"
    using a1 by (intro "3.IH"(2) [OF s' a(1) a(2) "3.prems"(2)]) simp
  then have "loads_ok decode (Dir n sub # es) all"
    using subs names_mset [OF m, of "map crd_Name (forest_objs decode es)"] by (auto simp: loads_ok_def)
  with IH m show ?case by simp
qed

lemma load_complete:
  "loads_ok decode es all \<Longrightarrow> same_elements ranged \<Longrightarrow> \<exists>all'. load decode ranged ns es all = Inr all'"
proof (induction decode ranged ns es all rule: load.induct)
  case (2 decode ranged ns n d es all)
  obtain objs where o': "decode (File n d) = Inr objs" using "2.prems"(1) by (cases "decode (File n d)") (auto simp: loads_ok_def)
  let ?all1 = "all @ map crd_pair objs"
  have ok: "loads_ok decode es ?all1" "\<forall>o'\<in>set objs. crd_Kind o' = crdKind"
    using "2.prems"(1) unfolding loads_ok_File [where decode = decode, OF o'] by blast+
  then have "distinct (map fst ?all1)" by (auto simp: loads_ok_def)
  moreover from this have "distinct (map fst all)" by simp
  ultimately have a: "add_objs objs all = Inr ?all1" using ok(2) by (simp only: add_objs_subs add_subs_Inr)
  from "2.IH" [OF o' a ok(1) "2.prems"(2)] show ?case using o' a by simp
next
  case (3 decode ranged ns n sub es all)
  have "loads_ok decode sub []" using "3.prems"(1) by (auto simp: loads_ok_def)
  from "3.IH"(1) [OF this "3.prems"(2)] obtain subs where s': "load decode ranged (ns @ [n]) sub [] = Inr subs" by blast
  have "mset subs = mset (map crd_pair (forest_objs decode sub))" using load_sound [OF s' "3.prems"(2)] by simp
  then have m: "mset (all @ ranged subs) = mset all + mset (map crd_pair (forest_objs decode sub))"
    using "3.prems"(2) by (simp add: same_elements_def)
  have d: "distinct (map fst all)" using "3.prems"(1) by (simp add: loads_ok_def)
  have "distinct (map fst (all @ ranged subs) @ map crd_Name (forest_objs decode es))"
    using "3.prems"(1) by (simp only: names_mset [OF m] loads_ok_def) simp
  moreover from this have a: "add_subs (ranged subs) all = Inr (all @ ranged subs)" using add_subs_Inr [OF d] by auto
  ultimately have "loads_ok decode es (all @ ranged subs)" using "3.prems"(1) by (auto simp: loads_ok_def)
  from "3.IH"(2) [OF s' a this "3.prems"(2)] show ?case using s' a by simp
qed simp

lemma crds_List_cases:
  assumes "forest_ok fs" "same_elements ranged"
  obtains (failed) err where "\<not> loads_ok decode fs []" "crds_List fs decode ranged = Some (Inl err)"
  | (listed) crds where "loads_ok decode fs []" "crds_List fs decode ranged = Some (Inr crds)"
      "mset crds = mset (forest_objs decode fs)"
proof (cases "load decode ranged [] fs []")
  case (Inl err)
  then show ?thesis using load_complete [OF _ assms(2), of decode fs "[]" "[]"]
    by (intro failed) (auto simp: crds_List_load [OF assms(1)])
next
  case (Inr crdMap)
  have ok: "loads_ok decode fs [] \<and> mset crdMap = mset [] + mset (map crd_pair (forest_objs decode fs))"
    by (rule load_sound [OF Inr assms(2)]) simp
  have "mset (map snd (ranged crdMap)) = mset (map snd crdMap)" by (rule same_elementsD(1) [OF assms(2)])
  also have "\<dots> = mset (forest_objs decode fs)" using ok by (simp add: multiset.map_comp)
  finally show ?thesis using ok Inr by (intro listed [of "map snd (ranged crdMap)"]) (simp_all add: crds_List_load [OF assms(1)])
qed

subsection \<open>A file system for the witnesses\<close>

text \<open>One file below \<open>yaml/generated\<close>, as in the repository; its data is the name of the definition in it.\<close>

definition sample_fs :: "tree list" where
  "sample_fs = [Dir ''yaml'' [Dir ''generated'' [File ''upgrade.cattle.io_plans.yaml'' ''plans.upgrade.cattle.io'']]]"

fun sample_decode :: "tree \<Rightarrow> unit CRD list result" where
  "sample_decode (File n d) = Inr [\<lparr>crd_Kind = crdKind, crd_Name = d, crd_body = ()\<rparr>]"
| "sample_decode (Dir n es) = Inl (NewError ''is a directory'')"

lemma sample_fs_ok: "forest_ok sample_fs"
  by (simp add: forest_ok_def sample_fs_def plain_elem_def)

lemma same_elements_id: "same_elements id"
  by (simp add: same_elements_def)

lemma sample_loads: "loads_ok sample_decode sample_fs []"
  by (simp add: loads_ok_def sample_fs_def)

subsection \<open>Properties\<close>

text \<open>
  C20: the recursive walk over the embedded directories always returns, and it is the walk by recursion on the tree:
  from the path of any directory it gives what the structural function gives for the tree there.
\<close>

theorem crdsFromDir_terminates:
  assumes "dir_at fs ns es"
  shows "crdsFromDir fs decode ranged (path_of ns) = Some (load decode ranged ns es [])"
  using assms by (rule crdsFromDir_load)

theorem crdsFromDir_terminates_witness:
  "crdsFromDir sample_fs sample_decode id ''yaml/generated'' =
     Some (Inr [(''plans.upgrade.cattle.io'', \<lparr>crd_Kind = crdKind, crd_Name = ''plans.upgrade.cattle.io'', crd_body = ()\<rparr>)])"
proof -
  have "dir_at sample_fs [''yaml'', ''generated''] [File ''upgrade.cattle.io_plans.yaml'' ''plans.upgrade.cattle.io'']"
    by (simp add: dir_at_def sample_fs_def forest_ok_def plain_elem_def)
  from crdsFromDir_terminates [OF this, of sample_decode id] show ?thesis by (simp add: path_of_def)
qed

text \<open>
  C19: \<^verbatim>\<open>List\<close> gives the definitions exactly when every embedded file decodes, every object in them is a custom resource
  definition and no name appears twice in the whole tree, at whatever depth; then it gives every
  object once, in an order of its own. In every other case it returns an error.
\<close>

theorem crds_List_exact:
  assumes "forest_ok fs" "same_elements ranged"
  shows "(if loads_ok decode fs [] then \<exists>crds. crds_List fs decode ranged = Some (Inr crds) \<and> mset crds = mset (forest_objs decode fs)
     else \<exists>err. crds_List fs decode ranged = Some (Inl err))"
  by (rule crds_List_cases [OF assms, of decode]) auto

theorem crds_List_exact_witness:
  "\<exists>crds. crds_List sample_fs sample_decode id = Some (Inr crds) \<and> length crds = 1"
proof -
  obtain crds where c: "crds_List sample_fs sample_decode id = Some (Inr crds)" "mset crds = mset (forest_objs sample_decode sample_fs)"
    using crds_List_exact [OF sample_fs_ok same_elements_id, of sample_decode] sample_loads by auto
  have "length crds = length (forest_objs sample_decode sample_fs)" using c(2) by (metis size_mset)
  with c(1) show ?thesis by (simp add: sample_fs_def)
qed

end
