(* ===== verification/Startup.thy ===== *)
theory Startup
  imports Effects Crds
begin

text \<open>
  \<^verbatim>\<open>pkg/upgrade/controller.go\<close>, \<^verbatim>\<open>main.go\<close> and the registration of the handlers: how the program is
  assembled and started. What the constructors of the client libraries, the API server and the
  leader election answer are parameters; what the program does is a list of actions in order.
\<close>

subsection \<open>NewController\<close>

definition Program :: string where "Program = ''system-upgrade-controller''"
definition Version :: string where "Version = ''dev''"
definition GitCommit :: string where "GitCommit = ''HEAD''"

definition readyDuration :: duration where "readyDuration = Minute * 1"

definition ErrControllerNameRequired :: go_error where
  "ErrControllerNameRequired = NewError ''controller name is required''"
definition ErrControllerNamespaceRequired :: go_error where
  "ErrControllerNamespaceRequired = NewError ''controller namespace is required''"

text \<open>The options of a factory of controllers.\<close>

record factory_options =
  fo_Namespace :: string
  fo_Resync :: duration

text \<open>The constructors of the libraries.\<close>

record ('cfg, 'kcs, 'fac, 'app) constructors =
  os_Hostname :: "string result"
  rest_InClusterConfig :: "'cfg result"
  kubernetes_NewForConfig :: "'cfg \<Rightarrow> 'kcs result"
  corectl_NewFactory :: "'cfg \<Rightarrow> factory_options option \<Rightarrow> 'fac result"
  batchctl_NewFactory :: "'cfg \<Rightarrow> factory_options option \<Rightarrow> 'fac result"
  generic_NewFactory :: "'cfg \<Rightarrow> factory_options option \<Rightarrow> 'fac result"
  apply_NewForConfig :: "'cfg \<Rightarrow> 'app result"

text \<open>\<^verbatim>\<open>pkg/generated/controllers/upgrade.cattle.io/factory.go\<close>: the factory of plan controllers.\<close>

definition NewFactoryFromConfigWithOptions ::
    "('cfg, 'kcs, 'fac, 'app) constructors \<Rightarrow> 'cfg \<Rightarrow> factory_options option \<Rightarrow> 'fac result" where
  "NewFactoryFromConfigWithOptions K config opts = generic_NewFactory K config opts"

definition NewFactoryFromConfig :: "('cfg, 'kcs, 'fac, 'app) constructors \<Rightarrow> 'cfg \<Rightarrow> 'fac result" where
  "NewFactoryFromConfig K config = NewFactoryFromConfigWithOptions K config None"

definition NewFactoryFromConfigWithNamespace :: "('cfg, 'kcs, 'fac, 'app) constructors \<Rightarrow> 'cfg \<Rightarrow> string \<Rightarrow> 'fac result" where
  "NewFactoryFromConfigWithNamespace K config namespace =
     NewFactoryFromConfigWithOptions K config (Some \<lparr>fo_Namespace = namespace, fo_Resync = 0\<rparr>)"

text \<open>The variants that panic on an error; \<^const>\<open>None\<close> is the panic.\<close>

definition NewFactoryFromConfigOrDie :: "('cfg, 'kcs, 'fac, 'app) constructors \<Rightarrow> 'cfg \<Rightarrow> 'fac option" where
  "NewFactoryFromConfigOrDie K config = (case NewFactoryFromConfig K config of Inl err \<Rightarrow> None | Inr f \<Rightarrow> Some f)"

definition NewFactoryFromConfigWithOptionsOrDie ::
    "('cfg, 'kcs, 'fac, 'app) constructors \<Rightarrow> 'cfg \<Rightarrow> factory_options option \<Rightarrow> 'fac option" where
  "NewFactoryFromConfigWithOptionsOrDie K config opts =
     (case NewFactoryFromConfigWithOptions K config opts of Inl err \<Rightarrow> None | Inr f \<Rightarrow> Some f)"

record ('cfg, 'kcs, 'fac, 'app) Controller =
  ctl_Namespace :: string
  ctl_Name :: string
  ctl_NodeName :: string
  ctl_cfg :: 'cfg
  ctl_kcs :: 'kcs
  ctl_clusterID :: string
  ctl_leaderElect :: bool
  ctl_coreFactory :: 'fac
  ctl_batchFactory :: 'fac
  ctl_upgradeFactory :: 'fac
  ctl_apply :: 'app
  ctl_source :: "string \<times> string"

definition NewController ::
    "('cfg, 'kcs, 'fac, 'app) constructors \<Rightarrow> 'cfg option \<Rightarrow> string \<Rightarrow> string \<Rightarrow> string \<Rightarrow> bool \<Rightarrow> duration \<Rightarrow>
     ('cfg, 'kcs, 'fac, 'app) Controller result" where
  "NewController K cfgp namespace name nodeName0 leaderElect resync =
     (if namespace = [] then Inl ErrControllerNamespaceRequired
      else if name = [] then Inl ErrControllerNameRequired
      else attempt (if nodeName0 = [] then os_Hostname K else Inr nodeName0) (\<lambda>nodeName.
           attempt (case cfgp of None \<Rightarrow> rest_InClusterConfig K | Some cfg \<Rightarrow> Inr cfg) (\<lambda>cfg.
           let opts = Some \<lparr>fo_Namespace = namespace, fo_Resync = resync\<rparr>
           in attempt (kubernetes_NewForConfig K cfg) (\<lambda>kcs.
              attempt (corectl_NewFactory K cfg opts) (\<lambda>core.
              attempt (batchctl_NewFactory K cfg opts) (\<lambda>batch.
              attempt (NewFactoryFromConfigWithOptions K cfg opts) (\<lambda>upgrade.
              attempt (apply_NewForConfig K cfg) (\<lambda>app.
                Inr \<lparr>ctl_Namespace = namespace, ctl_Name = name, ctl_NodeName = nodeName, ctl_cfg = cfg, ctl_kcs = kcs,
                  ctl_clusterID = [], ctl_leaderElect = leaderElect, ctl_coreFactory = core, ctl_batchFactory = batch,
                  ctl_upgradeFactory = upgrade, ctl_apply = app, ctl_source = (name, nodeName)\<rparr>))))))))"

subsection \<open>Registration\<close>

record GeneratingHandlerOptions =
  AllowClusterScoped :: bool
  NoOwnerReference :: bool
  UniqueApplyForResourceVersion :: bool

text \<open>
  The handlers of plans that \<^verbatim>\<open>planStatusHandler.sync\<close> runs, with the condition it maintains, and the one that
  sees deletions.
\<close>

datatype plan_handler = StatusHandler | GeneratingHandler GeneratingHandlerOptions

datatype handler_kind = JobHandler | NodeHandler | SecretHandler | PlanSync string plan_handler | PlanRemove GeneratingHandlerOptions

datatype action =
    GetNamespace string
  | BatchCreateCRDs "string list" duration
  | Register handler_kind string
  | RunOrDie string string
  | StartAll int
  | Recorded (ev_node: string) (rec_type: string) (rec_reason: string) (rec_message: string)

type_synonym step = "action list \<times> go_error option"

text \<open>\<^verbatim>\<open>handleJobs\<close>, \<^verbatim>\<open>handleNodes\<close>, \<^verbatim>\<open>handlePlans\<close> and \<^verbatim>\<open>handleSecrets\<close> as far as they register their handlers.\<close>

definition handleJobs :: "('cfg, 'kcs, 'fac, 'app) Controller \<Rightarrow> step" where
  "handleJobs ctl = ([Register JobHandler (ctl_Name ctl)], None)"

definition handleNodes :: "('cfg, 'kcs, 'fac, 'app) Controller \<Rightarrow> step" where
  "handleNodes ctl = ([Register NodeHandler (ctl_Name ctl)], None)"

definition handleSecrets :: "('cfg, 'kcs, 'fac, 'app) Controller \<Rightarrow> step" where
  "handleSecrets ctl = ([Register SecretHandler (ctl_Name ctl)], None)"

definition RegisterPlanStatusHandler :: "string \<Rightarrow> string \<Rightarrow> plan_handler \<Rightarrow> action list" where
  "RegisterPlanStatusHandler condition name handler = [Register (PlanSync condition handler) name]"

definition RegisterPlanGeneratingHandler :: "string \<Rightarrow> string \<Rightarrow> GeneratingHandlerOptions option \<Rightarrow> action list" where
  "RegisterPlanGeneratingHandler condition name opts =
     (let o' = (case opts of
            None \<Rightarrow> \<lparr>AllowClusterScoped = False, NoOwnerReference = False, UniqueApplyForResourceVersion = False\<rparr>
          | Some given \<Rightarrow> given)
      in Register (PlanRemove o') name # RegisterPlanStatusHandler condition name (GeneratingHandler o'))"

definition generating_options :: GeneratingHandlerOptions where
  "generating_options = \<lparr>AllowClusterScoped = True, NoOwnerReference = True, UniqueApplyForResourceVersion = True\<rparr>"

definition handlePlans :: "('cfg, 'kcs, 'fac, 'app) Controller \<Rightarrow> step" where
  "handlePlans ctl =
     (RegisterPlanStatusHandler [] (ctl_Name ctl) StatusHandler @
      RegisterPlanGeneratingHandler [] (ctl_Name ctl) (Some generating_options), None)"

subsection \<open>Start\<close>

text \<open>What the cluster answers while the program starts.\<close>

record ('cfg, 'crd) start_world =
  sw_Namespaces_Get :: "string \<Rightarrow> string result"
  sw_fs :: "tree list"
  sw_decode :: "tree \<Rightarrow> 'crd CRD list result"
  sw_range :: "'crd crd_map \<Rightarrow> 'crd crd_map"
  sw_clientset :: "'cfg \<Rightarrow> go_error option"
  sw_BatchCreate :: "'crd CRD list \<Rightarrow> go_error option"
  sw_start_All :: "int \<Rightarrow> go_error option"
  sw_elected :: bool

definition registerCRD :: "('cfg, 'kcs, 'fac, 'app) Controller \<Rightarrow> ('cfg, 'crd) start_world \<Rightarrow> step option" where
  "registerCRD ctl w =
     map_option (\<lambda>r. case r of
         Inl err \<Rightarrow> ([], Some err)
       | Inr crds \<Rightarrow>
           (case sw_clientset w (ctl_cfg ctl) of
              Some err \<Rightarrow> ([], Some err)
            | None \<Rightarrow> ([BatchCreateCRDs (map crd_Name crds) readyDuration], sw_BatchCreate w crds)))
       (crds_List (sw_fs w) (sw_decode w) (sw_range w))"

text \<open>The calls of \<^verbatim>\<open>Start\<close> that return an error, up to the first one that does.\<close>

fun in_order :: "step list \<Rightarrow> step" where
  "in_order [] = ([], None)"
| "in_order ((acts, Some err) # steps) = (acts, Some err)"
| "in_order ((acts, None) # steps) = (let (more, err) = in_order steps in (acts @ more, err))"

definition appName :: string where
  "appName = Program @ '' '' @ Version @ '' ('' @ GitCommit @ '')''"

definition instance_name :: "('cfg, 'kcs, 'fac, 'app) Controller \<Rightarrow> string" where
  "instance_name ctl = ctl_Namespace ctl @ ''/'' @ ctl_Name ctl"

definition run :: "('cfg, 'kcs, 'fac, 'app) Controller \<Rightarrow> ('cfg, 'crd) start_world \<Rightarrow> int \<Rightarrow> action list \<times> outcome" where
  "run ctl w threads =
     (case sw_start_All w threads of
        Some err \<Rightarrow>
          ([StartAll threads, Recorded (ctl_NodeName ctl) EventTypeWarning ''StartFailed''
              (appName @ '' failed to start controllers for '' @ instance_name ctl @ '': '' @ error_msg err)], Panicked)
      | None \<Rightarrow>
          ([StartAll threads, Recorded (ctl_NodeName ctl) EventTypeNormal ''Started''
              (appName @ '' running as '' @ instance_name ctl)], Returned None))"

text \<open>
  \<^const>\<open>None\<close> is a walk of the embedded definitions that does not return. The leader election blocks: \<^verbatim>\<open>leader.RunOrDie\<close> returns only when
  the leadership or the context has ended, and an instance that is not elected waits in it. The model takes the call as
  returned, with what was done meanwhile: with \<open>sw_elected\<close> the function \<^verbatim>\<open>run\<close> was called, without it nothing was.
\<close>

definition Start ::
    "('cfg, 'kcs, 'fac, 'app) Controller \<Rightarrow> ('cfg, 'crd) start_world \<Rightarrow> int \<Rightarrow>
     (('cfg, 'kcs, 'fac, 'app) Controller \<times> action list \<times> outcome) option" where
  "Start ctl0 w threads =
     (case sw_Namespaces_Get w ''kube-system'' of
        Inl err \<Rightarrow> Some (ctl0, [GetNamespace ''kube-system''], Returned (Some err))
      | Inr UID \<Rightarrow>
          (let ctl = ctl0\<lparr>ctl_clusterID := UID\<rparr>
           in map_option (\<lambda>crds.
                let (acts, err) = in_order [crds, handleJobs ctl, handleNodes ctl, handlePlans ctl, handleSecrets ctl];
                    before = GetNamespace ''kube-system'' # acts
                in if err \<noteq> None then (ctl, before, Returned err)
                   else if ctl_leaderElect ctl then
                     (let starting = [Recorded (ctl_NodeName ctl) EventTypeNormal ''Starting''
                             (appName @ '' starting leader election for '' @ instance_name ctl),
                            RunOrDie (ctl_Namespace ctl) (ctl_Name ctl)];
                          (acts', r) = (if sw_elected w then run ctl w threads else ([], Returned None))
                      in (ctl, before @ starting @ acts', r))
                   else (let (acts', r) = run ctl w threads in (ctl, before @ acts', r)))
              (registerCRD ctl w)))"

subsection \<open>main\<close>

record options =
  opt_leaderElect :: bool
  opt_kubeConfig :: string
  opt_masterURL :: string
  opt_nodeName :: string
  opt_namespace :: string
  opt_name :: string
  opt_threads :: int

text \<open>How the command ends: \<^verbatim>\<open>logrus.Fatal\<close> with its message, a panic, or waiting for the context to be done.\<close>

datatype ended = Fatal string | Crashed | Waits

definition resync_period :: duration where "resync_period = 2 * (60 * Minute)"

definition Run ::
    "('cfg, 'kcs, 'fac, 'app) constructors \<Rightarrow> (string \<Rightarrow> string \<Rightarrow> 'cfg option result) \<Rightarrow> ('cfg, 'crd) start_world \<Rightarrow> options \<Rightarrow>
     (action list \<times> ended) option" where
  "Run K BuildConfigFromFlags w opts =
     (case BuildConfigFromFlags (opt_masterURL opts) (opt_kubeConfig opts) of
        Inl err \<Rightarrow> Some ([], Fatal (error_msg err))
      | Inr cfg \<Rightarrow>
          (case NewController K cfg (opt_namespace opts) (opt_name opts) (opt_nodeName opts) (opt_leaderElect opts) resync_period of
             Inl err \<Rightarrow> Some ([], Fatal (error_msg err))
           | Inr ctl \<Rightarrow>
               map_option (\<lambda>(ctl', acts, r). (acts,
                   case r of
                     Returned (Some err) \<Rightarrow> Fatal (''Error starting: '' @ error_msg err)
                   | Returned None \<Rightarrow> Waits
                   | Panicked \<Rightarrow> Crashed))
                 (Start ctl w (opt_threads opts))))"

subsection \<open>Reading actions\<close>

fun registered :: "action list \<Rightarrow> (handler_kind \<times> string) list" where
  "registered [] = []"
| "registered (Register k n # acts) = (k, n) # registered acts"
| "registered (_ # acts) = registered acts"

fun is_start :: "action \<Rightarrow> bool" where
  "is_start (StartAll t) = True"
| "is_start _ = False"

lemma registered_append [simp]: "registered (as @ bs) = registered as @ registered bs"
  by (induction as rule: registered.induct) auto

definition all_handlers :: "string \<Rightarrow> (handler_kind \<times> string) list" where
  "all_handlers name = map (\<lambda>k. (k, name))
     [JobHandler, NodeHandler, PlanSync [] StatusHandler, PlanRemove generating_options,
      PlanSync [] (GeneratingHandler generating_options), SecretHandler]"

text \<open>The registrations, as \<open>Start\<close> makes them.\<close>

definition registrations :: "string \<Rightarrow> action list" where
  "registrations name = map (\<lambda>(k, n). Register k n) (all_handlers name)"

lemma registrations_simps [simp]:
  "registered (registrations name) = all_handlers name" "filter is_start (registrations name) = []"
  "StartAll t \<notin> set (registrations name)"
  by (simp_all add: registrations_def all_handlers_def)

lemma registrations_no_start: "a \<in> set (registrations name) \<Longrightarrow> \<not> is_start a"
  by (auto simp: registrations_def)

lemma in_order_handlers:
  "in_order [(acts, err), handleJobs ctl, handleNodes ctl, handlePlans ctl, handleSecrets ctl] =
     (acts @ (if err = None then registrations (ctl_Name ctl) else []), err)"
  by (cases err) (simp_all add: handleJobs_def handleNodes_def handlePlans_def handleSecrets_def RegisterPlanStatusHandler_def
      RegisterPlanGeneratingHandler_def registrations_def all_handlers_def)

text \<open>The definitions the program ships, as far as they can be used: what \<open>registerCRD\<close> creates.\<close>

lemma registerCRD_cases:
  assumes "forest_ok (sw_fs w)" "same_elements (sw_range w)"
  obtains (failed) acts err where "registerCRD ctl w = Some (acts, Some err)" "registered acts = []" "filter is_start acts = []"
  | (created) crds where "registerCRD ctl w = Some ([BatchCreateCRDs (map crd_Name crds) readyDuration], None)"
      "loads_ok (sw_decode w) (sw_fs w) []" "mset crds = mset (forest_objs (sw_decode w) (sw_fs w))"
      "sw_clientset w (ctl_cfg ctl) = None" "sw_BatchCreate w crds = None"
proof -
  show ?thesis
  proof (cases rule: crds_List_cases [OF assms, of "sw_decode w"])
    case (1 err)
    then show ?thesis by (intro that(1) [of "[]" err]) (simp_all add: registerCRD_def)
  next
    case (2 crds)
    then show ?thesis
      using that by (cases "sw_clientset w (ctl_cfg ctl)"; cases "sw_BatchCreate w crds") (simp_all add: registerCRD_def)
  qed
qed

text \<open>What \<open>run\<close> does in all cases.\<close>

lemma run_facts:
  assumes "run ctl w threads = (acts, r)"
  shows "registered acts = []" "filter is_start acts = [StartAll threads]" "StartAll t \<in> set acts \<longleftrightarrow> t = threads"
    "r = Returned None \<longleftrightarrow> sw_start_All w threads = None" "r \<noteq> Returned (Some err)"
  using assms by (auto simp: run_def split: option.splits)

text \<open>\<open>Start\<close> either fails before anything is registered, or registers everything and then runs.\<close>

lemma Start_cases:
  assumes "forest_ok (sw_fs w)" "same_elements (sw_range w)"
  obtains (failed) ctl' acts err where "Start ctl w threads = Some (ctl', acts, Returned (Some err))"
      "registered acts = []" "filter is_start acts = []"
  | (running) UID crds election acts r where "sw_Namespaces_Get w ''kube-system'' = Inr UID"
      "loads_ok (sw_decode w) (sw_fs w) []" "mset crds = mset (forest_objs (sw_decode w) (sw_fs w))"
      "sw_clientset w (ctl_cfg ctl) = None" "sw_BatchCreate w crds = None"
      "Start ctl w threads = Some (ctl\<lparr>ctl_clusterID := UID\<rparr>, GetNamespace ''kube-system'' #
         BatchCreateCRDs (map crd_Name crds) Minute # registrations (ctl_Name ctl) @ election @ acts, r)"
      "registered election = []" "filter is_start election = []"
      "if ctl_leaderElect ctl \<and> \<not> sw_elected w then acts = [] \<and> r = Returned None
       else run (ctl\<lparr>ctl_clusterID := UID\<rparr>) w threads = (acts, r)"
proof (cases "sw_Namespaces_Get w ''kube-system''")
  case (Inl err)
  then show ?thesis by (intro failed [of ctl "[GetNamespace ''kube-system'']" err]) (simp_all add: Start_def)
next
  case (Inr UID)
  let ?ctl = "ctl\<lparr>ctl_clusterID := UID\<rparr>"
  from assms show ?thesis
  proof (cases rule: registerCRD_cases [of w ?ctl])
    case (failed acts err)
    then show ?thesis using Inr
      by (intro that(1) [of ?ctl "GetNamespace ''kube-system'' # acts" err]) (simp_all add: Start_def in_order_handlers Let_def)
  next
    case (created crds)
    show ?thesis
    proof (cases "ctl_leaderElect ctl")
      case True
      obtain acts r where a: "(if sw_elected w then run ?ctl w threads else ([], Returned None)) = (acts, r)" by fastforce
      show ?thesis
        using created a True Inr
        by (intro that(2) [of UID crds "[Recorded (ctl_NodeName ctl) EventTypeNormal ''Starting''
            (appName @ '' starting leader election for '' @ instance_name ?ctl), RunOrDie (ctl_Namespace ctl) (ctl_Name ctl)]" acts r])
          (auto simp: Start_def in_order_handlers Let_def readyDuration_def split: if_splits)
    next
      case False
      obtain acts r where "run ?ctl w threads = (acts, r)" by fastforce
      then show ?thesis
        using created False Inr
        by (intro that(2) [of UID crds "[]" acts r]) (auto simp: Start_def in_order_handlers Let_def readyDuration_def)
    qed
  qed
qed

text \<open>A controller that was made has the names it was given.\<close>

lemma NewController_Inr:
  assumes "NewController K cfgp namespace name nodeName leaderElect resync = Inr ctl"
  shows "namespace \<noteq> []" "name \<noteq> []" "ctl_Name ctl = name" "ctl_Namespace ctl = namespace"
    "ctl_leaderElect ctl = leaderElect" "nodeName \<noteq> [] \<Longrightarrow> ctl_NodeName ctl = nodeName"
  using assms by (auto simp: NewController_def attempt_Inr Let_def split: if_splits)

lemma waits_iff:
  "(case r of Returned x \<Rightarrow> (case x of None \<Rightarrow> Waits | Some err \<Rightarrow> Fatal (f err)) | Panicked \<Rightarrow> Crashed) = Waits \<longleftrightarrow> r = Returned None"
  by (cases r) (auto split: option.splits)

subsection \<open>A start for the witnesses\<close>

definition sample_constructors :: "(unit, unit, unit, unit) constructors" where
  "sample_constructors = \<lparr>os_Hostname = Inr ''host'', rest_InClusterConfig = Inr (), kubernetes_NewForConfig = Inr,
     corectl_NewFactory = (\<lambda>cfg opts. Inr ()), batchctl_NewFactory = (\<lambda>cfg opts. Inr ()), generic_NewFactory = (\<lambda>cfg opts. Inr ()),
     apply_NewForConfig = Inr\<rparr>"

definition sample_start_world :: "(unit, unit) start_world" where
  "sample_start_world = \<lparr>sw_Namespaces_Get = (\<lambda>n. Inr ''uid''), sw_fs = sample_fs, sw_decode = sample_decode, sw_range = id,
     sw_clientset = (\<lambda>cfg. None), sw_BatchCreate = (\<lambda>crds. None), sw_start_All = (\<lambda>n. None), sw_elected = True\<rparr>"

definition sample_options :: options where
  "sample_options = \<lparr>opt_leaderElect = True, opt_kubeConfig = [], opt_masterURL = [], opt_nodeName = [],
     opt_namespace = ''system-upgrade'', opt_name = ''suc'', opt_threads = 2\<rparr>"

lemma sample_start_world_simps [simp]:
  "sw_fs sample_start_world = sample_fs" "sw_decode sample_start_world = sample_decode" "sw_range sample_start_world = id"
  by (simp_all add: sample_start_world_def)

lemma sample_NewController: "NewController sample_constructors None ''system-upgrade'' ''suc'' [] True resync_period = Inr
  \<lparr>ctl_Namespace = ''system-upgrade'', ctl_Name = ''suc'', ctl_NodeName = ''host'', ctl_cfg = (), ctl_kcs = (), ctl_clusterID = [],
   ctl_leaderElect = True, ctl_coreFactory = (), ctl_batchFactory = (), ctl_upgradeFactory = (), ctl_apply = (), ctl_source = (''suc'', ''host'')\<rparr>"
  by (simp add: NewController_def attempt_def sample_constructors_def NewFactoryFromConfigWithOptions_def)

lemma sample_crds: "crds_List sample_fs sample_decode id =
    Some (Inr [\<lparr>crd_Kind = crdKind, crd_Name = ''plans.upgrade.cattle.io'', crd_body = ()\<rparr>])"
  unfolding crds_List_load [OF sample_fs_ok] by (simp add: sample_fs_def)

lemma sample_Run: "Run sample_constructors (\<lambda>u k. Inr None) sample_start_world sample_options =
    Some (GetNamespace ''kube-system'' # BatchCreateCRDs [''plans.upgrade.cattle.io''] Minute # registrations ''suc'' @
      [Recorded ''host'' EventTypeNormal ''Starting''
          (appName @ '' starting leader election for system-upgrade/suc''), RunOrDie ''system-upgrade'' ''suc'',
       StartAll 2, Recorded ''host'' EventTypeNormal ''Started'' (appName @ '' running as system-upgrade/suc'')], Waits)"
  by (simp add: Run_def sample_options_def sample_NewController Start_def registerCRD_def sample_crds in_order_handlers run_def
      instance_name_def sample_start_world_def readyDuration_def Let_def)

lemma sample_started:
  obtains ctl ctl' acts r where "NewController sample_constructors None ''system-upgrade'' ''suc'' [] True resync_period = Inr ctl"
    "Start ctl sample_start_world 2 = Some (ctl', acts, r)" "StartAll 2 \<in> set acts"
  using sample_Run by (auto simp: Run_def sample_options_def sample_NewController)

subsection \<open>Properties\<close>

text \<open>
  C18: the controllers are started at most once, with the number of threads asked for, and only after everything they need is
  there: the identity of the cluster is the UID of its system namespace, all the embedded
  definitions have been created, the six handlers have been registered in the name of the
  controller, and under leader election this instance was elected. \<^verbatim>\<open>Start\<close> always returns or panics, once the
  leader election, which blocks while it lasts, has returned.
\<close>

theorem start_complete_before_running:
  assumes "forest_ok (sw_fs w)" "same_elements (sw_range w)"
  shows "\<exists>ctl' acts r. Start ctl w threads = Some (ctl', acts, r) \<and>
     (StartAll t \<in> set acts \<longrightarrow> t = threads \<and> filter is_start acts = [StartAll threads] \<and>
        sw_Namespaces_Get w ''kube-system'' = Inr (ctl_clusterID ctl') \<and> loads_ok (sw_decode w) (sw_fs w) [] \<and>
        (\<exists>crds. mset crds = mset (forest_objs (sw_decode w) (sw_fs w)) \<and> sw_BatchCreate w crds = None \<and>
           (\<exists>rest. acts = GetNamespace ''kube-system'' # BatchCreateCRDs (map crd_Name crds) Minute # rest)) \<and>
        registered (takeWhile (\<lambda>a. \<not> is_start a) acts) = all_handlers (ctl_Name ctl) \<and>
        (ctl_leaderElect ctl \<longrightarrow> sw_elected w))"
proof (cases rule: Start_cases [OF assms, of ctl threads])
  case (1 ctl' acts err)
  have "StartAll t \<notin> set acts" using 1(3) by (force simp: filter_empty_conv)
  with 1(1) show ?thesis by blast
next
  case (2 UID crds election acts r)
  let ?pre = "GetNamespace ''kube-system'' # BatchCreateCRDs (map crd_Name crds) Minute # registrations (ctl_Name ctl) @ election"
  have pre: "\<forall>a\<in>set ?pre. \<not> is_start a" "registered ?pre = all_handlers (ctl_Name ctl)"
    using 2(7,8) by (auto simp: filter_empty_conv dest: registrations_no_start)
  show ?thesis
  proof (cases "ctl_leaderElect ctl \<and> \<not> sw_elected w")
    case True
    with 2(9) have "StartAll t \<notin> set (?pre @ acts)" using pre(1) by force
    with 2(6) show ?thesis by auto
  next
    case False
    with 2(9) have r: "run (ctl\<lparr>ctl_clusterID := UID\<rparr>) w threads = (acts, r)" by (simp split: if_splits)
    obtain more where acts: "acts = StartAll threads # more" using r by (auto simp: run_def split: option.splits)
    have tw: "takeWhile (\<lambda>a. \<not> is_start a) (?pre @ acts) = ?pre"
      using pre(1) by (subst takeWhile_append2) (auto simp: acts)
    have fl: "filter is_start (?pre @ acts) = [StartAll threads]"
      using pre(1) run_facts(2) [OF r] by (simp add: 2(8))
    have "t = threads" if "StartAll t \<in> set (?pre @ acts)"
    proof -
      have "StartAll t \<in> set (filter is_start (?pre @ acts))" using that by simp
      then show ?thesis unfolding fl by simp
    qed
    moreover have "registered (takeWhile (\<lambda>a. \<not> is_start a) (?pre @ acts)) = all_handlers (ctl_Name ctl)"
      unfolding tw by (rule pre(2))
    ultimately show ?thesis
      using 2(1-6) False fl by (intro exI [of _ "ctl\<lparr>ctl_clusterID := UID\<rparr>"] exI [of _ "?pre @ acts"] exI [of _ r]) auto
  qed
qed

theorem start_complete_before_running_witness:
  "\<exists>ctl ctl' acts r. NewController sample_constructors None ''system-upgrade'' ''suc'' [] True resync_period = Inr ctl \<and>
     Start ctl sample_start_world 2 = Some (ctl', acts, r) \<and> StartAll 2 \<in> set acts \<and> ctl_clusterID ctl' = ''uid''"
proof -
  obtain ctl ctl' acts r where c: "NewController sample_constructors None ''system-upgrade'' ''suc'' [] True resync_period = Inr ctl"
    "Start ctl sample_start_world 2 = Some (ctl', acts, r)" "StartAll 2 \<in> set acts"
    by (rule sample_started)
  have "forest_ok (sw_fs sample_start_world)" "same_elements (sw_range sample_start_world)"
    using sample_fs_ok same_elements_id by simp_all
  from start_complete_before_running [OF this, of ctl 2 2] c(2,3)
  have "sw_Namespaces_Get sample_start_world ''kube-system'' = Inr (ctl_clusterID ctl')" by simp
  with c show ?thesis by (auto simp: sample_start_world_def)
qed

text \<open>
  An error on the way stops the start where it occurs and is returned: when the system namespace cannot be read, the
  embedded definitions are not usable, or they cannot be created, then no handler is registered and
  no controller is started.
\<close>

lemma start_stops_on_error:
  assumes "forest_ok (sw_fs w)" "same_elements (sw_range w)"
    and "isl (sw_Namespaces_Get w ''kube-system'') \<or> \<not> loads_ok (sw_decode w) (sw_fs w) [] \<or>
       sw_clientset w (ctl_cfg ctl) \<noteq> None \<or> (\<forall>crds. sw_BatchCreate w crds \<noteq> None)"
  shows "\<exists>ctl' acts err. Start ctl w threads = Some (ctl', acts, Returned (Some err)) \<and>
     registered acts = [] \<and> filter is_start acts = []"
proof (cases rule: Start_cases [OF assms(1,2), of ctl threads])
  case 1
  then show ?thesis by blast
next
  case (2 UID crds election acts r)
  have False using assms(3) 2(1,2,4) spec [of "\<lambda>crds. sw_BatchCreate w crds \<noteq> None" crds] by (simp add: 2(5))
  then show ?thesis ..
qed

text \<open>
  The command keeps running only when it was given a name and a namespace and every handler has been registered; without
  leader election the controllers have then also been started. In all other cases it ends with a
  message or crashes.
\<close>

lemma run_waits_only_when_started:
  assumes "forest_ok (sw_fs w)" "same_elements (sw_range w)"
    and "Run K BuildConfigFromFlags w opts = Some (acts, Waits)"
  shows "opt_namespace opts \<noteq> [] \<and> opt_name opts \<noteq> [] \<and> registered acts = all_handlers (opt_name opts) \<and>
     (if opt_leaderElect opts \<and> \<not> sw_elected w then filter is_start acts = []
      else filter is_start acts = [StartAll (opt_threads opts)] \<and> sw_start_All w (opt_threads opts) = None)"
proof -
  obtain cfg ctl ctl' r where ctl: "NewController K cfg (opt_namespace opts) (opt_name opts) (opt_nodeName opts) (opt_leaderElect opts) resync_period = Inr ctl"
    and start: "Start ctl w (opt_threads opts) = Some (ctl', acts, Returned None)"
    using assms(3) by (auto simp: Run_def waits_iff split: sum.splits)
  note N = NewController_Inr [OF ctl]
  from assms(1,2) show ?thesis
  proof (cases rule: Start_cases [of w ctl "opt_threads opts"])
    case (running UID crds election acts' r)
    let ?ctl = "ctl\<lparr>ctl_clusterID := UID\<rparr>"
    have eq: "acts = GetNamespace ''kube-system'' # BatchCreateCRDs (map crd_Name crds) Minute # registrations (ctl_Name ctl) @ election @ acts'"
      "r = Returned None" using running(6) start by simp_all
    show ?thesis
    proof (cases "ctl_leaderElect ctl \<and> \<not> sw_elected w")
      case True
      with running(7-9) eq N show ?thesis by simp
    next
      case False
      with running(9) have "run ?ctl w (opt_threads opts) = (acts', Returned None)" by (simp add: eq(2) split: if_splits)
      note r = run_facts [OF this]
      from False N r running(7,8) show ?thesis by (auto simp: eq(1))
    qed
  qed (use start in simp)
qed

end
