(* ===== verification/CommandLine.thy ===== *)
theory CommandLine
  imports Startup
begin

text \<open>
  \<^verbatim>\<open>main.go\<close>: the variables of the command, its flags, and \<^verbatim>\<open>main\<close>. The library that parses the command line is a
  parameter, with what it documents as \<open>cli_ok\<close>.
\<close>

subsection \<open>Variables and flags\<close>

text \<open>The package's variables and their values; every one starts as the zero value of its type.\<close>

datatype variable = debug | leaderElect | kubeConfig | masterURL | nodeName | namespace | name | serviceAccountName | threads

datatype flag_value = FBool bool | FString string | FInt int

type_synonym variables = "variable \<Rightarrow> flag_value"

fun zero_variables :: variables where
  "zero_variables debug = FBool False"
| "zero_variables leaderElect = FBool False"
| "zero_variables threads = FInt 0"
| "zero_variables _ = FString []"

fun bool_of :: "flag_value \<Rightarrow> bool" where
  "bool_of (FBool b) = b"
| "bool_of _ = False"

fun string_of :: "flag_value \<Rightarrow> string" where
  "string_of (FString s) = s"
| "string_of _ = []"

fun int_of :: "flag_value \<Rightarrow> int" where
  "int_of (FInt i) = i"
| "int_of _ = 0"

text \<open>A flag; its type is that of its default \<open>fl_Value\<close>.\<close>

record cli_flag =
  fl_Name :: string
  fl_EnvVar :: string
  fl_Required :: bool
  fl_Hidden :: bool
  fl_Value :: flag_value
  fl_Destination :: variable

definition a_flag :: "string \<Rightarrow> string \<Rightarrow> flag_value \<Rightarrow> variable \<Rightarrow> cli_flag" where
  "a_flag nm env val dest =
     \<lparr>fl_Name = nm, fl_EnvVar = env, fl_Required = False, fl_Hidden = False, fl_Value = val, fl_Destination = dest\<rparr>"

definition main_flags :: "cli_flag list" where
  "main_flags =
     [a_flag ''debug'' ''SYSTEM_UPGRADE_CONTROLLER_DEBUG'' (FBool False) debug,
      a_flag ''leader-elect'' ''SYSTEM_UPGRADE_CONTROLLER_LEADER_ELECT'' (FBool False) leaderElect,
      a_flag ''kubeconfig'' ''SYSTEM_UPGRADE_CONTROLLER_KUBE_CONFIG'' (FString []) kubeConfig,
      a_flag ''master'' ''SYSTEM_UPGRADE_CONTROLLER_MASTER_URL'' (FString []) masterURL,
      (a_flag ''name'' ''SYSTEM_UPGRADE_CONTROLLER_NAME'' (FString []) name)\<lparr>fl_Required := True\<rparr>,
      a_flag ''node-name'' ''SYSTEM_UPGRADE_CONTROLLER_NODE_NAME'' (FString []) nodeName,
      (a_flag ''namespace'' ''SYSTEM_UPGRADE_CONTROLLER_NAMESPACE'' (FString []) namespace)\<lparr>fl_Required := True\<rparr>,
      (a_flag ''service-account'' [] (FString []) serviceAccountName)\<lparr>fl_Hidden := True\<rparr>,
      a_flag ''threads'' ''SYSTEM_UPGRADE_CONTROLLER_THREADS'' (FInt 2) threads]"

record cli_app =
  app_Name :: string
  app_Usage :: string
  app_Version :: string
  app_Flags :: "cli_flag list"

definition main_app :: cli_app where
  "main_app = \<lparr>app_Name = Program, app_Usage = ''in ur system controllin ur upgradez'',
     app_Version = Version @ '' ('' @ GitCommit @ '')'', app_Flags = main_flags\<rparr>"

subsection \<open>main\<close>

text \<open>
  \<^verbatim>\<open>app.Run\<close> refuses a command line, answers it by itself (help or version), or assigns the destinations and runs the action.
\<close>

datatype parsed = Refused go_error | Answered | Assigned "(variable \<times> flag_value) list"

type_synonym cli_library = "cli_app \<Rightarrow> string list \<Rightarrow> environ \<Rightarrow> parsed"

definition assign :: "variables \<Rightarrow> (variable \<times> flag_value) list \<Rightarrow> variables" where
  "assign vars as = fold (\<lambda>(x, v) f. f(x := v)) as vars"

text \<open>What \<^verbatim>\<open>Run\<close> reads of the variables, apart from the log level.\<close>

definition options_of :: "variables \<Rightarrow> options" where
  "options_of vars = \<lparr>opt_leaderElect = bool_of (vars leaderElect), opt_kubeConfig = string_of (vars kubeConfig),
     opt_masterURL = string_of (vars masterURL), opt_nodeName = string_of (vars nodeName), opt_namespace = string_of (vars namespace),
     opt_name = string_of (vars name), opt_threads = int_of (vars threads)\<rparr>"

datatype main_end = Quits | Ends ended

text \<open>The warnings, the actions, and how the command ends; \<^const>\<open>None\<close> is a start that does not return.\<close>

definition main ::
    "cli_library \<Rightarrow> ('cfg, 'kcs, 'fac, 'app) constructors \<Rightarrow> (string \<Rightarrow> string \<Rightarrow> 'cfg option result) \<Rightarrow> ('cfg, 'crd) start_world \<Rightarrow>
     string list \<Rightarrow> environ \<Rightarrow> (string list \<times> action list \<times> main_end) option" where
  "main app_Run K BuildConfigFromFlags w args env =
     (let warnings = (if zero_variables serviceAccountName \<noteq> FString [] then [''deprecated flag `service-account` is ignored''] else [])
      in case app_Run main_app args env of
           Refused err \<Rightarrow> Some (warnings, [], Ends (Fatal (error_msg err)))
         | Answered \<Rightarrow> Some (warnings, [], Quits)
         | Assigned as \<Rightarrow>
             map_option (\<lambda>(acts, e). (warnings, acts, Ends e))
               (Run K BuildConfigFromFlags w (options_of (assign zero_variables as))))"

subsection \<open>The library\<close>

text \<open>
  The value of a flag: from the arguments, else from its environment variable, else its default. How arguments and texts are
  read are parameters of the library: \<open>given\<close> finds a flag among the arguments, \<open>read_as\<close> reads a text as a value of the type of
  another.
\<close>

definition from_env :: "(flag_value \<Rightarrow> string \<Rightarrow> flag_value option) \<Rightarrow> environ \<Rightarrow> cli_flag \<Rightarrow> flag_value option" where
  "from_env read_as env fl =
     (if fl_EnvVar fl = [] then None else (case env (fl_EnvVar fl) of None \<Rightarrow> None | Some s \<Rightarrow> read_as (fl_Value fl) s))"

definition setting ::
    "(string list \<Rightarrow> cli_flag \<Rightarrow> flag_value option) \<Rightarrow> (flag_value \<Rightarrow> string \<Rightarrow> flag_value option) \<Rightarrow> string list \<Rightarrow> environ \<Rightarrow>
     cli_flag \<Rightarrow> flag_value option" where
  "setting given read_as args env fl = (case given args fl of Some v \<Rightarrow> Some v | None \<Rightarrow> from_env read_as env fl)"

definition cli_ok ::
    "cli_library \<Rightarrow> (string list \<Rightarrow> cli_flag \<Rightarrow> flag_value option) \<Rightarrow> (flag_value \<Rightarrow> string \<Rightarrow> flag_value option) \<Rightarrow> bool" where
  "cli_ok app_Run given read_as \<longleftrightarrow>
     (\<forall>app args env as. app_Run app args env = Assigned as \<longrightarrow>
        map fst as = map fl_Destination (app_Flags app) \<and>
        (\<forall>(fl, x, v)\<in>set (zip (app_Flags app) as). v = (case setting given read_as args env fl of Some v \<Rightarrow> v | None \<Rightarrow> fl_Value fl)) \<and>
        (\<forall>fl\<in>set (app_Flags app). fl_Required fl \<longrightarrow> setting given read_as args env fl \<noteq> None))"

text \<open>Looking a flag of the command up.\<close>

definition main_flag :: "variable \<Rightarrow> cli_flag" where
  "main_flag x = hd (filter (\<lambda>fl. fl_Destination fl = x) main_flags)"

lemma main_flag_simps [simp]:
  "main_flag namespace = (a_flag ''namespace'' ''SYSTEM_UPGRADE_CONTROLLER_NAMESPACE'' (FString []) namespace)\<lparr>fl_Required := True\<rparr>"
  "main_flag name = (a_flag ''name'' ''SYSTEM_UPGRADE_CONTROLLER_NAME'' (FString []) name)\<lparr>fl_Required := True\<rparr>"
  "main_flag threads = a_flag ''threads'' ''SYSTEM_UPGRADE_CONTROLLER_THREADS'' (FInt 2) threads"
  "main_flag leaderElect = a_flag ''leader-elect'' ''SYSTEM_UPGRADE_CONTROLLER_LEADER_ELECT'' (FBool False) leaderElect"
  by (simp_all add: main_flag_def main_flags_def a_flag_def)

definition value_of ::
    "(string list \<Rightarrow> cli_flag \<Rightarrow> flag_value option) \<Rightarrow> (flag_value \<Rightarrow> string \<Rightarrow> flag_value option) \<Rightarrow> string list \<Rightarrow> environ \<Rightarrow>
     cli_flag \<Rightarrow> flag_value" where
  "value_of given read_as args env fl = (case setting given read_as args env fl of Some v \<Rightarrow> v | None \<Rightarrow> fl_Value fl)"

lemma pairs_of:
  "map fst as = map d fs \<Longrightarrow> \<forall>(fl, x, v)\<in>set (zip fs as). v = g fl \<Longrightarrow> as = map (\<lambda>fl. (d fl, g fl)) fs"
  by (induction fs arbitrary: as) (auto simp: map_eq_Cons_conv)

lemma cli_assigned:
  assumes "cli_ok app_Run given read_as" "app_Run app args env = Assigned as"
  shows "as = map (\<lambda>fl. (fl_Destination fl, value_of given read_as args env fl)) (app_Flags app)"
    "fl \<in> set (app_Flags app) \<Longrightarrow> fl_Required fl \<Longrightarrow> setting given read_as args env fl \<noteq> None"
proof -
  have "map fst as = map fl_Destination (app_Flags app)"
    "\<forall>(fl, x, v)\<in>set (zip (app_Flags app) as). v = value_of given read_as args env fl"
    "\<forall>fl\<in>set (app_Flags app). fl_Required fl \<longrightarrow> setting given read_as args env fl \<noteq> None"
    using assms by (simp_all add: cli_ok_def value_of_def)
  then show "as = map (\<lambda>fl. (fl_Destination fl, value_of given read_as args env fl)) (app_Flags app)"
    "fl \<in> set (app_Flags app) \<Longrightarrow> fl_Required fl \<Longrightarrow> setting given read_as args env fl \<noteq> None"
    by (auto intro: pairs_of)
qed

text \<open>The options of the command, from its flags.\<close>

lemma main_options:
  assumes "cli_ok app_Run given read_as" "app_Run main_app args env = Assigned as"
  defines "opts \<equiv> options_of (assign zero_variables as)" and "val \<equiv> \<lambda>x. value_of given read_as args env (main_flag x)"
  shows "opt_namespace opts = string_of (val namespace)" "opt_name opts = string_of (val name)"
    "opt_leaderElect opts = bool_of (val leaderElect)" "opt_threads opts = int_of (val threads)"
    "setting given read_as args env (main_flag namespace) = Some (val namespace)"
    "setting given read_as args env (main_flag name) = Some (val name)"
proof -
  note a = cli_assigned [OF assms(1,2)]
  show "opt_namespace opts = string_of (val namespace)" "opt_name opts = string_of (val name)"
    "opt_leaderElect opts = bool_of (val leaderElect)" "opt_threads opts = int_of (val threads)"
    unfolding opts_def val_def a(1)
    by (simp_all add: options_of_def assign_def main_app_def main_flags_def a_flag_def)
  have "main_flag namespace \<in> set (app_Flags main_app)" "main_flag name \<in> set (app_Flags main_app)"
    by (simp_all add: main_app_def main_flags_def)
  from this [THEN a(2)] show "setting given read_as args env (main_flag namespace) = Some (val namespace)"
    "setting given read_as args env (main_flag name) = Some (val name)"
    by (simp_all add: val_def value_of_def a_flag_def) (auto simp: a_flag_def)
qed

lemma string_of_nonempty: "string_of v \<noteq> [] \<Longrightarrow> v = FString (string_of v)"
  by (cases v) simp_all

text \<open>
  The warning about the deprecated flag is decided before the flags are read: it is never given, whatever
  the command line. Nor does the flag have another effect.
\<close>

lemma service_account_warning_never:
  "main app_Run K BuildConfigFromFlags w args env = Some (warnings, acts, e) \<Longrightarrow> warnings = []"
  "options_of (vars(serviceAccountName := v)) = options_of vars"
  by (auto simp: main_def options_of_def split: parsed.splits)

subsection \<open>A command line for the witness\<close>

definition sample_given :: "string list \<Rightarrow> cli_flag \<Rightarrow> flag_value option" where
  "sample_given args fl = map_option FString (map_of (zip args (tl args)) (''--'' @ fl_Name fl))"

definition sample_read :: "flag_value \<Rightarrow> string \<Rightarrow> flag_value option" where
  "sample_read v s = (case v of FString _ \<Rightarrow> Some (FString s) | FBool _ \<Rightarrow> Some (FBool (s = ''true'')) | FInt _ \<Rightarrow> map_option FInt (ParseInt s 64))"

definition sample_cli :: cli_library where
  "sample_cli app args env =
     (if \<exists>fl\<in>set (app_Flags app). fl_Required fl \<and> setting sample_given sample_read args env fl = None
      then Refused (NewError ''Required flag not set'')
      else Assigned (map (\<lambda>fl. (fl_Destination fl, value_of sample_given sample_read args env fl)) (app_Flags app)))"

lemma sample_cli_ok: "cli_ok sample_cli sample_given sample_read"
  by (auto simp: cli_ok_def sample_cli_def value_of_def zip_map2 split: if_splits) (auto simp: zip_same)

definition sample_environment :: environ where
  "sample_environment = [''SYSTEM_UPGRADE_CONTROLLER_NAMESPACE'' \<mapsto> ''system-upgrade'', ''SYSTEM_UPGRADE_CONTROLLER_LEADER_ELECT'' \<mapsto> ''true'']"

lemma sample_main_options:
  obtains as where "sample_cli main_app [''controller'', ''--name'', ''suc''] sample_environment = Assigned as"
    "options_of (assign zero_variables as) = sample_options"
proof
  show "sample_cli main_app [''controller'', ''--name'', ''suc''] sample_environment = Assigned
    (map (\<lambda>fl. (fl_Destination fl, value_of sample_given sample_read [''controller'', ''--name'', ''suc''] sample_environment fl)) main_flags)"
    by (simp add: sample_cli_def main_app_def main_flags_def a_flag_def setting_def from_env_def sample_given_def sample_read_def sample_environment_def)
  show "options_of (assign zero_variables
    (map (\<lambda>fl. (fl_Destination fl, value_of sample_given sample_read [''controller'', ''--name'', ''suc''] sample_environment fl)) main_flags)) = sample_options"
    by (simp add: options_of_def assign_def main_flags_def a_flag_def value_of_def setting_def from_env_def sample_given_def sample_read_def
        sample_environment_def sample_options_def)
qed

subsection \<open>Properties\<close>

text \<open>
  C21: the command keeps running only when its arguments or its environment name the controller and its namespace, neither of
  them empty, and every handler has been registered under that name; unless it waits for its election the
  controllers have then been started, with as many threads as asked for, two by default. In all other
  cases it ends with a message, crashes, or has only answered a question about itself.
\<close>

theorem main_waits_only_when_started:
  assumes "cli_ok app_Run given read_as" "forest_ok (sw_fs w)" "same_elements (sw_range w)"
    and "main app_Run K BuildConfigFromFlags w args env = Some (warnings, acts, Ends Waits)"
  shows "\<exists>ns nm. setting given read_as args env (main_flag namespace) = Some (FString ns) \<and> ns \<noteq> [] \<and>
     setting given read_as args env (main_flag name) = Some (FString nm) \<and> nm \<noteq> [] \<and> registered acts = all_handlers nm \<and>
     (if (case setting given read_as args env (main_flag leaderElect) of None \<Rightarrow> False | Some v \<Rightarrow> bool_of v) \<and> \<not> sw_elected w
      then filter is_start acts = []
      else filter is_start acts = [StartAll (case setting given read_as args env (main_flag threads) of None \<Rightarrow> 2 | Some v \<Rightarrow> int_of v)])"
proof -
  let ?val = "\<lambda>x. value_of given read_as args env (main_flag x)"
  obtain as where as: "app_Run main_app args env = Assigned as"
    "Run K BuildConfigFromFlags w (options_of (assign zero_variables as)) = Some (acts, Waits)"
    using assms(4) by (auto simp: main_def Let_def split: parsed.splits if_splits)
  note opts = main_options [OF assms(1) as(1)]
  note R = run_waits_only_when_started [OF assms(2,3) as(2), unfolded opts(1-4)]
  have v: "int_of (?val threads) = (case setting given read_as args env (main_flag threads) of None \<Rightarrow> 2 | Some v \<Rightarrow> int_of v)"
    "bool_of (?val leaderElect) = (case setting given read_as args env (main_flag leaderElect) of None \<Rightarrow> False | Some v \<Rightarrow> bool_of v)"
    by (simp_all add: value_of_def a_flag_def split: option.split)
  have "?val namespace = FString (string_of (?val namespace))" "?val name = FString (string_of (?val name))"
    using R string_of_nonempty by blast+
  with R opts(5,6) show ?thesis unfolding v
    by (intro exI [of _ "string_of (?val namespace)"] exI [of _ "string_of (?val name)"]) (simp split: if_splits)
qed

theorem main_waits_only_when_started_witness:
  "\<exists>acts. main sample_cli sample_constructors (\<lambda>u k. Inr None) sample_start_world [''controller'', ''--name'', ''suc''] sample_environment =
       Some ([], acts, Ends Waits) \<and> registered acts = all_handlers ''suc'' \<and> filter is_start acts = [StartAll 2]"
proof -
  obtain as where as: "sample_cli main_app [''controller'', ''--name'', ''suc''] sample_environment = Assigned as"
    "options_of (assign zero_variables as) = sample_options" by (rule sample_main_options)
  obtain acts where m: "main sample_cli sample_constructors (\<lambda>u k. Inr None) sample_start_world [''controller'', ''--name'', ''suc''] sample_environment =
       Some ([], acts, Ends Waits)"
    using sample_Run by (simp add: main_def as)
  have "forest_ok (sw_fs sample_start_world)" "same_elements (sw_range sample_start_world)"
    using sample_fs_ok same_elements_id by simp_all
  from main_waits_only_when_started [OF sample_cli_ok this m] m show ?thesis
    by (simp add: setting_def from_env_def a_flag_def sample_given_def sample_read_def sample_environment_def sample_start_world_def)
qed

end
