(* ===== verification/Clients.thy ===== *)
theory Clients
  imports PlanTypes
begin

text \<open>
  The generated client set: \<^verbatim>\<open>pkg/generated/clientset/versioned\<close>, its typed client, the fake for tests, the registration of
  the types with a scheme (\<^verbatim>\<open>zz_generated_register.go\<close>, \<^verbatim>\<open>scheme/register.go\<close>) and the accessors of the controller group.
  The functions of \<^verbatim>\<open>client-go\<close> and \<^verbatim>\<open>apimachinery\<close> are parameters. Configurations are values: each
  constructor copies the configuration it is given before it changes it.
\<close>

subsection \<open>Names of the resource\<close>

record GroupVersion =
  gv_Group :: string
  gv_Version :: string

record GroupVersionKind = GroupVersion +
  gvk_Kind :: string

record GroupVersionResource = GroupVersion +
  gvr_Resource :: string

definition PlanResourceName :: string where "PlanResourceName = ''plans''"

definition SchemeGroupVersion :: GroupVersion where
  "SchemeGroupVersion = \<lparr>gv_Group = GroupName, gv_Version = ''v1''\<rparr>"

text \<open>The functions of \<^verbatim>\<open>runtime/schema\<close>, and what they are documented to do.\<close>

record schema_lib =
  sl_WithKind :: "GroupVersion \<Rightarrow> string \<Rightarrow> GroupVersionKind"
  sl_WithResource :: "GroupVersion \<Rightarrow> string \<Rightarrow> GroupVersionResource"
  sl_GroupKind :: "GroupVersionKind \<Rightarrow> string \<times> string"
  sl_GroupResource :: "GroupVersionResource \<Rightarrow> string \<times> string"
  sl_ToAPIVersionAndKind :: "GroupVersionKind \<Rightarrow> string \<times> string"

definition schema_ok :: "schema_lib \<Rightarrow> bool" where
  "schema_ok S \<longleftrightarrow>
     (\<forall>gv k. sl_WithKind S gv k = \<lparr>gv_Group = gv_Group gv, gv_Version = gv_Version gv, gvk_Kind = k\<rparr>) \<and>
     (\<forall>gv r. sl_WithResource S gv r = \<lparr>gv_Group = gv_Group gv, gv_Version = gv_Version gv, gvr_Resource = r\<rparr>) \<and>
     (\<forall>x. sl_GroupKind S x = (gv_Group x, gvk_Kind x)) \<and> (\<forall>x. sl_GroupResource S x = (gv_Group x, gvr_Resource x))"

definition Kind :: "schema_lib \<Rightarrow> string \<Rightarrow> string \<times> string" where
  "Kind S kind = sl_GroupKind S (sl_WithKind S SchemeGroupVersion kind)"

definition Resource :: "schema_lib \<Rightarrow> string \<Rightarrow> string \<times> string" where
  "Resource S resource = sl_GroupResource S (sl_WithResource S SchemeGroupVersion resource)"

text \<open>\<^verbatim>\<open>NewPlan\<close>: a plan of the given name, with its kind and API version filled in.\<close>

record typed_plan =
  tp_APIVersion :: string
  tp_Kind :: string
  tp_Plan :: Plan

definition NewPlan :: "schema_lib \<Rightarrow> string \<Rightarrow> string \<Rightarrow> typed_plan \<Rightarrow> typed_plan" where
  "NewPlan S namespace name obj =
     (let (apiVersion, kind) = sl_ToAPIVersionAndKind S (sl_WithKind S SchemeGroupVersion ''Plan'')
      in \<lparr>tp_APIVersion = apiVersion, tp_Kind = kind,
          tp_Plan = (tp_Plan obj)\<lparr>p_meta := (p_meta (tp_Plan obj))\<lparr>om_Name := name, om_Namespace := namespace\<rparr>\<rparr>\<rparr>)"

subsection \<open>Registration with a scheme\<close>

text \<open>
  The scheme of \<^verbatim>\<open>apimachinery\<close>: \<open>sc_AddKnownTypes\<close> registers Go types under their names, \<open>sc_AddToGroupVersion\<close> the types every
  group has, and \<open>sc_AddToScheme\<close> is the method of a \<^verbatim>\<open>SchemeBuilder\<close>.
\<close>

record 's scheme_lib =
  sc_AddKnownTypes :: "GroupVersion \<Rightarrow> string list \<Rightarrow> 's \<Rightarrow> 's"
  sc_AddToGroupVersion :: "GroupVersion \<Rightarrow> 's \<Rightarrow> 's"
  sc_AddToScheme :: "('s \<Rightarrow> 's result) list \<Rightarrow> 's \<Rightarrow> 's result"
  sc_Recognizes :: "'s \<Rightarrow> GroupVersionKind \<Rightarrow> bool"

definition scheme_ok :: "'s scheme_lib \<Rightarrow> bool" where
  "scheme_ok L \<longleftrightarrow>
     (\<forall>gv ts s k. sc_Recognizes L (sc_AddKnownTypes L gv ts s) k \<longleftrightarrow>
        sc_Recognizes L s k \<or> gv_Group k = gv_Group gv \<and> gv_Version k = gv_Version gv \<and> gvk_Kind k \<in> set ts) \<and>
     (\<forall>gv s k. sc_Recognizes L s k \<longrightarrow> sc_Recognizes L (sc_AddToGroupVersion L gv s) k) \<and>
     (\<forall>s. sc_AddToScheme L [] s = Inr s) \<and>
     (\<forall>f fs s. sc_AddToScheme L (f # fs) s = attempt (f s) (sc_AddToScheme L fs))"

definition addKnownTypes :: "'s scheme_lib \<Rightarrow> 's \<Rightarrow> 's result" where
  "addKnownTypes L scheme =
     Inr (sc_AddToGroupVersion L SchemeGroupVersion (sc_AddKnownTypes L SchemeGroupVersion [''Plan'', ''PlanList''] scheme))"

definition v1_AddToScheme :: "'s scheme_lib \<Rightarrow> 's \<Rightarrow> 's result" where
  "v1_AddToScheme L = sc_AddToScheme L [addKnownTypes L]"

text \<open>\<^verbatim>\<open>scheme/register.go\<close> and, on its own scheme, \<^verbatim>\<open>fake/register.go\<close>; \<^const>\<open>None\<close> is the panic of \<^verbatim>\<open>utilruntime.Must\<close>.\<close>

definition AddToScheme :: "'s scheme_lib \<Rightarrow> 's \<Rightarrow> 's result" where
  "AddToScheme L = sc_AddToScheme L [v1_AddToScheme L]"

definition register_init :: "'s scheme_lib \<Rightarrow> 's \<Rightarrow> 's option" where
  "register_init L Scheme =
     (case AddToScheme L (sc_AddToGroupVersion L \<lparr>gv_Group = [], gv_Version = ''v1''\<rparr> Scheme) of
        Inl err \<Rightarrow> None
      | Inr s \<Rightarrow> Some s)"

definition fake_register_init :: "'s scheme_lib \<Rightarrow> 's \<Rightarrow> 's option" where
  "fake_register_init L scheme =
     (case sc_AddToScheme L [v1_AddToScheme L] (sc_AddToGroupVersion L \<lparr>gv_Group = [], gv_Version = ''v1''\<rparr> scheme) of
        Inl err \<Rightarrow> None
      | Inr s \<Rightarrow> Some s)"

subsection \<open>The typed client\<close>

text \<open>The fields of a \<^verbatim>\<open>rest.Config\<close> that the code reads or writes, and the others together. A finite \<^verbatim>\<open>float32\<close> is a rational.\<close>

record ('lim, 'ser, 'o) rest_config =
  rc_UserAgent :: string
  rc_RateLimiter :: "'lim option"
  rc_QPS :: rat
  rc_Burst :: int
  rc_GroupVersion :: "GroupVersion option"
  rc_APIPath :: string
  rc_NegotiatedSerializer :: "'ser option"
  rc_others :: 'o

text \<open>A \<^verbatim>\<open>rest.Interface\<close>: nil, or a pointer to a client, which may itself be nil.\<close>

datatype 'r rest_interface = NilInterface | Holding "'r option"

text \<open>The functions of \<^verbatim>\<open>client-go\<close>.\<close>

record ('lim, 'ser, 'o, 'h, 'r, 'd) rest_lib =
  DefaultKubernetesUserAgent :: string
  HTTPClientFor :: "('lim, 'ser, 'o) rest_config \<Rightarrow> 'h result"
  RESTClientForConfigAndClient :: "('lim, 'ser, 'o) rest_config \<Rightarrow> 'h \<Rightarrow> 'r result"
  NewDiscoveryClientForConfigAndClient :: "('lim, 'ser, 'o) rest_config \<Rightarrow> 'h \<Rightarrow> 'd result"
  NewDiscoveryClient :: "'r rest_interface \<Rightarrow> 'd"
  NewTokenBucketRateLimiter :: "rat \<Rightarrow> int \<Rightarrow> 'lim"
  generated_codec :: 'ser

definition setConfigDefaults ::
    "('lim, 'ser, 'o, 'h, 'r, 'd) rest_lib \<Rightarrow> ('lim, 'ser, 'o) rest_config \<Rightarrow> ('lim, 'ser, 'o) rest_config" where
  "setConfigDefaults L config0 =
     (let config = config0\<lparr>rc_GroupVersion := Some SchemeGroupVersion, rc_APIPath := ''/apis'',
            rc_NegotiatedSerializer := Some (generated_codec L)\<rparr>
      in if rc_UserAgent config = [] then config\<lparr>rc_UserAgent := DefaultKubernetesUserAgent L\<rparr> else config)"

record 'r UpgradeV1Client =
  restClient :: "'r rest_interface"

definition UpgradeV1_NewForConfigAndClient ::
    "('lim, 'ser, 'o, 'h, 'r, 'd) rest_lib \<Rightarrow> ('lim, 'ser, 'o) rest_config \<Rightarrow> 'h \<Rightarrow> 'r UpgradeV1Client result" where
  "UpgradeV1_NewForConfigAndClient L c h =
     attempt (RESTClientForConfigAndClient L (setConfigDefaults L c) h) (\<lambda>client. Inr \<lparr>restClient = Holding (Some client)\<rparr>)"

definition UpgradeV1_NewForConfig ::
    "('lim, 'ser, 'o, 'h, 'r, 'd) rest_lib \<Rightarrow> ('lim, 'ser, 'o) rest_config \<Rightarrow> 'r UpgradeV1Client result" where
  "UpgradeV1_NewForConfig L c =
     (let config = setConfigDefaults L c
      in attempt (HTTPClientFor L config) (UpgradeV1_NewForConfigAndClient L config))"

text \<open>\<^const>\<open>None\<close> is the panic.\<close>

definition UpgradeV1_NewForConfigOrDie ::
    "('lim, 'ser, 'o, 'h, 'r, 'd) rest_lib \<Rightarrow> ('lim, 'ser, 'o) rest_config \<Rightarrow> 'r UpgradeV1Client option" where
  "UpgradeV1_NewForConfigOrDie L c = (case UpgradeV1_NewForConfig L c of Inl err \<Rightarrow> None | Inr client \<Rightarrow> Some client)"

definition UpgradeV1_New :: "'r rest_interface \<Rightarrow> 'r UpgradeV1Client" where
  "UpgradeV1_New c = \<lparr>restClient = c\<rparr>"

text \<open>The receiver may be nil.\<close>

definition RESTClient :: "'r UpgradeV1Client option \<Rightarrow> 'r rest_interface" where
  "RESTClient c = (case c of None \<Rightarrow> NilInterface | Some client \<Rightarrow> restClient client)"

text \<open>The client of the plans of a namespace, as far as it is built here: the library's client of a resource.\<close>

record 'r plans =
  pl_Resource :: string
  pl_RESTClient :: "'r rest_interface"
  pl_Namespace :: string

definition newPlans :: "'r UpgradeV1Client option \<Rightarrow> string \<Rightarrow> 'r plans" where
  "newPlans c namespace = \<lparr>pl_Resource = ''plans'', pl_RESTClient = RESTClient c, pl_Namespace = namespace\<rparr>"

definition Plans :: "'r UpgradeV1Client option \<Rightarrow> string \<Rightarrow> 'r plans" where
  "Plans c namespace = newPlans c namespace"

subsection \<open>The client set\<close>

record ('r, 'd) Clientset =
  cs_DiscoveryClient :: 'd
  cs_upgradeV1 :: "'r UpgradeV1Client"

definition UpgradeV1 :: "('r, 'd) Clientset \<Rightarrow> 'r UpgradeV1Client" where
  "UpgradeV1 c = cs_upgradeV1 c"

definition Discovery :: "('r, 'd) Clientset option \<Rightarrow> 'd option" where
  "Discovery c = (case c of None \<Rightarrow> None | Some cs \<Rightarrow> Some (cs_DiscoveryClient cs))"

definition ErrBurstRequired :: go_error where
  "ErrBurstRequired = NewError ''burst is required to be greater than 0 when RateLimiter is not set and QPS is set to greater than 0''"

definition Clientset_NewForConfigAndClient ::
    "('lim, 'ser, 'o, 'h, 'r, 'd) rest_lib \<Rightarrow> ('lim, 'ser, 'o) rest_config \<Rightarrow> 'h \<Rightarrow> ('r, 'd) Clientset result" where
  "Clientset_NewForConfigAndClient L c httpClient =
     attempt
       (if rc_RateLimiter c = None \<and> rc_QPS c > 0 then
          (if rc_Burst c \<le> 0 then Inl ErrBurstRequired
           else Inr (c\<lparr>rc_RateLimiter := Some (NewTokenBucketRateLimiter L (rc_QPS c) (rc_Burst c))\<rparr>))
        else Inr c)
       (\<lambda>configShallowCopy.
         attempt (UpgradeV1_NewForConfigAndClient L configShallowCopy httpClient) (\<lambda>upgradeV1.
         attempt (NewDiscoveryClientForConfigAndClient L configShallowCopy httpClient) (\<lambda>discovery.
           Inr \<lparr>cs_DiscoveryClient = discovery, cs_upgradeV1 = upgradeV1\<rparr>)))"

definition Clientset_NewForConfig ::
    "('lim, 'ser, 'o, 'h, 'r, 'd) rest_lib \<Rightarrow> ('lim, 'ser, 'o) rest_config \<Rightarrow> ('r, 'd) Clientset result" where
  "Clientset_NewForConfig L c =
     (let configShallowCopy = (if rc_UserAgent c = [] then c\<lparr>rc_UserAgent := DefaultKubernetesUserAgent L\<rparr> else c)
      in attempt (HTTPClientFor L configShallowCopy) (Clientset_NewForConfigAndClient L configShallowCopy))"

definition Clientset_NewForConfigOrDie ::
    "('lim, 'ser, 'o, 'h, 'r, 'd) rest_lib \<Rightarrow> ('lim, 'ser, 'o) rest_config \<Rightarrow> ('r, 'd) Clientset option" where
  "Clientset_NewForConfigOrDie L c = (case Clientset_NewForConfig L c of Inl err \<Rightarrow> None | Inr cs \<Rightarrow> Some cs)"

definition Clientset_New :: "('lim, 'ser, 'o, 'h, 'r, 'd) rest_lib \<Rightarrow> 'r rest_interface \<Rightarrow> ('r, 'd) Clientset" where
  "Clientset_New L c = \<lparr>cs_DiscoveryClient = NewDiscoveryClient L c, cs_upgradeV1 = UpgradeV1_New c\<rparr>"

subsection \<open>The fake client set\<close>

text \<open>
  \<^verbatim>\<open>k8s.io/client-go/testing\<close>: an object tracker, the actions a client records, and reactors. \<^verbatim>\<open>ObjectReaction\<close> is the
  library's reaction from a tracker.
\<close>

record ('t, 'obj, 'opts, 'w) testing_lib =
  NewObjectTracker :: 't
  tracker_Add :: "'t \<Rightarrow> 'obj \<Rightarrow> 't result"
  tracker_Watch :: "'t \<Rightarrow> GroupVersionResource \<Rightarrow> string \<Rightarrow> 'opts \<Rightarrow> 'w result"
  zero_ListOptions :: 'opts

record 'opts testing_action =
  act_Resource :: GroupVersionResource
  act_Namespace :: string
  act_WatchOptions :: "'opts option"

datatype reactor = ObjectReaction string string | WatchReaction string

record 't fake_Clientset =
  fake_reactors :: "reactor list"
  fake_tracker :: 't

fun add_objects :: "('t, 'obj, 'opts, 'w) testing_lib \<Rightarrow> 't \<Rightarrow> 'obj list \<Rightarrow> 't option" where
  "add_objects L o' [] = Some o'"
| "add_objects L o' (obj # objects) =
     (case tracker_Add L o' obj of Inl err \<Rightarrow> None | Inr o'' \<Rightarrow> add_objects L o'' objects)"

text \<open>\<^const>\<open>None\<close> is the panic for an object that cannot be added.\<close>

definition NewSimpleClientset :: "('t, 'obj, 'opts, 'w) testing_lib \<Rightarrow> 'obj list \<Rightarrow> 't fake_Clientset option" where
  "NewSimpleClientset L objects =
     map_option (\<lambda>o'. \<lparr>fake_reactors = [ObjectReaction ''*'' ''*'', WatchReaction ''*''], fake_tracker = o'\<rparr>)
       (add_objects L (NewObjectTracker L) objects)"

text \<open>The watch reactor: whether it handled the action, the watch, and the error.\<close>

definition watch_reaction ::
    "('t, 'obj, 'opts, 'w) testing_lib \<Rightarrow> 't \<Rightarrow> 'opts testing_action \<Rightarrow> bool \<times> 'w option \<times> go_error option" where
  "watch_reaction L o' action =
     (let opts = (case act_WatchOptions action of Some given \<Rightarrow> given | None \<Rightarrow> zero_ListOptions L)
      in case tracker_Watch L o' (act_Resource action) (act_Namespace action) opts of
           Inl err \<Rightarrow> (False, None, Some err)
         | Inr w \<Rightarrow> (True, Some w, None))"

text \<open>The discovery client of the fake is made on the fake itself, whose reactors it runs.\<close>

definition fake_Discovery :: "'t fake_Clientset \<Rightarrow> reactor list" where
  "fake_Discovery c = fake_reactors c"

definition fake_Tracker :: "'t fake_Clientset \<Rightarrow> 't" where
  "fake_Tracker c = fake_tracker c"

definition IsWatchListSemanticsUnSupported :: "'t fake_Clientset \<Rightarrow> bool" where
  "IsWatchListSemanticsUnSupported c = True"

text \<open>Its client of plans records actions on the set itself; the REST client it gives is a nil pointer in an interface that is not nil.\<close>

record 't fake_plans =
  fp_Fake :: "'t fake_Clientset"
  fp_Namespace :: string
  fp_Resource :: GroupVersionResource
  fp_Kind :: GroupVersionKind

definition fake_UpgradeV1 :: "'t fake_Clientset \<Rightarrow> 't fake_Clientset" where
  "fake_UpgradeV1 c = c"

definition newFakePlans :: "schema_lib \<Rightarrow> 't fake_Clientset \<Rightarrow> string \<Rightarrow> 't fake_plans" where
  "newFakePlans S fake namespace =
     \<lparr>fp_Fake = fake, fp_Namespace = namespace, fp_Resource = sl_WithResource S SchemeGroupVersion ''plans'',
      fp_Kind = sl_WithKind S SchemeGroupVersion ''Plan''\<rparr>"

definition fake_Plans :: "schema_lib \<Rightarrow> 't fake_Clientset \<Rightarrow> string \<Rightarrow> 't fake_plans" where
  "fake_Plans S c namespace = newFakePlans S c namespace"

definition fake_RESTClient :: "'t fake_Clientset \<Rightarrow> 'r rest_interface" where
  "fake_RESTClient c = Holding None"

subsection \<open>The controller group\<close>

text \<open>\<^verbatim>\<open>controllers/upgrade.cattle.io/interface.go\<close> and \<^verbatim>\<open>v1/interface.go\<close>: the way from a factory to the controller of plans.\<close>

record 'fac group =
  grp_controllerFactory :: 'fac

record 'fac version =
  ver_controllerFactory :: 'fac

record 'fac controller_args =
  ca_Kind :: GroupVersionKind
  ca_Resource :: string
  ca_Namespaced :: bool
  ca_Factory :: 'fac

definition group_New :: "'fac \<Rightarrow> 'fac group" where
  "group_New controllerFactory = \<lparr>grp_controllerFactory = controllerFactory\<rparr>"

definition version_New :: "'fac \<Rightarrow> 'fac version" where
  "version_New controllerFactory = \<lparr>ver_controllerFactory = controllerFactory\<rparr>"

definition group_V1 :: "'fac group \<Rightarrow> 'fac version" where
  "group_V1 g = version_New (grp_controllerFactory g)"

text \<open>What \<^verbatim>\<open>Plan\<close> gives to the library's constructor of controllers.\<close>

definition version_Plan :: "'fac version \<Rightarrow> 'fac controller_args" where
  "version_Plan v = \<lparr>ca_Kind = \<lparr>gv_Group = ''upgrade.cattle.io'', gv_Version = ''v1'', gvk_Kind = ''Plan''\<rparr>,
     ca_Resource = ''plans'', ca_Namespaced = True, ca_Factory = ver_controllerFactory v\<rparr>"

text \<open>The group of a factory, \<^verbatim>\<open>factory.go\<close>; with an agent the library makes another factory from it.\<close>

definition Upgrade :: "'fac \<Rightarrow> 'fac group" where
  "Upgrade controllerFactory = group_New controllerFactory"

definition WithAgent :: "(string \<Rightarrow> 'fac \<Rightarrow> 'fac) \<Rightarrow> 'fac \<Rightarrow> string \<Rightarrow> 'fac group" where
  "WithAgent NewSharedControllerFactoryWithAgent controllerFactory userAgent =
     group_New (NewSharedControllerFactoryWithAgent userAgent controllerFactory)"

subsection \<open>What generates the code\<close>

text \<open>The options that \<^verbatim>\<open>pkg/codegen\<close> runs the generator with, and the cleaning before it, which ends with the message of its error.\<close>

record codegen_group =
  cg_Types :: "string list"
  cg_GenerateTypes :: bool
  cg_GenerateClients :: bool

record codegen_options =
  co_Boilerplate :: string
  co_OutputPackage :: string
  co_Groups :: "(string \<times> codegen_group) list"

definition codegen_main :: codegen_options where
  "codegen_main = \<lparr>co_Boilerplate = ''hack/boilerplate.go.txt'',
     co_OutputPackage = ''github.com/rancher/system-upgrade-controller/pkg/generated'',
     co_Groups = [(''upgrade.cattle.io'', \<lparr>cg_Types = [''Plan''], cg_GenerateTypes = True, cg_GenerateClients = True\<rparr>)]\<rparr>"

definition cleanup_main :: "(string \<Rightarrow> go_error option) \<Rightarrow> string option" where
  "cleanup_main Cleanup = map_option error_msg (Cleanup ''./pkg/apis'')"

subsection \<open>What the constructors share\<close>

definition with_agent ::
    "('lim, 'ser, 'o, 'h, 'r, 'd) rest_lib \<Rightarrow> ('lim, 'ser, 'o) rest_config \<Rightarrow> ('lim, 'ser, 'o) rest_config" where
  "with_agent L c = (if rc_UserAgent c = [] then c\<lparr>rc_UserAgent := DefaultKubernetesUserAgent L\<rparr> else c)"

definition with_limiter ::
    "('lim, 'ser, 'o, 'h, 'r, 'd) rest_lib \<Rightarrow> ('lim, 'ser, 'o) rest_config \<Rightarrow> ('lim, 'ser, 'o) rest_config" where
  "with_limiter L c = (if rc_RateLimiter c = None \<and> 0 < rc_QPS c
     then c\<lparr>rc_RateLimiter := Some (NewTokenBucketRateLimiter L (rc_QPS c) (rc_Burst c))\<rparr> else c)"

definition for_group ::
    "('lim, 'ser, 'o, 'h, 'r, 'd) rest_lib \<Rightarrow> ('lim, 'ser, 'o) rest_config \<Rightarrow> ('lim, 'ser, 'o) rest_config" where
  "for_group L c = c\<lparr>rc_GroupVersion := Some SchemeGroupVersion, rc_APIPath := ''/apis'', rc_NegotiatedSerializer := Some (generated_codec L)\<rparr>"

lemma with_agent_simps [simp]:
  "rc_RateLimiter (with_agent L c) = rc_RateLimiter c" "rc_QPS (with_agent L c) = rc_QPS c" "rc_Burst (with_agent L c) = rc_Burst c"
  "with_agent L (with_agent L c) = with_agent L c"
  by (simp_all add: with_agent_def)

lemma setConfigDefaults_alt: "setConfigDefaults L c = for_group L (with_agent L c)"
  by (simp add: setConfigDefaults_def for_group_def with_agent_def Let_def)

lemma setConfigDefaults_idem: "setConfigDefaults L (setConfigDefaults L c) = setConfigDefaults L c"
  by (simp add: setConfigDefaults_alt for_group_def with_agent_def)

lemma setConfigDefaults_limiter: "setConfigDefaults L (with_limiter L (with_agent L c)) = for_group L (with_limiter L (with_agent L c))"
  by (cases c) (simp add: setConfigDefaults_alt with_agent_def with_limiter_def for_group_def)

lemma Clientset_NewForConfig_alt:
  "Clientset_NewForConfig L c = attempt (HTTPClientFor L (with_agent L c)) (Clientset_NewForConfigAndClient L (with_agent L c))"
  by (simp add: Clientset_NewForConfig_def with_agent_def Let_def)

lemma Clientset_NewForConfigAndClient_alt:
  "Clientset_NewForConfigAndClient L c h =
     (if rc_RateLimiter c = None \<and> 0 < rc_QPS c \<and> rc_Burst c \<le> 0 then Inl ErrBurstRequired
      else attempt (UpgradeV1_NewForConfigAndClient L (with_limiter L c) h) (\<lambda>u.
           attempt (NewDiscoveryClientForConfigAndClient L (with_limiter L c) h) (\<lambda>d.
             Inr \<lparr>cs_DiscoveryClient = d, cs_upgradeV1 = u\<rparr>)))"
  by (auto simp: Clientset_NewForConfigAndClient_def with_limiter_def attempt_def)

text \<open>
  The comments say that \<^verbatim>\<open>NewForConfig(c)\<close> is \<^verbatim>\<open>NewForConfigAndClient(c, h)\<close> with \<^verbatim>\<open>h\<close> from \<^verbatim>\<open>rest.HTTPClientFor(c)\<close>. That holds for a
  configuration with a user agent, and for the typed client if also the group makes no difference to the HTTP
  client; without a user agent the HTTP client is made from another configuration.
\<close>

lemma NewForConfig_equivalent:
  assumes "rc_UserAgent c \<noteq> []"
  shows "Clientset_NewForConfig L c = attempt (HTTPClientFor L c) (Clientset_NewForConfigAndClient L c)"
    and "HTTPClientFor L (for_group L c) = HTTPClientFor L c \<Longrightarrow>
       UpgradeV1_NewForConfig L c = attempt (HTTPClientFor L c) (UpgradeV1_NewForConfigAndClient L c)"
  using assms
  by (simp_all add: Clientset_NewForConfig_alt with_agent_def UpgradeV1_NewForConfig_def UpgradeV1_NewForConfigAndClient_def
      setConfigDefaults_idem [unfolded setConfigDefaults_alt] setConfigDefaults_alt for_group_def attempt_def split: sum.split)

lemma setConfigDefaults_agent: "DefaultKubernetesUserAgent L \<noteq> [] \<Longrightarrow> rc_UserAgent (setConfigDefaults L c) \<noteq> []"
  by (simp add: setConfigDefaults_def Let_def)

text \<open>The fake panics exactly when some object cannot be added after those before it.\<close>

lemma NewSimpleClientset_panics:
  "NewSimpleClientset L objects = None \<longleftrightarrow>
     (\<exists>before obj after o'. objects = before @ obj # after \<and> add_objects L (NewObjectTracker L) before = Some o' \<and> isl (tracker_Add L o' obj))"
proof -
  have "add_objects L o0 objects = None \<longleftrightarrow>
      (\<exists>before obj after o'. objects = before @ obj # after \<and> add_objects L o0 before = Some o' \<and> isl (tracker_Add L o' obj))" for o0
  proof (induction objects arbitrary: o0)
    case (Cons x xs)
    show ?case
    proof (cases "tracker_Add L o0 x")
      case (Inl err)
      then show ?thesis by (auto intro!: exI [of _ "[]"])
    next
      case (Inr o1)
      have "(\<exists>before obj after o'. x # xs = before @ obj # after \<and> add_objects L o0 before = Some o' \<and> isl (tracker_Add L o' obj)) \<longleftrightarrow>
          (\<exists>before obj after o'. xs = before @ obj # after \<and> add_objects L o1 before = Some o' \<and> isl (tracker_Add L o' obj))"
        (is "?l \<longleftrightarrow> ?r")
      proof
        assume ?l
        with Inr show ?r by (auto simp: Cons_eq_append_conv) blast
      next
        assume ?r
        then obtain before obj after o' where "x # xs = (x # before) @ obj # after" "add_objects L o0 (x # before) = Some o'"
          "isl (tracker_Add L o' obj)" using Inr by auto
        then show ?l by blast
      qed
      with Inr show ?thesis using Cons [of o1] by simp
    qed
  qed simp
  then show ?thesis by (simp add: NewSimpleClientset_def)
qed

subsection \<open>Properties\<close>

text \<open>
  When a client set can be made from a configuration, and what it then consists of: the one HTTP client and the one
  rate limiter, taken from the configuration or made from its limits, are shared by the client of plans and the discovery
  client; only the former gets the group's version, path and codec; positive queries per second without
  a limiter need a positive burst.
\<close>

lemma clientset_exact:
  "Clientset_NewForConfig L c = Inr cs \<longleftrightarrow>
     (\<exists>h r d shared. HTTPClientFor L (with_agent L c) = Inr h \<and> shared = with_limiter L (with_agent L c) \<and>
        (rc_RateLimiter c = None \<and> 0 < rc_QPS c \<longrightarrow> 0 < rc_Burst c) \<and>
        RESTClientForConfigAndClient L (for_group L shared) h = Inr r \<and>
        NewDiscoveryClientForConfigAndClient L shared h = Inr d \<and>
        UpgradeV1 cs = \<lparr>restClient = Holding (Some r)\<rparr> \<and> Discovery (Some cs) = Some d)"
  by (cases cs) (auto simp: Clientset_NewForConfig_alt Clientset_NewForConfigAndClient_alt attempt_Inr UpgradeV1_NewForConfigAndClient_def
      setConfigDefaults_limiter UpgradeV1_def Discovery_def)

text \<open>A library for the witnesses: the limiter is the pair of its limits, a client the configuration it was made from.\<close>

definition sample_rest ::
    "(rat \<times> int, unit, unit, string, (rat \<times> int) option \<times> string, (rat \<times> int) option \<times> string) rest_lib" where
  "sample_rest = \<lparr>DefaultKubernetesUserAgent = ''agent'', HTTPClientFor = (\<lambda>c. Inr (rc_UserAgent c)),
     RESTClientForConfigAndClient = (\<lambda>c h. Inr (rc_RateLimiter c, rc_APIPath c)),
     NewDiscoveryClientForConfigAndClient = (\<lambda>c h. Inr (rc_RateLimiter c, rc_APIPath c)),
     NewDiscoveryClient = (\<lambda>r. (None, [])), NewTokenBucketRateLimiter = Pair, generated_codec = ()\<rparr>"

definition sample_config :: "rat \<Rightarrow> int \<Rightarrow> (rat \<times> int, unit, unit) rest_config" where
  "sample_config qps burst = \<lparr>rc_UserAgent = [], rc_RateLimiter = None, rc_QPS = qps, rc_Burst = burst, rc_GroupVersion = None,
     rc_APIPath = [], rc_NegotiatedSerializer = None, rc_others = ()\<rparr>"

text \<open>
  The default of the user agent makes the HTTP client differ from the one of the comments.
\<close>

lemma NewForConfig_not_equivalent:
  "HTTPClientFor sample_rest (sample_config 0 0) = Inr [] \<and> HTTPClientFor sample_rest (with_agent sample_rest (sample_config 0 0)) = Inr ''agent''"
  by (simp add: sample_rest_def sample_config_def with_agent_def)

text \<open>
  The generated parts agree on what a plan is: after its registration, which never panics, the scheme recognizes plans and
  lists of plans; the controller of plans and the fake client are for that kind, and the controller, the
  client and the fake client, which are made in different files, for the same resource; and it is that kind of that
  group the generator is run for.
\<close>

lemma generated_parts_agree:
  assumes "schema_ok S" "scheme_ok L"
  shows "(\<exists>s'. register_init L s = Some s' \<and> fake_register_init L s = Some s' \<and> sc_Recognizes L s' (ca_Kind (version_Plan (group_V1 (Upgrade f)))) \<and>
       sc_Recognizes L s' (sl_WithKind S SchemeGroupVersion ''PlanList'')) \<and>
     ca_Kind (version_Plan (group_V1 (Upgrade f))) = sl_WithKind S SchemeGroupVersion ''Plan'' \<and>
     fp_Kind (fake_Plans S fake ns) = ca_Kind (version_Plan (group_V1 (Upgrade f))) \<and>
     fp_Resource (fake_Plans S fake ns) = sl_WithResource S SchemeGroupVersion (pl_Resource (Plans c ns)) \<and>
     pl_Resource (Plans c ns) = PlanResourceName \<and> ca_Resource (version_Plan (group_V1 (Upgrade f))) = PlanResourceName \<and>
     Resource S PlanResourceName = (gv_Group (ca_Kind (version_Plan (group_V1 (Upgrade f)))), PlanResourceName) \<and>
     map (\<lambda>(g, grp). (g, cg_Types grp)) (co_Groups codegen_main) =
       [(gv_Group SchemeGroupVersion, [gvk_Kind (ca_Kind (version_Plan (group_V1 (Upgrade f))))])]"
  using assms
  by (simp add: register_init_def fake_register_init_def AddToScheme_def v1_AddToScheme_def addKnownTypes_def attempt_def scheme_ok_def
      schema_ok_def version_Plan_def group_V1_def fake_Plans_def newFakePlans_def Plans_def newPlans_def PlanResourceName_def
      SchemeGroupVersion_def GroupName_def Resource_def codegen_main_def)

definition sample_schema :: schema_lib where
  "sample_schema = \<lparr>sl_WithKind = (\<lambda>gv k. \<lparr>gv_Group = gv_Group gv, gv_Version = gv_Version gv, gvk_Kind = k\<rparr>),
     sl_WithResource = (\<lambda>gv r. \<lparr>gv_Group = gv_Group gv, gv_Version = gv_Version gv, gvr_Resource = r\<rparr>),
     sl_GroupKind = (\<lambda>x. (gv_Group x, gvk_Kind x)), sl_GroupResource = (\<lambda>x. (gv_Group x, gvr_Resource x)),
     sl_ToAPIVersionAndKind = (\<lambda>x. (gv_Group x @ ''/'' @ gv_Version x, gvk_Kind x))\<rparr>"

fun run_builder :: "('s \<Rightarrow> 's result) list \<Rightarrow> 's \<Rightarrow> 's result" where
  "run_builder [] s = Inr s"
| "run_builder (f # fs) s = attempt (f s) (run_builder fs)"

definition sample_scheme :: "GroupVersionKind list scheme_lib" where
  "sample_scheme = \<lparr>sc_AddKnownTypes = (\<lambda>gv ts s. map (\<lambda>t. \<lparr>gv_Group = gv_Group gv, gv_Version = gv_Version gv, gvk_Kind = t\<rparr>) ts @ s),
     sc_AddToGroupVersion = (\<lambda>gv s. \<lparr>gv_Group = gv_Group gv, gv_Version = gv_Version gv, gvk_Kind = ''WatchEvent''\<rparr> # s),
     sc_AddToScheme = run_builder, sc_Recognizes = (\<lambda>s k. k \<in> set s)\<rparr>"

lemma sample_schemes_ok: "schema_ok sample_schema" "scheme_ok sample_scheme"
  by (auto simp: schema_ok_def sample_schema_def scheme_ok_def sample_scheme_def intro!: image_eqI [OF GroupVersionKind.equality])

end
