(* ===== verification/EndToEnd.thy ===== *)
theory EndToEnd
  imports CommandLine Clients PlanController JobLifecycle
begin

text \<open>
  \<^verbatim>\<open>e2e/framework\<close>: what the end-to-end tests run the controller in, and what they wait for. The Kubernetes test framework, its
  clients and polling are parameters. The interest is in how it fits the rest: whether the deployment configures the
  command, and whether the waiting waits for what it says.
\<close>

subsection \<open>The deployment of the controller\<close>

record pod_security =
  AllowPrivilegeEscalation :: "bool option"
  RunAsNonRoot :: "bool option"
  SeccompProfile :: "string option"
  DropCapabilities :: "string list"
  RunAsUser :: "int option"
  RunAsGroup :: "int option"

record controller_container =
  cc_Name :: string
  cc_Image :: string
  cc_SecurityContext :: "pod_security option"
  cc_Env :: "EnvVar list"
  cc_VolumeMounts :: "VolumeMount list"

text \<open>The volumes are empty directories, given by their names.\<close>

record Deployment =
  dep_Name :: string
  dep_Replicas :: int
  dep_Labels :: "string \<rightharpoonup> string"
  dep_Strategy :: string
  dep_Containers :: "controller_container list"
  dep_EmptyDirs :: "string list"
  dep_Tolerations :: "Toleration list"
  dep_ServiceAccountName :: string

text \<open>An option changes the deployment; \<^const>\<open>None\<close> is a panic.\<close>

type_synonym DeploymentOption = "Deployment \<Rightarrow> Deployment option"

definition controller_security :: pod_security where
  "controller_security = \<lparr>AllowPrivilegeEscalation = Some False, RunAsNonRoot = Some True, SeccompProfile = Some ''RuntimeDefault'',
     DropCapabilities = [''ALL''], RunAsUser = Some 65534, RunAsGroup = Some 65534\<rparr>"

definition controller_env :: "string \<Rightarrow> EnvVar list" where
  "controller_env nm =
     [\<lparr>ev_Name = ''SYSTEM_UPGRADE_CONTROLLER_NAME'', ev_Value = nm, ev_ValueFrom = None\<rparr>,
      \<lparr>ev_Name = ''SYSTEM_UPGRADE_CONTROLLER_LEADER_ELECT'', ev_Value = ''true'', ev_ValueFrom = None\<rparr>,
      \<lparr>ev_Name = ''SYSTEM_UPGRADE_CONTROLLER_DEBUG'', ev_Value = ''true'', ev_ValueFrom = None\<rparr>,
      \<lparr>ev_Name = ''SYSTEM_UPGRADE_CONTROLLER_NAMESPACE'', ev_Value = [], ev_ValueFrom = Some (FieldRef ''metadata.namespace'' [])\<rparr>,
      \<lparr>ev_Name = ''SYSTEM_UPGRADE_CONTROLLER_NODE_NAME'', ev_Value = [], ev_ValueFrom = Some (FieldRef ''spec.nodeName'' [])\<rparr>]"

definition controller_labels :: "string \<Rightarrow> string \<rightharpoonup> string" where
  "controller_labels nm = [LabelController \<mapsto> nm, ''app.kubernetes.io/name'' \<mapsto> nm, ''app.kubernetes.io/component'' \<mapsto> ''controller'']"

text \<open>\<open>e2e_NewDeployment\<close> is the function of that name of the Kubernetes test framework.\<close>

type_synonym new_deployment = "string \<Rightarrow> int \<Rightarrow> (string \<rightharpoonup> string) \<Rightarrow> string \<Rightarrow> string \<Rightarrow> string \<Rightarrow> Deployment"

fun apply_options :: "DeploymentOption list \<Rightarrow> Deployment \<Rightarrow> Deployment option" where
  "apply_options [] d = Some d"
| "apply_options (fn # opt) d = (case fn d of None \<Rightarrow> None | Some d' \<Rightarrow> apply_options opt d')"

definition NewDeployment :: "new_deployment \<Rightarrow> string \<Rightarrow> DeploymentOption list \<Rightarrow> Deployment option" where
  "NewDeployment e2e_NewDeployment nm opt =
     (let deployment = e2e_NewDeployment nm 1 (controller_labels nm) ''system-upgrade-controller''
            ''rancher/system-upgrade-controller:latest'' ''Recreate''
      in apply_options opt (deployment\<lparr>dep_EmptyDirs := [''tmp''],
           dep_Containers := map (\<lambda>container. container\<lparr>cc_SecurityContext := Some controller_security,
               cc_Env := controller_env nm,
               cc_VolumeMounts := [\<lparr>vm_Name = ''tmp'', vm_MountPath = ''/tmp'', vm_ReadOnly = False\<rparr>]\<rparr>)
             (dep_Containers deployment)\<rparr>))"

definition DeploymentWithTolerations :: "Toleration list \<Rightarrow> DeploymentOption" where
  "DeploymentWithTolerations toleration deployment = Some (deployment\<lparr>dep_Tolerations := dep_Tolerations deployment @ toleration\<rparr>)"

definition DeploymentDefaultTolerations :: DeploymentOption where
  "DeploymentDefaultTolerations = DeploymentWithTolerations []"

definition DeploymentWithServiceAccountName :: "string \<Rightarrow> DeploymentOption" where
  "DeploymentWithServiceAccountName serviceAccount deployment = Some (deployment\<lparr>dep_ServiceAccountName := serviceAccount\<rparr>)"

definition DeploymentImage :: "string \<Rightarrow> DeploymentOption" where
  "DeploymentImage img deployment =
     (case dep_Containers deployment of
        [] \<Rightarrow> None
      | c # cs \<Rightarrow> Some (deployment\<lparr>dep_Containers := c\<lparr>cc_Image := img\<rparr> # cs\<rparr>))"

definition DeploymentDefaultImage :: "environ \<Rightarrow> DeploymentOption" where
  "DeploymentDefaultImage env =
     (case env ''SYSTEM_UPGRADE_CONTROLLER_IMAGE'' of
        Some img \<Rightarrow> DeploymentImage img
      | None \<Rightarrow> DeploymentImage ''rancher/system-upgrade-controller:latest'')"

text \<open>
  \<^verbatim>\<open>CreateDeployment\<close>: the deployment's name is quoted as \<^verbatim>\<open>%q\<close> does with a name the API server admits; \<open>wait_complete\<close> waits.
\<close>

definition CreateDeployment ::
    "(string \<Rightarrow> Deployment \<Rightarrow> Deployment result) \<Rightarrow> (Deployment \<Rightarrow> go_error option) \<Rightarrow> string \<Rightarrow> Deployment \<Rightarrow> Deployment result" where
  "CreateDeployment create wait_complete ns deploymentObj =
     (case create ns deploymentObj of
        Inl err \<Rightarrow> Inl (NewError (''deployment \"'' @ dep_Name deploymentObj @ ''\" Create API error: '' @ error_msg err))
      | Inr deploymentRes \<Rightarrow>
          (case wait_complete deploymentRes of
             Some err \<Rightarrow> Inl (NewError (''deployment \"'' @ dep_Name deploymentObj @ ''\" failed to complete: '' @ error_msg err))
           | None \<Rightarrow> Inr deploymentRes))"

subsection \<open>Plans and secrets of the test's namespace\<close>

definition HasSuffix :: "string \<Rightarrow> string \<Rightarrow> bool" where
  "HasSuffix s suf \<longleftrightarrow> length suf \<le> length s \<and> drop (length s - length suf) s = suf"

text \<open>A plan that is to be created, with the field \<^verbatim>\<open>GenerateName\<close> of its metadata.\<close>

record new_plan =
  np_GenerateName :: string
  np_Plan :: typed_plan

definition e2e_NewPlan :: "schema_lib \<Rightarrow> string \<Rightarrow> string \<Rightarrow> string list \<Rightarrow> string list \<Rightarrow> new_plan" where
  "e2e_NewPlan S nm img command args =
     (let plan = NewPlan S [] [] \<lparr>tp_APIVersion = [], tp_Kind = [],
            tp_Plan = empty_plan\<lparr>p_Spec := (p_Spec empty_plan)\<lparr>sp_Upgrade :=
              Some \<lparr>cs_Image = img, cs_Command = command, cs_Args = args, cs_Env = [], cs_EnvFrom = [], cs_Volumes = [],
                cs_SecurityContext = None\<rparr>\<rparr>\<rparr>\<rparr>
      in if HasSuffix nm ''-'' then \<lparr>np_GenerateName = nm, np_Plan = plan\<rparr>
         else \<lparr>np_GenerateName = [],
           np_Plan = plan\<lparr>tp_Plan := (tp_Plan plan)\<lparr>p_meta := (p_meta (tp_Plan plan))\<lparr>om_Name := nm\<rparr>\<rparr>\<rparr>\<rparr>)"

text \<open>The clients of plans and secrets, by namespace; \<open>'o\<close> are the options of a call.\<close>

record ('o, 'l, 'w) plan_client =
  pc_Create :: "string \<Rightarrow> new_plan \<Rightarrow> Plan result"
  pc_Update :: "string \<Rightarrow> Plan \<Rightarrow> Plan result"
  pc_UpdateStatus :: "string \<Rightarrow> Plan \<Rightarrow> Plan result"
  pc_Get :: "string \<Rightarrow> string \<Rightarrow> 'o \<Rightarrow> Plan result"
  pc_List :: "string \<Rightarrow> 'o \<Rightarrow> 'l result"
  pc_Watch :: "string \<Rightarrow> 'o \<Rightarrow> 'w result"
  pc_Delete :: "string \<Rightarrow> string \<Rightarrow> 'o \<Rightarrow> go_error option"
  pc_DeleteCollection :: "string \<Rightarrow> 'o \<Rightarrow> 'o \<Rightarrow> go_error option"
  sc_Create :: "string \<Rightarrow> Secret \<Rightarrow> Secret result"
  sc_Update :: "string \<Rightarrow> Secret \<Rightarrow> Secret result"

text \<open>The test's client: the clients it uses and the name of its namespace.\<close>

record ('o, 'l, 'w) Client =
  cl_api :: "('o, 'l, 'w) plan_client"
  cl_Namespace :: string

definition CreatePlan :: "('o, 'l, 'w) Client \<Rightarrow> new_plan \<Rightarrow> Plan result" where
  "CreatePlan c plan = pc_Create (cl_api c) (cl_Namespace c) plan"

definition UpdatePlan :: "('o, 'l, 'w) Client \<Rightarrow> Plan \<Rightarrow> Plan result" where
  "UpdatePlan c plan = pc_Update (cl_api c) (cl_Namespace c) plan"

definition UpdatePlanStatus :: "('o, 'l, 'w) Client \<Rightarrow> Plan \<Rightarrow> Plan result" where
  "UpdatePlanStatus c plan = pc_UpdateStatus (cl_api c) (cl_Namespace c) plan"

definition GetPlan :: "('o, 'l, 'w) Client \<Rightarrow> string \<Rightarrow> 'o \<Rightarrow> Plan result" where
  "GetPlan c nm options = pc_Get (cl_api c) (cl_Namespace c) nm options"

definition ListPlans :: "('o, 'l, 'w) Client \<Rightarrow> 'o \<Rightarrow> 'l result" where
  "ListPlans c options = pc_List (cl_api c) (cl_Namespace c) options"

definition WatchPlans :: "('o, 'l, 'w) Client \<Rightarrow> 'o \<Rightarrow> 'w result" where
  "WatchPlans c options = pc_Watch (cl_api c) (cl_Namespace c) options"

definition DeletePlan :: "('o, 'l, 'w) Client \<Rightarrow> string \<Rightarrow> 'o \<Rightarrow> go_error option" where
  "DeletePlan c nm options = pc_Delete (cl_api c) (cl_Namespace c) nm options"

definition DeletePlans :: "('o, 'l, 'w) Client \<Rightarrow> 'o \<Rightarrow> 'o \<Rightarrow> go_error option" where
  "DeletePlans c options listOpts = pc_DeleteCollection (cl_api c) (cl_Namespace c) options listOpts"

definition CreateSecret :: "('o, 'l, 'w) Client \<Rightarrow> Secret \<Rightarrow> Secret result" where
  "CreateSecret c secret = sc_Create (cl_api c) (cl_Namespace c) secret"

definition UpdateSecret :: "('o, 'l, 'w) Client \<Rightarrow> Secret \<Rightarrow> Secret result" where
  "UpdateSecret c secret = sc_Update (cl_api c) (cl_Namespace c) secret"

subsection \<open>Waiting\<close>

text \<open>
  \<^verbatim>\<open>wait.Poll\<close> runs a function again and again until it says that it is done, it fails, or time is up. Its documented
  behaviour is that of some number of \<open>attempts\<close>, which see the world at different times and share the variables of their
  caller.
\<close>

definition ErrWaitTimeout :: go_error where
  "ErrWaitTimeout = NewError ''timed out waiting for the condition''"

type_synonym 's poll = "(nat \<Rightarrow> 's \<Rightarrow> 's \<times> bool result) \<Rightarrow> 's \<Rightarrow> 's \<times> go_error option"

fun attempts :: "(nat \<Rightarrow> 's \<Rightarrow> 's \<times> bool result) \<Rightarrow> nat \<Rightarrow> nat \<Rightarrow> 's \<Rightarrow> 's \<times> go_error option" where
  "attempts f i 0 s = (s, Some ErrWaitTimeout)"
| "attempts f i (Suc n) s =
     (case f i s of
        (s', Inl err) \<Rightarrow> (s', Some err)
      | (s', Inr True) \<Rightarrow> (s', None)
      | (s', Inr False) \<Rightarrow> attempts f (Suc i) n s')"

definition poll_ok :: "nat \<Rightarrow> 's poll \<Rightarrow> bool" where
  "poll_ok n Poll \<longleftrightarrow> (\<forall>f s. Poll f s = attempts f 0 n s)"

text \<open>
  The two functions return a variable that the polled function assigns; as compiled, it is read after the polling.
  \<open>get\<close> and \<open>list\<close> give what the API server answers at each attempt; with an error the plan is not looked at.
\<close>

definition plan_attempt :: "(nat \<Rightarrow> Plan result) \<Rightarrow> Cond \<Rightarrow> nat \<Rightarrow> Plan option \<Rightarrow> Plan option \<times> bool result" where
  "plan_attempt get cond i plan =
     (case get i of
        Inl err \<Rightarrow> (None, Inl err)
      | Inr p \<Rightarrow> (Some p, Inr (GetStatus (p_Conditions p) cond \<noteq> [])))"

definition WaitForPlanCondition :: "Plan option poll \<Rightarrow> (nat \<Rightarrow> Plan result) \<Rightarrow> Cond \<Rightarrow> Plan option \<times> go_error option" where
  "WaitForPlanCondition Poll get cond = Poll (plan_attempt get cond) None"

definition finished_item :: "Job \<Rightarrow> bool" where
  "finished_item item \<longleftrightarrow> IsTrue (job_Conditions item) ConditionFailed \<or> IsTrue (job_Conditions item) ConditionComplete"

definition jobs_attempt :: "(nat \<Rightarrow> Job list result) \<Rightarrow> int \<Rightarrow> nat \<Rightarrow> Job list \<Rightarrow> Job list \<times> bool result" where
  "jobs_attempt list cnt i jobs =
     (case list i of
        Inl err \<Rightarrow> (jobs, Inl err)
      | Inr items \<Rightarrow> (let jobs' = jobs @ filter finished_item items in (jobs', Inr (cnt \<le> int (length jobs')))))"

definition WaitForPlanJobs ::
    "('sel, 'req) extern \<Rightarrow> Job list poll \<Rightarrow> (string \<Rightarrow> string \<Rightarrow> nat \<Rightarrow> Job list result) \<Rightarrow> Plan \<Rightarrow> int \<Rightarrow> Job list \<times> go_error option" where
  "WaitForPlanJobs X Poll list plan cnt =
     (let labelSelector = SelectorFromSet X [LabelPlan \<mapsto> p_Name plan]
      in Poll (jobs_attempt (list (p_Namespace plan) (sel_String X labelSelector)) cnt) [])"

subsection \<open>Setting up\<close>

text \<open>The options of the test framework.\<close>

record framework_options =
  ClientQPS :: rat
  ClientBurst :: int
  opt_GroupVersion :: "GroupVersion option"

definition framework_New_options :: "(framework_options \<Rightarrow> framework_options) list \<Rightarrow> framework_options" where
  "framework_New_options opt = fold (\<lambda>fn options. fn options) opt \<lparr>ClientQPS = 20, ClientBurst = 50, opt_GroupVersion = None\<rparr>"

text \<open>
  The clients made before each test, with the configuration as it is when each is made; \<open>rc_others\<close> is its content type. The
  variable \<^verbatim>\<open>jsonConfig\<close> is a copy of a pointer: what is set through it is set in the one configuration.
\<close>

datatype test_client = KubernetesClient | DynamicClient | UpgradeClient | ScaleRESTClient | ScaleDiscoveryClient

definition beforeFramework ::
    "framework_options \<Rightarrow> string \<Rightarrow> 'ser \<Rightarrow> ('lim, 'ser, string) rest_config \<Rightarrow> (test_client \<times> ('lim, 'ser, string) rest_config) list" where
  "beforeFramework opts KubeAPIContentType codecs config0 =
     (let config1 = config0\<lparr>rc_QPS := ClientQPS opts, rc_Burst := ClientBurst opts\<rparr>;
          config2 = (case opt_GroupVersion opts of None \<Rightarrow> config1 | Some gv \<Rightarrow> config1\<lparr>rc_GroupVersion := Some gv\<rparr>);
          config3 = (if KubeAPIContentType \<noteq> [] then config2\<lparr>rc_others := KubeAPIContentType\<rparr> else config2);
          config4 = config3\<lparr>rc_others := ''application/json''\<rparr>;
          config5 = (if rc_GroupVersion config4 = None then config4\<lparr>rc_GroupVersion := Some \<lparr>gv_Group = [], gv_Version = []\<rparr>\<rparr> else config4);
          config6 = (if rc_NegotiatedSerializer config5 = None then config5\<lparr>rc_NegotiatedSerializer := Some codecs\<rparr> else config5)
      in [(KubernetesClient, config3), (DynamicClient, config3), (UpgradeClient, config6), (ScaleRESTClient, config6),
          (ScaleDiscoveryClient, config6)])"

text \<open>
  The controller of a test: a service account bound to the administrator's role, and the deployment. A failure of \<^verbatim>\<open>ExpectNoError\<close>
  ends the test (\<^const>\<open>Inl\<close>); that the role cannot be bound only gives a warning.
\<close>

record setup_world =
  su_CreateServiceAccount :: "string \<Rightarrow> string \<times> string \<Rightarrow> (string \<times> string) result"
  su_BindClusterRole :: "string \<Rightarrow> string \<Rightarrow> string \<times> string \<Rightarrow> go_error option"
  su_NewDeployment :: new_deployment
  su_CreateDeployment :: "string \<Rightarrow> Deployment \<Rightarrow> Deployment result"
  su_WaitComplete :: "Deployment \<Rightarrow> go_error option"
  su_environ :: environ

text \<open>A service account is its namespace and name; the result is \<^const>\<open>None\<close> when an option panics.\<close>

definition setupController :: "setup_world \<Rightarrow> string \<Rightarrow> (go_error option \<times> Deployment) result option" where
  "setupController w ns =
     (case su_CreateServiceAccount w ns (ns, ns) of
        Inl err \<Rightarrow> Some (Inl err)
      | Inr account \<Rightarrow>
          (let warning = su_BindClusterRole w ''cluster-admin'' ns account
           in case NewDeployment (su_NewDeployment w) ns
                [DeploymentDefaultImage (su_environ w), DeploymentDefaultTolerations, DeploymentWithServiceAccountName (snd account)] of
                None \<Rightarrow> None
              | Some deployment \<Rightarrow>
                  Some (attempt (CreateDeployment (su_CreateDeployment w) (su_WaitComplete w) ns deployment)
                    (\<lambda>d. Inr (warning, d)))))"

subsection \<open>Logging and the channel server\<close>

text \<open>\<^verbatim>\<open>fmt\<close> formats a list of arguments, one of which may be a slice.\<close>

datatype fmt_arg = Text string | Slice "fmt_arg list"

type_synonym formatter = "string \<Rightarrow> fmt_arg list \<Rightarrow> string"

definition Logf :: "formatter \<Rightarrow> string \<Rightarrow> string \<Rightarrow> string \<Rightarrow> fmt_arg list \<Rightarrow> string" where
  "Logf Sprintf stamp level format args = Sprintf (stamp @ '': '' @ level @ '': '' @ format @ [CHR 0x0A]) args"

definition Infof :: "formatter \<Rightarrow> string \<Rightarrow> string \<Rightarrow> fmt_arg list \<Rightarrow> string" where
  "Infof Sprintf stamp format args = Logf Sprintf stamp ''INFO'' format [Slice args]"

definition Warnf :: "formatter \<Rightarrow> string \<Rightarrow> string \<Rightarrow> fmt_arg list \<Rightarrow> string" where
  "Warnf Sprintf stamp format args = Logf Sprintf stamp ''WARN'' format [Slice args]"

definition Errorf :: "formatter \<Rightarrow> string \<Rightarrow> string \<Rightarrow> fmt_arg list \<Rightarrow> string" where
  "Errorf Sprintf stamp format args = Logf Sprintf stamp ''ERRO'' format [Slice args]"

text \<open>What is logged, the message the test fails with, and how many callers above it is reported.\<close>

definition FailfWithOffset :: "formatter \<Rightarrow> string \<Rightarrow> int \<Rightarrow> string \<Rightarrow> fmt_arg list \<Rightarrow> string \<times> string \<times> int" where
  "FailfWithOffset Sprintf stamp offset format args =
     (let msg = Sprintf format args in (Logf Sprintf stamp ''FAIL'' msg [], stamp @ '': '' @ msg, 1 + offset))"

definition Failf :: "formatter \<Rightarrow> string \<Rightarrow> string \<Rightarrow> fmt_arg list \<Rightarrow> string \<times> string \<times> int" where
  "Failf Sprintf stamp format args = FailfWithOffset Sprintf stamp 1 format args"

text \<open>The handler of the channel server of the tests: its status and headers, for any request.\<close>

definition ChannelServer :: "string \<Rightarrow> int \<Rightarrow> http_request \<Rightarrow> int \<times> (string \<rightharpoonup> string list)" where
  "ChannelServer location statusCode request = (statusCode, [''Location'' \<mapsto> [location]])"

subsection \<open>The deployment configures the command\<close>

text \<open>The environment a container sees; \<open>pod\<close> gives the fields of its pod.\<close>

definition container_environ :: "(string \<Rightarrow> string) \<Rightarrow> controller_container \<Rightarrow> environ" where
  "container_environ pod c = map_of (map (\<lambda>e. (ev_Name e,
     case ev_ValueFrom e of Some (FieldRef path ver) \<Rightarrow> pod path | _ \<Rightarrow> ev_Value e)) (cc_Env c))"

text \<open>What the test framework's deployment is documented to be: one container of the given name and image.\<close>

definition new_deployment_ok :: "new_deployment \<Rightarrow> bool" where
  "new_deployment_ok e2e_NewDeployment \<longleftrightarrow> (\<forall>nm replicas labels cname img strategy.
     map (\<lambda>c. (cc_Name c, cc_Image c)) (dep_Containers (e2e_NewDeployment nm replicas labels cname img strategy)) = [(cname, img)])"

text \<open>How the library reads texts and an empty command line.\<close>

definition reads_texts :: "(string list \<Rightarrow> cli_flag \<Rightarrow> flag_value option) \<Rightarrow> (flag_value \<Rightarrow> string \<Rightarrow> flag_value option) \<Rightarrow> bool" where
  "reads_texts given read_as \<longleftrightarrow> (\<forall>fl. given [] fl = None) \<and> (\<forall>d s. read_as (FString d) s = Some (FString s)) \<and>
     (\<forall>d. read_as (FBool d) ''true'' = Some (FBool True))"

abbreviation test_options :: "environ \<Rightarrow> string \<Rightarrow> DeploymentOption list" where
  "test_options env account \<equiv> [DeploymentDefaultImage env, DeploymentDefaultTolerations, DeploymentWithServiceAccountName account]"

lemma test_deployment:
  assumes "new_deployment_ok e2e_NewDeployment"
  obtains d c where "NewDeployment e2e_NewDeployment nm (test_options env account) = Some d" "dep_Containers d = [c]"
    "cc_Env c = controller_env nm" "cc_SecurityContext c = Some controller_security" "dep_ServiceAccountName d = account"
    "cc_Image c = (case env ''SYSTEM_UPGRADE_CONTROLLER_IMAGE'' of Some img \<Rightarrow> img | None \<Rightarrow> ''rancher/system-upgrade-controller:latest'')"
proof -
  have "map (\<lambda>c. (cc_Name c, cc_Image c)) (dep_Containers (e2e_NewDeployment nm 1 (controller_labels nm) ''system-upgrade-controller''
      ''rancher/system-upgrade-controller:latest'' ''Recreate'')) = [(''system-upgrade-controller'', ''rancher/system-upgrade-controller:latest'')]"
    using assms by (simp add: new_deployment_ok_def)
  then obtain c0 where "dep_Containers (e2e_NewDeployment nm 1 (controller_labels nm) ''system-upgrade-controller''
      ''rancher/system-upgrade-controller:latest'' ''Recreate'') = [c0]" by (auto simp: map_eq_Cons_conv)
  then show ?thesis
    by (intro that [of "the (NewDeployment e2e_NewDeployment nm (test_options env account))"
        "hd (dep_Containers (the (NewDeployment e2e_NewDeployment nm (test_options env account))))"])
      (auto simp: NewDeployment_def Let_def DeploymentDefaultImage_def DeploymentImage_def DeploymentDefaultTolerations_def
        DeploymentWithTolerations_def DeploymentWithServiceAccountName_def split: option.split)
qed

lemma controller_environ:
  "container_environ pod (c\<lparr>cc_Env := controller_env nm\<rparr>) =
     [''SYSTEM_UPGRADE_CONTROLLER_NODE_NAME'' \<mapsto> pod ''spec.nodeName'', ''SYSTEM_UPGRADE_CONTROLLER_NAMESPACE'' \<mapsto> pod ''metadata.namespace'',
      ''SYSTEM_UPGRADE_CONTROLLER_DEBUG'' \<mapsto> ''true'', ''SYSTEM_UPGRADE_CONTROLLER_LEADER_ELECT'' \<mapsto> ''true'', ''SYSTEM_UPGRADE_CONTROLLER_NAME'' \<mapsto> nm]"
  by (simp add: container_environ_def controller_env_def)

subsection \<open>What waiting gives\<close>

lemma attempts_jobs:
  "attempts (jobs_attempt list cnt) i n jobs = (jobs', None) \<Longrightarrow>
     cnt \<le> int (length jobs') \<and> (\<forall>j\<in>set jobs'. j \<in> set jobs \<or> finished_item j \<and> (\<exists>k items. list k = Inr items \<and> j \<in> set items))"
proof (induction n arbitrary: i jobs)
  case (Suc n)
  show ?case
  proof (cases "list i")
    case (Inr items)
    let ?jobs = "jobs @ filter finished_item items"
    have a: "jobs_attempt list cnt i jobs = (?jobs, Inr (cnt \<le> int (length ?jobs)))" using Inr by (simp add: jobs_attempt_def Let_def)
    show ?thesis
    proof (cases "cnt \<le> int (length ?jobs)")
      case True
      then have "jobs' = ?jobs" using Suc.prems by (simp add: a)
      with True Inr show ?thesis by auto
    next
      case False
      then have "attempts (jobs_attempt list cnt) (Suc i) n ?jobs = (jobs', None)"
        using Suc.prems by (simp add: a)
      from Suc.IH [OF this] Inr show ?thesis by auto
    qed
  qed (use Suc.prems in \<open>simp add: jobs_attempt_def\<close>)
qed simp

text \<open>A job that is listed each time is found each time.\<close>

lemma attempts_again:
  assumes "finished_item j" "\<And>i. list i = Inr [j]"
  shows "r < k \<Longrightarrow> k - r \<le> m \<Longrightarrow> attempts (jobs_attempt list (int k)) i m (replicate r j) = (replicate k j, None)"
proof (induction m arbitrary: r i)
  case (Suc m)
  have a: "jobs_attempt list (int k) i (replicate r j) = (replicate (Suc r) j, Inr (k \<le> Suc r))"
    using assms by (simp add: jobs_attempt_def Let_def replicate_append_same)
  show ?case
  proof (cases "k \<le> Suc r")
    case True
    then have "attempts (jobs_attempt list (int k)) i (Suc m) (replicate r j) = (replicate (Suc r) j, None)" by (simp add: a)
    moreover have "k = Suc r" using True Suc.prems by simp
    ultimately show ?thesis by blast
  next
    case False
    with a Suc.IH [of "Suc r" "Suc i"] Suc.prems show ?thesis by simp
  qed
qed simp

text \<open>What is waited for is there when the waiting ends without an error.\<close>

lemma WaitForPlanJobs_sound:
  assumes "poll_ok n Poll" "WaitForPlanJobs X Poll list plan cnt = (jobs, None)"
  shows "cnt \<le> int (length jobs) \<and> (\<forall>j\<in>set jobs. finished_item j \<and>
     (\<exists>k items. list (p_Namespace plan) (sel_String X (SelectorFromSet X [LabelPlan \<mapsto> p_Name plan])) k = Inr items \<and> j \<in> set items))"
  using assms attempts_jobs by (fastforce simp: WaitForPlanJobs_def poll_ok_def)

lemma WaitForPlanCondition_sound:
  assumes "poll_ok n Poll" "WaitForPlanCondition Poll get cond = (plan, None)"
  shows "\<exists>p k. plan = Some p \<and> get k = Inr p \<and> GetStatus (p_Conditions p) cond \<noteq> []"
proof -
  have "attempts (plan_attempt get cond) i m s = (plan, None) \<Longrightarrow>
      \<exists>p k. plan = Some p \<and> get k = Inr p \<and> GetStatus (p_Conditions p) cond \<noteq> []" for i m s
  proof (induction m arbitrary: i s)
    case (Suc m)
    then show ?case
      by (cases "get i"; cases "GetStatus (p_Conditions (projr (get i))) cond = []") (auto simp: plan_attempt_def)
  qed simp
  with assms show ?thesis by (simp add: WaitForPlanCondition_def poll_ok_def)
qed

text \<open>The channel server as \<^verbatim>\<open>ResolveChannel\<close> sees it, through a client that delivers its answers.\<close>

lemma channel_server_resolves:
  assumes "http_NewRequest H url = Inr rq" "\<And>rq. \<exists>rs. http_Do H rq = Inr rs \<and> rs_StatusCode rs = fst (ChannelServer location status rq) \<and>
      rs_Location rs = Inr (hd (the (snd (ChannelServer location status rq) ''Location'')))"
  shows "status = 302 \<Longrightarrow> ResolveChannel H url latest clusterID = Inr (path_Base location)"
    and "400 \<le> status \<Longrightarrow> isl (ResolveChannel H url latest clusterID)"
proof -
  obtain rs where rs: "http_Do H (channel_request rq latest clusterID) = Inr rs" "rs_StatusCode rs = status" "rs_Location rs = Inr location"
    using assms(2) [of "channel_request rq latest clusterID"] by (auto simp: ChannelServer_def)
  show "status = 302 \<Longrightarrow> ResolveChannel H url latest clusterID = Inr (path_Base location)"
    using rs assms(1) unfolding channel_request_eq by (simp add: ResolveChannel_def Let_def)
  show "isl (ResolveChannel H url latest clusterID)" if "400 \<le> status"
    using rs assms(1) that go_div_200 [of status] unfolding channel_request_eq by (simp add: ResolveChannel_def Let_def)
qed

text \<open>
  \<^verbatim>\<open>jsonConfig\<close> is the configuration itself: the clients made after it speak JSON, whatever content type the tests ask for.
\<close>

lemma json_for_all:
  "(UpgradeClient, config) \<in> set (beforeFramework opts contentType codecs config0) \<Longrightarrow> rc_others config = ''application/json''"
  by (auto simp: beforeFramework_def Let_def split: option.splits if_splits)

text \<open>
  Waiting for jobs counts the same job again: the list of finished jobs is kept from one attempt to the next, so
  a single finished job that is listed each time satisfies every count up to the number of attempts, and is returned
  that many times.
\<close>

lemma wait_counts_jobs_again:
  assumes "poll_ok n Poll" "finished_item j" "0 < k" "k \<le> n"
    and "\<And>i. list (p_Namespace plan) (sel_String X (SelectorFromSet X [LabelPlan \<mapsto> p_Name plan])) i = Inr [j]"
  shows "WaitForPlanJobs X Poll list plan (int k) = (replicate k j, None)"
  using attempts_again [OF assms(2), of "list (p_Namespace plan) (sel_String X (SelectorFromSet X [LabelPlan \<mapsto> p_Name plan]))" 0 k n 0]
    assms(1,3,4,5) by (simp add: WaitForPlanJobs_def poll_ok_def)

subsection \<open>Properties\<close>

text \<open>
  The deployment that the end-to-end tests make configures the command completely: in the environment of its only
  container, without arguments, the command runs under the name of the deployment, in the namespace and on the
  node of its pod, with leader election and two threads; its image is the one the environment of the
  tests names.
\<close>

lemma deployment_configures_main:
  assumes "new_deployment_ok e2e_NewDeployment" "cli_ok app_Run given read_as" "reads_texts given read_as"
  shows "\<exists>d c. NewDeployment e2e_NewDeployment nm (test_options env account) = Some d \<and> dep_Containers d = [c] \<and>
     dep_ServiceAccountName d = account \<and>
     cc_Image c = (case env ''SYSTEM_UPGRADE_CONTROLLER_IMAGE'' of Some img \<Rightarrow> img | None \<Rightarrow> ''rancher/system-upgrade-controller:latest'') \<and>
     (\<forall>as. app_Run main_app [] (container_environ pod c) = Assigned as \<longrightarrow>
        options_of (assign zero_variables as) = \<lparr>opt_leaderElect = True, opt_kubeConfig = [], opt_masterURL = [],
          opt_nodeName = pod ''spec.nodeName'', opt_namespace = pod ''metadata.namespace'', opt_name = nm, opt_threads = 2\<rparr>)"
proof (rule test_deployment [OF assms(1), of nm env account])
  fix d c assume d: "NewDeployment e2e_NewDeployment nm (test_options env account) = Some d" "dep_Containers d = [c]"
    "cc_Env c = controller_env nm" "dep_ServiceAccountName d = account"
    "cc_Image c = (case env ''SYSTEM_UPGRADE_CONTROLLER_IMAGE'' of Some img \<Rightarrow> img | None \<Rightarrow> ''rancher/system-upgrade-controller:latest'')"
  have e: "container_environ pod c = container_environ pod (c\<lparr>cc_Env := controller_env nm\<rparr>)" using d(3) by (simp add: container_environ_def)
  have "options_of (assign zero_variables as) = \<lparr>opt_leaderElect = True, opt_kubeConfig = [], opt_masterURL = [],
      opt_nodeName = pod ''spec.nodeName'', opt_namespace = pod ''metadata.namespace'', opt_name = nm, opt_threads = 2\<rparr>"
    if "app_Run main_app [] (container_environ pod c) = Assigned as" for as
    unfolding cli_assigned(1) [OF assms(2) that] e controller_environ using assms(3)
    by (simp add: options_of_def assign_def main_app_def main_flags_def a_flag_def value_of_def setting_def from_env_def reads_texts_def)
  with d show ?thesis by blast
qed

definition sample_new_deployment :: new_deployment where
  "sample_new_deployment nm replicas labels cname img strategy =
     \<lparr>dep_Name = nm, dep_Replicas = replicas, dep_Labels = labels, dep_Strategy = strategy,
      dep_Containers = [\<lparr>cc_Name = cname, cc_Image = img, cc_SecurityContext = None, cc_Env = [], cc_VolumeMounts = []\<rparr>],
      dep_EmptyDirs = [], dep_Tolerations = [], dep_ServiceAccountName = []\<rparr>"

end
